(* ===== verification/Go_Prelude.thy ===== *)
theory Go_Prelude
  imports
    Main
    "HOL-Library.List_Lexorder"
    "HOL-Library.Char_ord"
    "HOL-Library.Sublist"
    "HOL-Library.Multiset"
begin

text \<open>
  The part of the Go language and of its standard library that every component uses: byte
  strings and the \<open>strings\<close>, \<open>strconv\<close> and \<open>time\<close> functions the sources call, fallible results,
  and the generic list lemmas the component theories share.

  A Go \<open>string\<close> and a \<open>[]byte\<close> are sequences of bytes; both are \<open>string\<close> here, a list of
  8-bit characters, so \<open>length\<close> counts bytes as Go's \<open>len\<close> does and the list order of
  \<open>List_Lexorder\<close> with \<open>Char_ord\<close> is Go's byte-wise string order.
  A \<open>time.Time\<close> is the integer count of nanoseconds since the Unix epoch, a \<open>time.Duration\<close>
  the signed count of nanoseconds.
\<close>

named_theorems go_bounds \<open>length and range facts of the string and number helpers\<close>
named_theorems go_result \<open>how a fallible step that returned decomposes\<close>

type_synonym go_string = string
type_synonym go_time = int
type_synonym go_duration = int
type_synonym ('k, 'v) go_map = "('k \<times> 'v) list"

section \<open>Fallible steps\<close>

text \<open>A Go function returning \<open>(T, error)\<close> returns \<open>Inr\<close> the value or \<open>Inl\<close> the error.\<close>

definition rbind :: "'e + 'a \<Rightarrow> ('a \<Rightarrow> 'e + 'b) \<Rightarrow> 'e + 'b" where
  "rbind r f = (case r of Inl e \<Rightarrow> Inl e | Inr a \<Rightarrow> f a)"

lemma rbind_simps [simp]: "rbind (Inl e) f = Inl e" "rbind (Inr a) f = f a"
  by (simp_all add: rbind_def)

lemma rbind_Inr_iff [go_result]: "rbind r f = Inr b \<longleftrightarrow> (\<exists>a. r = Inr a \<and> f a = Inr b)"
  by (cases r) simp_all

lemma rbind_Inl_iff [go_result]:
  "rbind r f = Inl e \<longleftrightarrow> r = Inl e \<or> (\<exists>a. r = Inr a \<and> f a = Inl e)"
  by (cases r) simp_all

text \<open>\<open>if cond { return err }\<close>\<close>

definition guard :: "bool \<Rightarrow> 'e \<Rightarrow> 'e + unit" where
  "guard b e = (if b then Inr () else Inl e)"

lemma guard_simps [simp]: "guard True e = Inr ()" "guard False e = Inl e"
  by (simp_all add: guard_def)

lemma guard_Inr_iff [go_result]: "guard b e = Inr u \<longleftrightarrow> b"
  by (cases b) simp_all

lemma guard_Inl_iff [go_result]: "guard b e = Inl e' \<longleftrightarrow> \<not> b \<and> e' = e"
  by (cases b) auto

text \<open>A loop over a slice whose body may return an error.\<close>

fun rmap :: "('a \<Rightarrow> 'e + 'b) \<Rightarrow> 'a list \<Rightarrow> 'e + 'b list" where
  "rmap f [] = Inr []"
| "rmap f (x # xs) = rbind (f x) (\<lambda>y. rbind (rmap f xs) (\<lambda>ys. Inr (y # ys)))"

lemma rmap_Inr_iff [go_result]: "rmap f xs = Inr ys \<longleftrightarrow> list_all2 (\<lambda>x y. f x = Inr y) xs ys"
proof (induction xs arbitrary: ys)
  case Nil
  then show ?case by (auto simp: list_all2_Nil)
next
  case (Cons x xs)
  then show ?case
    by (cases ys) (auto simp: rbind_Inr_iff list_all2_Cons1)
qed

lemma rmap_Inr_set: "rmap f xs = Inr ys \<Longrightarrow> y \<in> set ys \<Longrightarrow> \<exists>x \<in> set xs. f x = Inr y"
  by (induction xs arbitrary: ys) (auto simp: rbind_Inr_iff)

section \<open>Strings\<close>

definition HasPrefix :: "string \<Rightarrow> string \<Rightarrow> bool" where
  "HasPrefix s p \<longleftrightarrow> prefix p s"

definition HasSuffix :: "string \<Rightarrow> string \<Rightarrow> bool" where
  "HasSuffix s p \<longleftrightarrow> suffix p s"

definition Contains :: "string \<Rightarrow> string \<Rightarrow> bool" where
  "Contains s sub \<longleftrightarrow> sublist sub s"

definition ContainsAny :: "string \<Rightarrow> string \<Rightarrow> bool" where
  "ContainsAny s chars \<longleftrightarrow> (\<exists>c \<in> set s. c \<in> set chars)"

definition TrimSuffix :: "string \<Rightarrow> string \<Rightarrow> string" where
  "TrimSuffix s p = (if HasSuffix s p then take (length s - length p) s else s)"

definition TrimRight :: "string \<Rightarrow> string \<Rightarrow> string" where
  "TrimRight s chars = rev (dropWhile (\<lambda>c. c \<in> set chars) (rev s))"

definition TrimLeft :: "string \<Rightarrow> string \<Rightarrow> string" where
  "TrimLeft s chars = dropWhile (\<lambda>c. c \<in> set chars) s"

text \<open>\<open>strings.Split(s, sep)\<close> with a one-byte separator: never empty.\<close>

fun Split :: "string \<Rightarrow> char \<Rightarrow> string list" where
  "Split [] c = [[]]"
| "Split (x # xs) c =
     (if x = c then [] # Split xs c
      else (case Split xs c of [] \<Rightarrow> [[x]] | y # ys \<Rightarrow> (x # y) # ys))"

fun Join :: "string list \<Rightarrow> string \<Rightarrow> string" where
  "Join [] sep = []"
| "Join [x] sep = x"
| "Join (x # y # ys) sep = x @ sep @ Join (y # ys) sep"

text \<open>\<open>s[strings.LastIndexByte(s, c)+1:]\<close>, or \<open>s\<close> when \<open>c\<close> does not occur.\<close>

definition after_last :: "char \<Rightarrow> string \<Rightarrow> string" where
  "after_last c s = rev (takeWhile (\<lambda>x. x \<noteq> c) (rev s))"

definition lower_char :: "char \<Rightarrow> char" where
  "lower_char c = (if CHR ''A'' \<le> c \<and> c \<le> CHR ''Z'' then char_of (of_char c + (32 :: nat)) else c)"

text \<open>\<open>strings.ToLower\<close> on the ASCII letters; other bytes are kept.\<close>

definition ToLower :: "string \<Rightarrow> string" where
  "ToLower s = map lower_char s"

text \<open>
  The white space \<open>strings.TrimSpace\<close> cuts: the ASCII ones as single bytes, the other
  \<open>unicode.IsSpace\<close> code points as their UTF-8 bytes.
\<close>

definition ascii_space :: "char \<Rightarrow> bool" where
  "ascii_space c \<longleftrightarrow> c \<in> {CHR '' '', CHR 0x09, CHR 0x0A, CHR 0x0B, CHR 0x0C, CHR 0x0D}"

definition space2 :: "char \<Rightarrow> char \<Rightarrow> bool" where
  "space2 a b \<longleftrightarrow> a = CHR 0xC2 \<and> b \<in> {CHR 0x85, CHR 0xA0}"

definition space3 :: "char \<Rightarrow> char \<Rightarrow> char \<Rightarrow> bool" where
  "space3 a b c \<longleftrightarrow>
     (a = CHR 0xE1 \<and> b = CHR 0x9A \<and> c = CHR 0x80)
   \<or> (a = CHR 0xE2 \<and> b = CHR 0x80 \<and>
       (CHR 0x80 \<le> c \<and> c \<le> CHR 0x8A \<or> c \<in> {CHR 0xA8, CHR 0xA9, CHR 0xAF}))
   \<or> (a = CHR 0xE2 \<and> b = CHR 0x81 \<and> c = CHR 0x9F)
   \<or> (a = CHR 0xE3 \<and> b = CHR 0x80 \<and> c = CHR 0x80)"

fun trim_left_space :: "string \<Rightarrow> string" where
  "trim_left_space (a # b # c # s) =
     (if ascii_space a then trim_left_space (b # c # s)
      else if space2 a b then trim_left_space (c # s)
      else if space3 a b c then trim_left_space s
      else a # b # c # s)"
| "trim_left_space [a, b] =
     (if ascii_space a then trim_left_space [b] else if space2 a b then [] else [a, b])"
| "trim_left_space [a] = (if ascii_space a then [] else [a])"
| "trim_left_space [] = []"

fun trim_right_rev :: "string \<Rightarrow> string" where
  "trim_right_rev (c # b # a # s) =
     (if ascii_space c then trim_right_rev (b # a # s)
      else if space2 b c then trim_right_rev (a # s)
      else if space3 a b c then trim_right_rev s
      else c # b # a # s)"
| "trim_right_rev [b, a] =
     (if ascii_space b then trim_right_rev [a] else if space2 a b then [] else [b, a])"
| "trim_right_rev [a] = (if ascii_space a then [] else [a])"
| "trim_right_rev [] = []"

definition TrimSpace :: "string \<Rightarrow> string" where
  "TrimSpace s = rev (trim_right_rev (rev (trim_left_space s)))"

section \<open>Decimal numbers\<close>

text \<open>\<open>strconv.Itoa\<close>, \<open>strconv.FormatInt(n, 10)\<close> and the verb \<open>%d\<close>.\<close>

definition digit_char :: "nat \<Rightarrow> char" where
  "digit_char d = char_of (48 + d)"

fun show_nat :: "nat \<Rightarrow> string" where
  "show_nat n = (if n < 10 then [digit_char n] else show_nat (n div 10) @ [digit_char (n mod 10)])"

declare show_nat.simps [simp del]

definition show_int :: "int \<Rightarrow> string" where
  "show_int i = (if i < 0 then CHR ''-'' # show_nat (nat (- i)) else show_nat (nat i))"

definition is_digit :: "char \<Rightarrow> bool" where
  "is_digit c \<longleftrightarrow> CHR ''0'' \<le> c \<and> c \<le> CHR ''9''"

definition digit_val :: "char \<Rightarrow> nat" where
  "digit_val c = of_char c - 48"

fun dec_val :: "nat \<Rightarrow> string \<Rightarrow> nat" where
  "dec_val acc [] = acc"
| "dec_val acc (c # s) = dec_val (10 * acc + digit_val c) s"

text \<open>\<open>strconv.ParseUint(s, 10, 64)\<close>: no sign, at least one digit, in range.\<close>

definition ParseUint64 :: "string \<Rightarrow> nat option" where
  "ParseUint64 s =
     (if s \<noteq> [] \<and> list_all is_digit s \<and> dec_val 0 s < 2 ^ 64 then Some (dec_val 0 s) else None)"

text \<open>\<open>strconv.ParseInt(s, 10, 64)\<close> and, on a 64-bit platform, \<open>strconv.Atoi\<close>.\<close>

definition ParseInt64 :: "string \<Rightarrow> int option" where
  "ParseInt64 s =
     (let (neg, ds) = (case s of
         [] \<Rightarrow> (False, [])
       | c # r \<Rightarrow> if c = CHR ''-'' then (True, r) else if c = CHR ''+'' then (False, r) else (False, s))
      in if ds = [] \<or> \<not> list_all is_digit ds then None
         else let v = int (dec_val 0 ds) in
           if neg then (if v \<le> 2 ^ 63 then Some (- v) else None)
           else (if v < 2 ^ 63 then Some v else None))"

section \<open>Time\<close>

definition second :: go_duration where "second = 1000000000"
definition minute :: go_duration where "minute = 60 * second"
definition hour :: go_duration where "hour = 60 * minute"

definition max_duration :: go_duration where "max_duration = 2 ^ 63 - 1"
definition min_duration :: go_duration where "min_duration = - (2 ^ 63)"

text \<open>\<open>t.Sub(u)\<close> saturates at the range of a \<open>Duration\<close>.\<close>

definition time_Sub :: "go_time \<Rightarrow> go_time \<Rightarrow> go_duration" where
  "time_Sub t u = max min_duration (min max_duration (t - u))"

text \<open>The zero \<open>time.Time\<close> is the start of year 1.\<close>

definition zero_time :: go_time where
  "zero_time = - 62135596800 * second"

text \<open>An \<open>int64\<close> after a sum.\<close>

definition wrap64 :: "int \<Rightarrow> int" where
  "wrap64 i = (i + 2 ^ 63) mod 2 ^ 64 - 2 ^ 63"

text \<open>
  \<open>time.Unix(s, 0)\<close> and \<open>t.Add(d)\<close>: a \<open>Time\<close> counts its seconds from the start of year 1 in an
  \<open>int64\<close>, in which the sum of \<open>Unix\<close> wraps and that of \<open>Add\<close> saturates.
\<close>

definition time_from_Unix :: "int \<Rightarrow> go_time" where
  "time_from_Unix s = zero_time + wrap64 (s + 62135596800) * second"

definition saturate64 :: "int \<Rightarrow> int" where
  "saturate64 i = (if 2 ^ 63 \<le> i then 2 ^ 63 - 1 else if i < - (2 ^ 63) then - (2 ^ 63 - 1) else i)"

definition time_Add :: "go_time \<Rightarrow> go_duration \<Rightarrow> go_time" where
  "time_Add t d =
     zero_time + saturate64 ((t + d - zero_time) div second) * second + (t + d - zero_time) mod second"

section \<open>Lemmas on the helpers\<close>

lemma prefix_code_length: "HasPrefix s p \<Longrightarrow> length p \<le> length s"
  by (auto simp: HasPrefix_def prefix_def)

lemma TrimSuffix_append [simp]: "TrimSuffix (s @ p) p = s"
  by (auto simp: TrimSuffix_def HasSuffix_def suffix_def)

lemma TrimSuffix_not [simp]: "\<not> HasSuffix s p \<Longrightarrow> TrimSuffix s p = s"
  by (simp add: TrimSuffix_def)

lemma TrimSuffix_HasSuffix: "HasSuffix s p \<Longrightarrow> TrimSuffix s p @ p = s"
  by (auto simp: TrimSuffix_def HasSuffix_def suffix_def)

lemma Split_not_Nil [simp]: "Split s c \<noteq> []"
  by (induction s) (auto split: list.splits)

lemma Join_Cons: "ys \<noteq> [] \<Longrightarrow> Join (x # ys) sep = x @ sep @ Join ys sep"
  by (cases ys) simp_all

lemma Join_Split [simp]: "Join (Split s c) [c] = s"
proof (induction s)
  case (Cons x s)
  obtain y ys where y: "Split s c = y # ys"
    using Split_not_Nil by (cases "Split s c") blast
  with Cons show ?case by (cases ys) simp_all
qed simp

lemma Split_no_sep: "c \<notin> set s \<Longrightarrow> Split s c = [s]"
  by (induction s) auto

lemma Split_append_sep: "c \<notin> set s \<Longrightarrow> Split (s @ c # t) c = s # Split t c"
  by (induction s) auto

lemma Split_parts_no_sep: "p \<in> set (Split s c) \<Longrightarrow> c \<notin> set p"
  by (induction s arbitrary: p) (auto split: list.splits if_splits)

lemma Split_Join: "ps \<noteq> [] \<Longrightarrow> \<forall>p \<in> set ps. c \<notin> set p \<Longrightarrow> Split (Join ps [c]) c = ps"
proof (induction ps)
  case (Cons p ps)
  then show ?case
    by (cases ps) (simp_all add: Split_no_sep Split_append_sep)
qed simp

text \<open>The first separator of a string determines the two parts around it.\<close>

lemma append_sep_eq_iff:
  assumes "c \<notin> set a" and "c \<notin> set a'"
  shows "a @ c # b = a' @ c # b' \<longleftrightarrow> a = a' \<and> b = b'"
proof
  assume eq: "a @ c # b = a' @ c # b'"
  have tw: "takeWhile (\<lambda>x. x \<noteq> c) (a @ c # b) = a" "takeWhile (\<lambda>x. x \<noteq> c) (a' @ c # b') = a'"
    using assms by (auto simp: takeWhile_append takeWhile_eq_all_conv)
  from tw have "a = a'" by (simp only: eq)
  with eq show "a = a' \<and> b = b'" by simp
qed simp

lemma is_digit_iff: "is_digit c \<longleftrightarrow> 48 \<le> (of_char c :: nat) \<and> (of_char c :: nat) \<le> 57"
  by (simp add: is_digit_def less_eq_char_def)

lemma of_digit_char [simp]: "d < 10 \<Longrightarrow> (of_char (digit_char d) :: nat) = 48 + d"
  by (simp add: digit_char_def)

lemma is_digit_digit_char [simp]: "d < 10 \<Longrightarrow> is_digit (digit_char d)"
  by (simp add: is_digit_iff)

lemma digit_val_digit_char [simp]: "d < 10 \<Longrightarrow> digit_val (digit_char d) = d"
  by (simp add: digit_val_def)

lemma digit_val_le [go_bounds]: "is_digit c \<Longrightarrow> digit_val c \<le> 9"
  by (auto simp: digit_val_def is_digit_iff)

lemma show_nat_not_Nil [simp]: "show_nat n \<noteq> []"
  by (subst show_nat.simps) simp

lemma show_nat_digits: "list_all is_digit (show_nat n)"
proof (induction n rule: show_nat.induct)
  case (1 n)
  then show ?case by (subst show_nat.simps) simp
qed

lemma dec_val_append: "dec_val acc (s @ t) = dec_val (dec_val acc s) t"
  by (induction s arbitrary: acc) simp_all

lemma dec_val_show_nat [simp]: "dec_val 0 (show_nat n) = n"
proof (induction n rule: show_nat.induct)
  case (1 n)
  show ?case
  proof (cases "n < 10")
    case False
    with 1 show ?thesis
      by (subst show_nat.simps) (simp add: dec_val_append)
  qed (simp add: show_nat.simps [of n])
qed

lemma show_nat_inject [simp]: "show_nat m = show_nat n \<longleftrightarrow> m = n"
  by (metis dec_val_show_nat)

lemma show_nat_set: "x \<in> set (show_nat n) \<Longrightarrow> is_digit x"
  using show_nat_digits [of n] by (simp add: list_all_iff)

lemma not_is_digit_simps [simp]:
  "\<not> is_digit CHR ''-''" "\<not> is_digit CHR ''+''" "\<not> is_digit CHR ''|''" "\<not> is_digit CHR ''.''"
  by (simp_all add: is_digit_iff)

lemma show_int_set: "x \<in> set (show_int i) \<Longrightarrow> is_digit x \<or> x = CHR ''-''"
  by (auto simp: show_int_def dest: show_nat_set split: if_splits)

lemma show_nat_hd: "is_digit (hd (show_nat n))"
  by (rule show_nat_set) (rule hd_in_set, simp)

lemma show_nat_ConsD: "show_nat n = c # s \<Longrightarrow> is_digit c"
  using show_nat_hd [of n] by simp

lemma show_int_inject [simp]: "show_int i = show_int j \<longleftrightarrow> i = j"
  by (auto simp: show_int_def eq_nat_nat_iff dest: show_nat_ConsD show_nat_ConsD [OF sym] split: if_splits)

lemma ParseInt64_show_int:
  assumes "- (2 ^ 63) \<le> i" and "i < 2 ^ 63"
  shows "ParseInt64 (show_int i) = Some i"
proof (cases "i < 0")
  case True
  with assms show ?thesis
    by (auto simp: ParseInt64_def show_int_def show_nat_digits)
next
  case False
  obtain c s where cs: "show_nat (nat i) = c # s"
    using show_nat_not_Nil by (cases "show_nat (nat i)") blast
  then have "is_digit c" by (rule show_nat_ConsD)
  then have c: "c \<noteq> CHR ''-''" "c \<noteq> CHR ''+''"
    by auto
  have "list_all is_digit (c # s)" and "dec_val 0 (c # s) = nat i"
    using show_nat_digits [of "nat i"] dec_val_show_nat [of "nat i"] by (simp_all only: cs)
  with False assms cs c show ?thesis
    by (simp add: ParseInt64_def show_int_def)
qed

lemma time_Sub_range [go_bounds]: "min_duration \<le> time_Sub t u" "time_Sub t u \<le> max_duration"
  by (auto simp: time_Sub_def min_duration_def max_duration_def)

lemma time_Sub_gt_iff: "0 < d \<Longrightarrow> d < max_duration \<Longrightarrow> d < time_Sub t u \<longleftrightarrow> d < t - u"
  by (auto simp: time_Sub_def min_duration_def max_duration_def)

lemma time_Sub_less_iff:
  "min_duration < d \<Longrightarrow> d \<le> max_duration \<Longrightarrow> time_Sub t u < d \<longleftrightarrow> t - u < d"
  by (auto simp: time_Sub_def min_duration_def max_duration_def)

text \<open>\<open>TrimSpace\<close> keeps every character that no white space contains.\<close>

definition solid :: "char \<Rightarrow> bool" where
  "solid c \<longleftrightarrow> \<not> ascii_space c \<and> (of_char c :: nat) < 128"

lemma solid_not_space [simp]:
  "solid c \<Longrightarrow> \<not> ascii_space c"
  "solid c \<Longrightarrow> \<not> space2 c b" "solid c \<Longrightarrow> \<not> space2 a c"
  "solid c \<Longrightarrow> \<not> space3 c b d" "solid c \<Longrightarrow> \<not> space3 a c d" "solid c \<Longrightarrow> \<not> space3 a b c"
  by (auto simp: solid_def space2_def space3_def less_eq_char_def)

lemma trim_left_space_solid: "solid c \<Longrightarrow> c \<in> set s \<Longrightarrow> c \<in> set (trim_left_space s)"
  by (induction s rule: trim_left_space.induct) (auto split: if_splits)

lemma trim_right_rev_solid: "solid c \<Longrightarrow> c \<in> set s \<Longrightarrow> c \<in> set (trim_right_rev s)"
  by (induction s rule: trim_right_rev.induct) (auto split: if_splits)

lemma TrimSpace_solid: "solid c \<Longrightarrow> c \<in> set s \<Longrightarrow> TrimSpace s \<noteq> []"
  using trim_right_rev_solid [of c "rev (trim_left_space s)"] trim_left_space_solid [of c s]
  by (auto simp: TrimSpace_def)

end
