(* ===== verification/Go_Errors.thy ===== *)
theory Go_Errors
  imports Go_Prelude
begin

text \<open>
  Go error values. A package's \<open>*Error\<close> with a stable code is \<open>Coded\<close>, with the error it
  carries in \<open>Err\<close>; \<open>Wrapped\<close> is any error with an \<open>Unwrap() error\<close> method (\<open>fmt.Errorf\<close> with
  \<open>%w\<close>), \<open>Joined\<close> one with \<open>Unwrap() []error\<close> (\<open>errors.Join\<close>), \<open>Opaque\<close> one with neither.
  The nil error is \<open>None\<close> of the option type.

  \<open>auth/errors.go\<close>, \<open>github/errors.go\<close> and \<open>fulcrumprojects/errors.go\<close> each declare the same
  \<open>IsCode\<close> loop over their own code type; the locale states what such a package promises and
  is interpreted by each of the three.
\<close>

datatype 'c go_error =
    Coded 'c "'c go_error option"
  | Wrapped string "'c go_error"
  | Joined "'c go_error list"
  | Opaque string

text \<open>The loop of \<open>IsCode\<close>: the chain is followed through \<open>Unwrap() error\<close> only.\<close>

fun chain_has_code :: "'c go_error \<Rightarrow> 'c \<Rightarrow> bool" where
  "chain_has_code (Coded c e) k \<longleftrightarrow> c = k \<or> (case e of None \<Rightarrow> False | Some e' \<Rightarrow> chain_has_code e' k)"
| "chain_has_code (Wrapped m e) k \<longleftrightarrow> chain_has_code e k"
| "chain_has_code (Joined es) k \<longleftrightarrow> False"
| "chain_has_code (Opaque m) k \<longleftrightarrow> False"

text \<open>\<open>errorf\<close>: the formatted text never wraps, since no call of it uses \<open>%w\<close>.\<close>

definition coded :: "'c \<Rightarrow> string \<Rightarrow> 'c go_error" where
  "coded c msg = Coded c (Some (Opaque msg))"

text \<open>What a package with coded errors promises.\<close>

locale coded_errors =
  fixes mk :: "'c \<Rightarrow> string \<Rightarrow> 'd go_error"
    and is_code :: "'d go_error option \<Rightarrow> 'c \<Rightarrow> bool"
  assumes is_code_nil: "\<not> is_code None k"
    and is_code_mk: "is_code (Some (mk c m)) k \<longleftrightarrow> c = k"
    and is_code_wrapped: "is_code (Some (Wrapped m e)) k \<longleftrightarrow> is_code (Some e) k"
begin

lemma is_code_determined: "is_code (Some (mk c m)) k \<Longrightarrow> is_code (Some (mk c m)) k' \<Longrightarrow> k = k'"
  by (simp add: is_code_mk)

lemma is_code_fold_wrapped: "is_code (Some (foldr Wrapped ms (mk c m))) k \<longleftrightarrow> c = k"
  by (induction ms) (simp_all add: is_code_mk is_code_wrapped)

end

end
