(* ===== verification/Go_Encoding.thy ===== *)
theory Go_Encoding
  imports Go_Prelude
begin

text \<open>
  The byte encodings of the standard library the sources use: \<open>encoding/hex\<close>,
  \<open>encoding/base64\<close> (the padded standard alphabet and the unpadded URL alphabet) and
  \<open>net/url\<close>'s query escaping. Each decoder is written with Go's acceptance rules, and each
  pair is an instance of one interface, the locale \<open>codec\<close>.
\<close>

section \<open>The interface of an encoder and its decoder\<close>

locale codec =
  fixes enc :: "'a \<Rightarrow> string" and dec :: "string \<Rightarrow> 'a option"
  assumes dec_enc: "dec (enc x) = Some x"
begin

lemma enc_eq_iff: "enc x = enc y \<longleftrightarrow> x = y"
  using dec_enc by (metis option.inject)

lemma dec_enc_unique: "enc x = s \<Longrightarrow> dec s = Some y \<Longrightarrow> y = x"
  using dec_enc by auto

end

section \<open>Hexadecimal\<close>

abbreviation byte_of :: "nat \<Rightarrow> char" where "byte_of n \<equiv> char_of n"
abbreviation of_byte :: "char \<Rightarrow> nat" where "of_byte c \<equiv> of_char c"

definition lower_hex_digit :: "nat \<Rightarrow> char" where
  "lower_hex_digit d = (if d < 10 then char_of (48 + d) else char_of (87 + d))"

definition upper_hex_digit :: "nat \<Rightarrow> char" where
  "upper_hex_digit d = (if d < 10 then char_of (48 + d) else char_of (55 + d))"

definition hex_val :: "char \<Rightarrow> nat option" where
  "hex_val c = (let n = of_byte c in
     if 48 \<le> n \<and> n \<le> 57 then Some (n - 48)
     else if 97 \<le> n \<and> n \<le> 102 then Some (n - 87)
     else if 65 \<le> n \<and> n \<le> 70 then Some (n - 55)
     else None)"

fun hex_encode :: "string \<Rightarrow> string" where
  "hex_encode [] = []"
| "hex_encode (c # s) =
     lower_hex_digit (of_byte c div 16) # lower_hex_digit (of_byte c mod 16) # hex_encode s"

fun hex_decode :: "string \<Rightarrow> string option" where
  "hex_decode [] = Some []"
| "hex_decode [a] = None"
| "hex_decode (a # b # s) =
     (case (hex_val a, hex_val b, hex_decode s) of
        (Some x, Some y, Some r) \<Rightarrow> Some (byte_of (16 * x + y) # r)
      | _ \<Rightarrow> None)"

lemma hex_val_lower [simp]: "d < 16 \<Longrightarrow> hex_val (lower_hex_digit d) = Some d"
  by (auto simp: hex_val_def lower_hex_digit_def Let_def)

lemma hex_val_upper [simp]: "d < 16 \<Longrightarrow> hex_val (upper_hex_digit d) = Some d"
  by (auto simp: hex_val_def upper_hex_digit_def Let_def)

lemma of_byte_less [go_bounds, simp]: "of_byte c < 256"
  using nat_of_char_less_256 [of c] by simp

lemma of_byte_div_mod [simp]:
  "of_byte c div 16 < 16" "16 * (of_byte c div 16) + of_byte c mod 16 = of_byte c"
  using of_byte_less [of c] by (simp_all add: div_less_iff_less_mult)

lemma hex_decode_encode [simp]: "hex_decode (hex_encode s) = Some s"
  by (induction s) simp_all

lemma length_hex_encode [go_bounds, simp]: "length (hex_encode s) = 2 * length s"
  by (induction s) simp_all

lemma length_hex_decode [go_bounds]: "hex_decode s = Some b \<Longrightarrow> length s = 2 * length b"
  by (induction s arbitrary: b rule: hex_decode.induct) (auto split: option.splits)

interpretation hexc: codec hex_encode hex_decode
  by unfold_locales simp

section \<open>Base64\<close>

definition std_alphabet :: string where
  "std_alphabet = ''ABCDEFGHIJKLMNOPQRSTUVWXYZabcdefghijklmnopqrstuvwxyz0123456789+/''"

definition url_alphabet :: string where
  "url_alphabet = ''ABCDEFGHIJKLMNOPQRSTUVWXYZabcdefghijklmnopqrstuvwxyz0123456789-_''"

fun index_of :: "char \<Rightarrow> string \<Rightarrow> nat option" where
  "index_of c [] = None"
| "index_of c (x # xs) = (if c = x then Some 0 else map_option Suc (index_of c xs))"

fun b64_encode :: "string \<Rightarrow> bool \<Rightarrow> string \<Rightarrow> string" where
  "b64_encode al pad (a # b # c # s) =
     (let x = of_byte a; y = of_byte b; z = of_byte c in
      al ! (x div 4) # al ! (x mod 4 * 16 + y div 16) # al ! (y mod 16 * 4 + z div 64) # al ! (z mod 64)
      # b64_encode al pad s)"
| "b64_encode al pad [a, b] =
     (let x = of_byte a; y = of_byte b in
      [al ! (x div 4), al ! (x mod 4 * 16 + y div 16), al ! (y mod 16 * 4)]
      @ (if pad then ''='' else []))"
| "b64_encode al pad [a] =
     (let x = of_byte a in [al ! (x div 4), al ! (x mod 4 * 16)] @ (if pad then ''=='' else []))"
| "b64_encode al pad [] = []"

text \<open>
  Go skips carriage returns and line feeds anywhere, does not check the unused trailing bits,
  and takes the padding exactly where the encoding declares one.
\<close>

fun b64_quads :: "string \<Rightarrow> bool \<Rightarrow> string \<Rightarrow> string option" where
  "b64_quads al pad [] = Some []"
| "b64_quads al pad [a] = None"
| "b64_quads al pad [a, b] =
     (if pad then None
      else case (index_of a al, index_of b al) of
        (Some x, Some y) \<Rightarrow> Some [byte_of (x * 4 + y div 16)]
      | _ \<Rightarrow> None)"
| "b64_quads al pad [a, b, c] =
     (if pad then None
      else case (index_of a al, index_of b al, index_of c al) of
        (Some x, Some y, Some z) \<Rightarrow> Some [byte_of (x * 4 + y div 16), byte_of (y mod 16 * 16 + z div 4)]
      | _ \<Rightarrow> None)"
| "b64_quads al pad (a # b # c # d # s) =
     (case (index_of a al, index_of b al, index_of c al, index_of d al) of
        (Some x, Some y, Some z, Some w) \<Rightarrow>
          map_option (\<lambda>r. byte_of (x * 4 + y div 16) # byte_of (y mod 16 * 16 + z div 4)
                          # byte_of (z mod 4 * 64 + w) # r)
            (b64_quads al pad s)
      | (Some x, Some y, Some z, None) \<Rightarrow>
          if pad \<and> d = CHR ''='' \<and> s = []
          then Some [byte_of (x * 4 + y div 16), byte_of (y mod 16 * 16 + z div 4)] else None
      | (Some x, Some y, None, None) \<Rightarrow>
          if pad \<and> c = CHR ''='' \<and> d = CHR ''='' \<and> s = []
          then Some [byte_of (x * 4 + y div 16)] else None
      | _ \<Rightarrow> None)"

definition b64_decode :: "string \<Rightarrow> bool \<Rightarrow> string \<Rightarrow> string option" where
  "b64_decode al pad s = b64_quads al pad (filter (\<lambda>c. c \<noteq> CHR 0x0A \<and> c \<noteq> CHR 0x0D) s)"

definition StdEncoding_encode :: "string \<Rightarrow> string" where
  "StdEncoding_encode = b64_encode std_alphabet True"

definition StdEncoding_decode :: "string \<Rightarrow> string option" where
  "StdEncoding_decode = b64_decode std_alphabet True"

definition RawURLEncoding_encode :: "string \<Rightarrow> string" where
  "RawURLEncoding_encode = b64_encode url_alphabet False"

definition RawURLEncoding_decode :: "string \<Rightarrow> string option" where
  "RawURLEncoding_decode = b64_decode url_alphabet False"

text \<open>What the two alphabets have in common.\<close>

definition b64_alphabet :: "string \<Rightarrow> bool" where
  "b64_alphabet al \<longleftrightarrow> distinct al \<and> length al = 64 \<and> CHR ''='' \<notin> set al
     \<and> CHR 0x0A \<notin> set al \<and> CHR 0x0D \<notin> set al"

lemma b64_alphabet_std: "b64_alphabet std_alphabet"
  by (simp add: b64_alphabet_def std_alphabet_def)

lemma b64_alphabet_url: "b64_alphabet url_alphabet"
  by (simp add: b64_alphabet_def url_alphabet_def)

lemma index_of_nth: "distinct al \<Longrightarrow> i < length al \<Longrightarrow> index_of (al ! i) al = Some i"
proof (induction al arbitrary: i)
  case (Cons x al)
  then show ?case by (cases i) (auto dest: nth_mem)
qed simp

lemma index_of_None: "index_of c al = None \<longleftrightarrow> c \<notin> set al"
  by (induction al) auto

lemma index_of_alphabet [simp]: "b64_alphabet al \<Longrightarrow> i < 64 \<Longrightarrow> index_of (al ! i) al = Some i"
  by (simp add: b64_alphabet_def index_of_nth)

lemma index_of_pad [simp]: "b64_alphabet al \<Longrightarrow> index_of CHR ''='' al = None"
  by (simp add: b64_alphabet_def index_of_None)

lemma b64_bounds [simp]:
  "of_byte a div 4 < 64" "of_byte a mod 4 * 16 + of_byte b div 16 < 64"
  "of_byte a mod 16 * 4 + of_byte b div 64 < 64" "of_byte a mod 4 * 16 < 64" "of_byte a mod 16 * 4 < 64"
proof -
  have a: "of_byte a < 256" and b: "of_byte b < 256" by simp_all
  then show "of_byte a div 4 < 64" by linarith
  have "of_byte b div 16 < 16" "of_byte b div 64 < 4" using b by linarith+
  moreover have "of_byte a mod 4 < 4" "of_byte a mod 16 < 16" by simp_all
  ultimately show "of_byte a mod 4 * 16 + of_byte b div 16 < 64"
    "of_byte a mod 16 * 4 + of_byte b div 64 < 64" "of_byte a mod 4 * 16 < 64"
    "of_byte a mod 16 * 4 < 64"
    by linarith+
qed

lemma b64_regroup [simp]:
  "of_byte b div 16 div 16 = 0" "of_byte b div 16 mod 16 = of_byte b div 16"
  "of_byte c div 64 div 4 = 0" "of_byte c div 64 mod 4 = of_byte c div 64"
proof -
  have "of_byte b div 16 < 16" "of_byte c div 64 < 4"
    using of_byte_less [of b] of_byte_less [of c] by linarith+
  then show "of_byte b div 16 div 16 = 0" "of_byte b div 16 mod 16 = of_byte b div 16"
    "of_byte c div 64 div 4 = 0" "of_byte c div 64 mod 4 = of_byte c div 64"
    by simp_all
qed

lemma b64_quads_encode:
  assumes "b64_alphabet al"
  shows "b64_quads al pad (b64_encode al pad s) = Some s"
  using assms
proof (induction al pad s rule: b64_encode.induct)
  case (1 al pad a b c s)
  then show ?case
    by (simp add: Let_def)
next
  case (2 al pad a b)
  then show ?case
    by (simp add: Let_def)
next
  case (3 al pad a)
  then show ?case
    by (simp add: Let_def)
qed simp

lemma b64_encode_set:
  assumes "b64_alphabet al"
  shows "set (b64_encode al pad s) \<subseteq> set al \<union> (if pad then {CHR ''=''} else {})"
  using assms
  by (induction al pad s rule: b64_encode.induct) (auto simp: Let_def b64_alphabet_def)

lemma b64_decode_encode:
  assumes "b64_alphabet al"
  shows "b64_decode al pad (b64_encode al pad s) = Some s"
proof -
  have "filter (\<lambda>c. c \<noteq> CHR 0x0A \<and> c \<noteq> CHR 0x0D) (b64_encode al pad s) = b64_encode al pad s"
    using b64_encode_set [OF assms, of pad s] assms
    by (auto simp: filter_id_conv b64_alphabet_def split: if_splits)
  with assms show ?thesis by (simp add: b64_decode_def b64_quads_encode)
qed

interpretation b64std: codec StdEncoding_encode StdEncoding_decode
  by unfold_locales
    (simp add: StdEncoding_encode_def StdEncoding_decode_def b64_decode_encode b64_alphabet_std)

interpretation b64url: codec RawURLEncoding_encode RawURLEncoding_decode
  by unfold_locales
    (simp add: RawURLEncoding_encode_def RawURLEncoding_decode_def b64_decode_encode b64_alphabet_url)

section \<open>URL query escaping\<close>

definition unreserved :: "char \<Rightarrow> bool" where
  "unreserved c \<longleftrightarrow>
     (let n = of_byte c in 97 \<le> n \<and> n < 123 \<or> 65 \<le> n \<and> n < 91 \<or> 48 \<le> n \<and> n < 58)
     \<or> c \<in> set ''-_.~''"

definition percent :: "char \<Rightarrow> string" where
  "percent c = [CHR ''%'', upper_hex_digit (of_byte c div 16), upper_hex_digit (of_byte c mod 16)]"

definition QueryEscape :: "string \<Rightarrow> string" where
  "QueryEscape s = concat (map (\<lambda>c. if unreserved c then [c] else if c = CHR '' '' then ''+'' else percent c) s)"

fun QueryUnescape :: "string \<Rightarrow> string option" where
  "QueryUnescape [] = Some []"
| "QueryUnescape (c # s) =
     (if c = CHR ''%'' then
        (case s of
           a # b # r \<Rightarrow>
             (case (hex_val a, hex_val b) of
                (Some x, Some y) \<Rightarrow> map_option ((#) (byte_of (16 * x + y))) (QueryUnescape r)
              | _ \<Rightarrow> None)
         | _ \<Rightarrow> None)
      else map_option ((#) (if c = CHR ''+'' then CHR '' '' else c)) (QueryUnescape s))"

lemma unreserved_not_special [simp]: "\<not> unreserved CHR ''%''" "\<not> unreserved CHR ''+''"
  by (simp_all add: unreserved_def Let_def)

lemma QueryUnescape_percent [simp]:
  "QueryUnescape (percent c @ s) = map_option ((#) c) (QueryUnescape s)"
  by (simp add: percent_def)

lemma QueryUnescape_plain [simp]:
  "unreserved c \<Longrightarrow> QueryUnescape (c # s) = map_option ((#) c) (QueryUnescape s)"
  by (cases "c = CHR ''%'' \<or> c = CHR ''+''") auto

lemma QueryUnescape_escape: "QueryUnescape (QueryEscape s) = Some s"
proof (induction s)
  case (Cons c s)
  have "QueryEscape (c # s) =
      (if unreserved c then [c] else if c = CHR '' '' then ''+'' else percent c) @ QueryEscape s"
    by (simp add: QueryEscape_def)
  with Cons show ?case by simp
qed (simp add: QueryEscape_def)

interpretation qesc: codec QueryEscape QueryUnescape
  by unfold_locales (rule QueryUnescape_escape)

lemma percent_chars: "x \<in> set (percent c) \<Longrightarrow> x = CHR ''%'' \<or> unreserved x"
proof -
  have "unreserved (upper_hex_digit d)" if "d < 16" for d
    using that by (auto simp: unreserved_def upper_hex_digit_def Let_def)
  then show "x \<in> set (percent c) \<Longrightarrow> x = CHR ''%'' \<or> unreserved x"
    by (auto simp: percent_def)
qed

text \<open>\<open>url.Values.Encode\<close>: the keys in byte order, each value as \<open>key=value\<close>, joined by \<open>&\<close>.\<close>

definition Values_Encode :: "(string, string list) go_map \<Rightarrow> string" where
  "Values_Encode vs =
     Join (concat (map (\<lambda>k. map (\<lambda>v. QueryEscape k @ ''='' @ QueryEscape v) (the (map_of vs k)))
       (sort (map fst vs)))) ''&''"

end
