(* ===== verification/Github_Types.thy ===== *)
theory Github_Types
  imports Go_Errors Go_Encoding
begin

text \<open>
  Package \<open>github\<close>, the value types and pure helpers: \<open>errors.go\<close> (codes, classes, \<open>IsCode\<close>),
  \<open>types.go\<close> (permissions, their hand-written sort and cache identity, tokens) and \<open>jwt.go\<close>
  (key parsing and the App JWT).

  RSA keys, PEM and X.509 are the record \<open>rsa_lib\<close> of functions, a parameter. An error's text
  is the source's format string, its arguments not expanded. A Go map with string keys is an
  association list with distinct keys, its order the (arbitrary) iteration order.
\<close>

section \<open>errors.go\<close>

datatype gh_code =
    CodeInvalidConfig | CodeInvalidPrivateKey | CodeUnknownInstallation | CodeInvalidPermissions
  | CodeTransportUnavailable | CodeRateLimited | CodeCallBudgetExhausted | CodeDuplicateRead
  | CodeUnexpectedResponse

datatype gh_class = ConfigurationClass | TransportClass

fun gh_Class :: "gh_code \<Rightarrow> gh_class" where
  "gh_Class CodeInvalidConfig = ConfigurationClass"
| "gh_Class CodeInvalidPrivateKey = ConfigurationClass"
| "gh_Class CodeUnknownInstallation = ConfigurationClass"
| "gh_Class CodeInvalidPermissions = ConfigurationClass"
| "gh_Class _ = TransportClass"

type_synonym gh_error = "gh_code go_error"

definition gh_errorf :: "gh_code \<Rightarrow> string \<Rightarrow> gh_error" where
  "gh_errorf c format = coded c format"

definition gh_IsCode :: "gh_error option \<Rightarrow> gh_code \<Rightarrow> bool" where
  "gh_IsCode err k = (case err of None \<Rightarrow> False | Some e \<Rightarrow> chain_has_code e k)"

interpretation gh_err: coded_errors gh_errorf gh_IsCode
  by unfold_locales (simp_all add: gh_IsCode_def gh_errorf_def coded_def)

lemma gh_IsCode_errorf [simp]: "gh_IsCode (Some (gh_errorf c m)) k \<longleftrightarrow> c = k"
  by (rule gh_err.is_code_mk)

section \<open>types.go: permissions\<close>

type_synonym permissions = "(string, string) go_map"

text \<open>\<open>sortStrings\<close>: the two nested loops over the slice, with element swaps.\<close>

fun sift :: "string list \<Rightarrow> nat \<Rightarrow> string list" where
  "sift s 0 = s"
| "sift s (Suc j) = (if s ! j > s ! Suc j then sift (s[j := s ! Suc j, Suc j := s ! j]) j else s)"

fun sort_from :: "string list \<Rightarrow> nat \<Rightarrow> nat \<Rightarrow> string list" where
  "sort_from s i 0 = s"
| "sort_from s i (Suc n) = sort_from (sift s i) (Suc i) n"

definition sortStrings :: "string list \<Rightarrow> string list" where
  "sortStrings s = sort_from s 1 (length s - 1)"

text \<open>\<open>Permissions.key\<close>: \<open>k=v;\<close> for every permission, in key order.\<close>

definition permissions_key :: "permissions \<Rightarrow> string" where
  "permissions_key p =
     (if p = [] then []
      else foldl (\<lambda>out k. out @ k @ ''='' @ the (map_of p k) @ '';'') [] (sortStrings (map fst p)))"

definition permissions_clone :: "permissions \<Rightarrow> permissions" where
  "permissions_clone p = p"

section \<open>types.go: tokens\<close>

record gh_token =
  token_value :: string
  Repo :: string
  Permissions :: permissions
  Installation :: int
  MintedAt :: go_time
  ExpiresAt :: go_time

definition token_Expired :: "gh_token \<Rightarrow> go_time \<Rightarrow> go_duration \<Rightarrow> bool" where
  "token_Expired t now skew \<longleftrightarrow> \<not> now < ExpiresAt t + (- skew)"

definition token_String :: "gh_token \<Rightarrow> string" where
  "token_String t = ''github.Token{REDACTED}''"

section \<open>jwt.go\<close>

record 'k rsa_lib =
  pem_Decode :: "string \<Rightarrow> string option"
  ParsePKCS1 :: "string \<Rightarrow> 'k option"
  ParsePKCS8 :: "string \<Rightarrow> 'k option option"
  SignRS256 :: "'k \<Rightarrow> string \<Rightarrow> string option"

text \<open>\<open>ParsePKCS8\<close> gives \<open>Some None\<close> for a well-formed key that is not an RSA key.\<close>

definition parsePrivateKey :: "'k rsa_lib \<Rightarrow> string \<Rightarrow> gh_error + 'k" where
  "parsePrivateKey lib pemBytes =
     (case pem_Decode lib pemBytes of
        None \<Rightarrow> Inl (gh_errorf CodeInvalidPrivateKey ''no PEM block found'')
      | Some block \<Rightarrow>
          (case ParsePKCS1 lib block of
             Some key \<Rightarrow> Inr key
           | None \<Rightarrow>
               (case ParsePKCS8 lib block of
                  None \<Rightarrow> Inl (gh_errorf CodeInvalidPrivateKey ''not a PKCS#1 or PKCS#8 RSA key: %v'')
                | Some None \<Rightarrow> Inl (gh_errorf CodeInvalidPrivateKey ''PEM block did not contain an RSA key'')
                | Some (Some key) \<Rightarrow> Inr key)))"

definition jwt_header_json :: string where
  "jwt_header_json = ''{\"alg\":\"RS256\",\"typ\":\"JWT\"}''"

text \<open>\<open>t.Unix()\<close>: whole seconds, rounded down.\<close>

definition time_Unix :: "go_time \<Rightarrow> int" where
  "time_Unix t = t div second"

definition jwt_claims_json :: "int \<Rightarrow> go_time \<Rightarrow> string" where
  "jwt_claims_json appID now =
     ''{\"exp\":'' @ show_int (time_Unix (now + 9 * minute)) @
     '',\"iat\":'' @ show_int (time_Unix (now - minute)) @
     '',\"iss\":\"'' @ show_int appID @ ''\"}''"

definition signAppJWT :: "'k rsa_lib \<Rightarrow> int \<Rightarrow> 'k \<Rightarrow> go_time \<Rightarrow> gh_error + string" where
  "signAppJWT lib appID key now =
     (let signingInput = RawURLEncoding_encode jwt_header_json @ ''.'' @
            RawURLEncoding_encode (jwt_claims_json appID now)
      in case SignRS256 lib key signingInput of
           None \<Rightarrow> Inl (gh_errorf CodeInvalidPrivateKey ''sign JWT: %v'')
         | Some signature \<Rightarrow> Inr (signingInput @ ''.'' @ RawURLEncoding_encode signature))"

section \<open>The hand-written sort is a sort\<close>

lemma length_sift [simp]: "length (sift s j) = length s"
  by (induction s j rule: sift.induct) auto

lemma mset_sift: "j < length s \<Longrightarrow> mset (sift s j) = mset s"
proof (induction s j rule: sift.induct)
  case (2 s j)
  then show ?case
    by (auto simp: mset_swap)
qed simp

text \<open>Elements above the sift position are not touched.\<close>

lemma sift_drop: "drop (Suc j) (sift s j) = drop (Suc j) s"
proof (induction s j rule: sift.induct)
  case (2 s j)
  show ?case
  proof (cases "s ! j > s ! Suc j")
    case True
    let ?s' = "s[j := s ! Suc j, Suc j := s ! j]"
    have "drop (Suc (Suc j)) (sift ?s' j) = drop 1 (drop (Suc j) (sift ?s' j))"
      by simp
    also have "\<dots> = drop (Suc (Suc j)) ?s'"
      using 2 True by simp
    finally show ?thesis using True by simp
  qed simp
qed simp

text \<open>
  The sorted prefix of length \<open>Suc j\<close> with its last element sifted down is sorted: as in the
  usual invariant, every pair not involving the moving element is in order.
\<close>

definition sorted_except :: "string list \<Rightarrow> nat \<Rightarrow> nat \<Rightarrow> bool" where
  "sorted_except s m j \<longleftrightarrow>
     (\<forall>a b. a < b \<and> b \<le> m \<and> b \<noteq> j \<longrightarrow> s ! a \<le> s ! b)"

lemma sift_sorted:
  assumes "sorted_except s m j" and "j \<le> m" and "m < length s"
  shows "\<forall>a b. a < b \<and> b \<le> m \<longrightarrow> sift s j ! a \<le> sift s j ! b"
  using assms
proof (induction s j rule: sift.induct)
  case (1 s)
  then show ?case by (auto simp: sorted_except_def)
next
  case (2 s j)
  show ?case
  proof (cases "s ! j > s ! Suc j")
    case True
    let ?s' = "s[j := s ! Suc j, Suc j := s ! j]"
    have len: "Suc j < length s" using 2 by simp
    have se: "\<And>a b. a < b \<Longrightarrow> b \<le> m \<Longrightarrow> b \<noteq> Suc j \<Longrightarrow> s ! a \<le> s ! b"
      using 2 by (auto simp: sorted_except_def)
    have "sorted_except ?s' m j"
      unfolding sorted_except_def
    proof (intro allI impI)
      fix a b assume ab: "a < b \<and> b \<le> m \<and> b \<noteq> j"
      show "?s' ! a \<le> ?s' ! b"
        using ab len se [of a b] se [of a j] se [of j b] se [of "Suc j" b] True "2.prems"
        by (cases "b = Suc j"; cases "a = j"; cases "a = Suc j") (auto simp: nth_list_update)
    qed
    with 2 True show ?thesis by simp
  next
    case False
    have "s ! a \<le> s ! b" if "a < b" "b \<le> m" for a b
    proof (cases "b = Suc j")
      case True
      have "s ! a \<le> s ! j"
        using that True "2.prems" by (cases "a = j") (auto simp: sorted_except_def)
      with False True show ?thesis by auto
    qed (use that "2.prems" in \<open>auto simp: sorted_except_def\<close>)
    with False show ?thesis by simp
  qed
qed

lemma sort_from_mset: "i + n \<le> length s \<Longrightarrow> mset (sort_from s i n) = mset s"
proof (induction s i n rule: sort_from.induct)
  case (2 s i n)
  then show ?case by (simp add: mset_sift)
qed simp

lemma length_sort_from [simp]: "length (sort_from s i n) = length s"
  by (induction s i n rule: sort_from.induct) simp_all

lemma sort_from_sorted:
  assumes "\<forall>a b. a < b \<and> b < i \<longrightarrow> s ! a \<le> s ! b" and "i + n = length s"
  shows "sorted (sort_from s i n)"
  using assms
proof (induction s i n rule: sort_from.induct)
  case (1 s i)
  then show ?case by (auto simp: sorted_iff_nth_mono_less)
next
  case (2 s i n)
  have "\<forall>a b. a < b \<and> b \<le> i \<longrightarrow> sift s i ! a \<le> sift s i ! b"
    by (rule sift_sorted) (use 2 in \<open>auto simp: sorted_except_def\<close>)
  with 2 show ?case by (auto simp: less_Suc_eq_le)
qed

lemma sortStrings_sort: "sortStrings s = sort s"
proof -
  have "sorted (sortStrings s)"
    unfolding sortStrings_def by (cases s) (auto intro!: sort_from_sorted)
  moreover have "mset (sortStrings s) = mset s"
    unfolding sortStrings_def by (cases s) (simp_all add: sort_from_mset)
  ultimately show ?thesis
    by (metis properties_for_sort)
qed

section \<open>The cache identity of a permission set\<close>

definition perm_entry :: "permissions \<Rightarrow> string \<Rightarrow> string" where
  "perm_entry p k = k @ ''='' @ the (map_of p k) @ '';''"

lemma perm_entry_eq: "perm_entry p = (\<lambda>k. k @ CHR ''='' # the (map_of p k) @ '';'')"
  by (rule ext) (simp add: perm_entry_def)

lemma permissions_key_concat:
  "permissions_key p = concat (map (perm_entry p) (sort (map fst p)))"
proof -
  have "foldl (\<lambda>out k. out @ k @ ''='' @ the (map_of p k) @ '';'') acc ks
      = acc @ concat (map (perm_entry p) ks)" for acc ks
    by (induction ks arbitrary: acc) (simp_all add: perm_entry_def)
  then show ?thesis by (simp add: permissions_key_def sortStrings_sort)
qed

text \<open>A permission name or value without the two separators.\<close>

definition plain_permissions :: "permissions \<Rightarrow> bool" where
  "plain_permissions p \<longleftrightarrow> distinct (map fst p) \<and>
     (\<forall>(k, v) \<in> set p. CHR ''='' \<notin> set k \<and> CHR '';'' \<notin> set v)"

lemma concat_entries_inject:
  assumes "\<forall>k \<in> set ks. CHR ''='' \<notin> set k \<and> CHR '';'' \<notin> set (f k)"
    and "\<forall>k \<in> set ks'. CHR ''='' \<notin> set k \<and> CHR '';'' \<notin> set (g k)"
    and "concat (map (\<lambda>k. k @ CHR ''='' # f k @ '';'') ks)
       = concat (map (\<lambda>k. k @ CHR ''='' # g k @ '';'') ks')"
  shows "ks = ks' \<and> (\<forall>k \<in> set ks. f k = g k)"
  using assms
proof (induction ks arbitrary: ks')
  case Nil
  then show ?case by (cases ks') auto
next
  case (Cons k ks)
  obtain k' kr where ks': "ks' = k' # kr" using Cons.prems(3) by (cases ks') auto
  let ?rest = "concat (map (\<lambda>k. k @ CHR ''='' # f k @ '';'') ks)"
  let ?rest' = "concat (map (\<lambda>k. k @ CHR ''='' # g k @ '';'') kr)"
  have "k @ CHR ''='' # (f k @ CHR '';'' # ?rest) = k' @ CHR ''='' # (g k' @ CHR '';'' # ?rest')"
    using Cons.prems(3) ks' by simp
  then have k: "k = k'" and r: "f k @ CHR '';'' # ?rest = g k' @ CHR '';'' # ?rest'"
    using Cons.prems(1,2) ks' append_sep_eq_iff [of "CHR ''=''" k k'] by auto
  have "f k = g k'" and "?rest = ?rest'"
    using r Cons.prems(1,2) ks' append_sep_eq_iff [of "CHR '';''" "f k" "g k'"] by auto
  moreover have "ks = kr \<and> (\<forall>k \<in> set ks. f k = g k)"
    using Cons.prems \<open>?rest = ?rest'\<close> ks' by (intro Cons.IH) auto
  ultimately show ?case using k ks' by simp
qed

lemma permissions_key_inject:
  assumes "plain_permissions p" and "plain_permissions q" and "permissions_key p = permissions_key q"
  shows "map_of p = map_of q"
proof -
  have plain: "\<forall>k \<in> set (sort (map fst r)). CHR ''='' \<notin> set k \<and> CHR '';'' \<notin> set (the (map_of r k))"
    if "plain_permissions r" for r
    using that by (auto simp: plain_permissions_def)
  have "concat (map (\<lambda>k. k @ CHR ''='' # the (map_of p k) @ '';'') (sort (map fst p)))
      = concat (map (\<lambda>k. k @ CHR ''='' # the (map_of q k) @ '';'') (sort (map fst q)))"
    using assms(3) by (simp add: permissions_key_concat perm_entry_eq)
  from concat_entries_inject [OF plain [OF assms(1)] plain [OF assms(2)] this]
  have keys: "sort (map fst p) = sort (map fst q)"
    and vals: "\<forall>k \<in> set (map fst p). the (map_of p k) = the (map_of q k)"
    by auto
  have dom: "fst ` set p = fst ` set q"
    by (metis keys list.set_map set_sort)
  show ?thesis
  proof
    fix k
    show "map_of p k = map_of q k"
    proof (cases "k \<in> fst ` set p")
      case True
      then obtain v w where "map_of p k = Some v" "map_of q k = Some w"
        using dom by (metis map_of_eq_None_iff not_None_eq)
      with True vals show ?thesis by force
    next
      case False
      with dom show ?thesis by (metis map_of_eq_None_iff)
    qed
  qed
qed

lemma permissions_key_order:
  assumes "distinct (map fst p)" and "distinct (map fst q)" and "map_of p = map_of q"
  shows "permissions_key p = permissions_key q"
proof -
  have "set (map fst p) = set (map fst q)"
    using assms(3) by (metis dom_map_of_conv_image_fst list.set_map)
  then have "sort (map fst p) = sort (map fst q)"
    using assms(1,2) by (metis sorted_list_of_set_sort_remdups distinct_remdups_id)
  with assms(3) show ?thesis
    by (simp add: permissions_key_concat perm_entry_eq)
qed

end
