(* ===== verification/Go_Json.thy ===== *)
theory Go_Json
  imports Go_Encoding
begin

text \<open>
  The part of \<open>encoding/json\<close> the sources use, on byte strings: the UTF-8 rules, the encoder of
  strings (which escapes \<open><\<close>, \<open>>\<close>, \<open>&\<close>, the control characters and U+2028/U+2029, and replaces
  bytes that are not UTF-8 by U+FFFD), the compact encoder of values and the parser. A number
  keeps its literal, as \<open>json.Number\<close> does; an object keeps its members in order, duplicates
  included. The nesting limit of 10000 is not modelled.
\<close>

section \<open>UTF-8\<close>

definition cont_byte :: "char \<Rightarrow> bool" where
  "cont_byte c \<longleftrightarrow> of_byte c div 64 = 2"

text \<open>The width of the rune a string starts with: 0 when it is empty or does not start with one.\<close>

definition second_ok :: "nat \<Rightarrow> nat \<Rightarrow> bool" where
  "second_ok a b \<longleftrightarrow>
     (if a = 0xE0 then 0xA0 \<le> b \<and> b \<le> 0xBF
      else if a = 0xED then 0x80 \<le> b \<and> b \<le> 0x9F
      else if a = 0xF0 then 0x90 \<le> b \<and> b \<le> 0xBF
      else if a = 0xF4 then 0x80 \<le> b \<and> b \<le> 0x8F
      else 0x80 \<le> b \<and> b \<le> 0xBF)"

definition rune_width :: "string \<Rightarrow> nat" where
  "rune_width s =
     (case s of
        [] \<Rightarrow> 0
      | c # r \<Rightarrow>
          (let a = of_byte c in
           if a < 0x80 then 1
           else if 0xC2 \<le> a \<and> a \<le> 0xDF then
             (case r of b # _ \<Rightarrow> if cont_byte b then 2 else 0 | _ \<Rightarrow> 0)
           else if 0xE0 \<le> a \<and> a \<le> 0xEF then
             (case r of b # b' # _ \<Rightarrow> if second_ok a (of_byte b) \<and> cont_byte b' then 3 else 0 | _ \<Rightarrow> 0)
           else if 0xF0 \<le> a \<and> a \<le> 0xF4 then
             (case r of b # b' # b'' # _ \<Rightarrow>
                 if second_ok a (of_byte b) \<and> cont_byte b' \<and> cont_byte b'' then 4 else 0
               | _ \<Rightarrow> 0)
           else 0))"

definition replacement :: string where
  "replacement = [CHR 0xEF, CHR 0xBF, CHR 0xBD]"

text \<open>\<open>utf8.ValidString\<close>, and \<open>strings.ToValidUTF8\<close> rune by rune, as the encoder and the decoder
  of strings do it.\<close>

function valid_utf8 :: "string \<Rightarrow> bool" where
  "valid_utf8 [] = True"
| "valid_utf8 (c # s) = (rune_width (c # s) \<noteq> 0 \<and> valid_utf8 (drop (rune_width (c # s) - 1) s))"
  by pat_completeness auto
termination by (relation "measure length") simp_all

function sanitise :: "string \<Rightarrow> string" where
  "sanitise [] = []"
| "sanitise (c # s) =
     (if rune_width (c # s) = 0 then replacement @ sanitise s
      else c # take (rune_width (c # s) - 1) s @ sanitise (drop (rune_width (c # s) - 1) s))"
  by pat_completeness auto
termination by (relation "measure length") simp_all

section \<open>Encoding\<close>

definition hex4 :: "nat \<Rightarrow> string" where
  "hex4 n = map (\<lambda>i. lower_hex_digit (n div 16 ^ i mod 16)) [3, 2, 1, 0]"

definition u_escape :: "nat \<Rightarrow> string" where
  "u_escape n = CHR 0x5C # CHR ''u'' # hex4 n"

text \<open>The encoding of a byte below 0x80.\<close>

definition esc_ascii :: "char \<Rightarrow> string" where
  "esc_ascii c =
     (if c = CHR 0x22 \<or> c = CHR 0x5C then [CHR 0x5C, c]
      else if c = CHR 0x08 then [CHR 0x5C, CHR ''b'']
      else if c = CHR 0x0C then [CHR 0x5C, CHR ''f'']
      else if c = CHR 0x0A then [CHR 0x5C, CHR ''n'']
      else if c = CHR 0x0D then [CHR 0x5C, CHR ''r'']
      else if c = CHR 0x09 then [CHR 0x5C, CHR ''t'']
      else if of_byte c < 0x20 \<or> c \<in> {CHR ''<'', CHR ''>'', CHR ''&''} then u_escape (of_byte c)
      else [c])"

definition line_separator :: "string \<Rightarrow> bool" where
  "line_separator s \<longleftrightarrow> take 2 s = [CHR 0xE2, CHR 0x80] \<and> take 1 (drop 2 s) \<in> {[CHR 0xA8], [CHR 0xA9]}"

function esc :: "string \<Rightarrow> string" where
  "esc [] = []"
| "esc (c # s) =
     (if of_byte c < (0x80 :: nat) then esc_ascii c @ esc s
      else if rune_width (c # s) = 0 then u_escape 0xFFFD @ esc s
      else if line_separator (c # s) then u_escape (0x2000 + of_byte (s ! 1) mod 64) @ esc (drop 2 s)
      else c # take (rune_width (c # s) - 1) s @ esc (drop (rune_width (c # s) - 1) s))"
  by pat_completeness auto
termination by (relation "measure length") simp_all

definition json_string :: "string \<Rightarrow> string" where
  "json_string s = CHR 0x22 # esc s @ [CHR 0x22]"

datatype json =
    JNull
  | JBool bool
  | JNum string
  | JStr string
  | JArr "json list"
  | JObj "(string \<times> json) list"

text \<open>\<open>json.Marshal\<close> of a value; a Go map is an object whose members were sorted by key.\<close>

fun print_json :: "json \<Rightarrow> string"
  and print_elems :: "json list \<Rightarrow> string"
  and print_members :: "(string \<times> json) list \<Rightarrow> string" where
  "print_json JNull = ''null''"
| "print_json (JBool b) = (if b then ''true'' else ''false'')"
| "print_json (JNum l) = l"
| "print_json (JStr s) = json_string s"
| "print_json (JArr js) = CHR ''['' # print_elems js @ '']''"
| "print_json (JObj ms) = CHR ''{'' # print_members ms @ ''}''"
| "print_elems [] = []"
| "print_elems (j # js) = print_json j @ (case js of [] \<Rightarrow> [] | _ \<Rightarrow> CHR '','' # print_elems js)"
| "print_members [] = []"
| "print_members (m # ms) =
     json_string (fst m) @ CHR '':'' # print_json (snd m)
       @ (case ms of [] \<Rightarrow> [] | _ \<Rightarrow> CHR '','' # print_members ms)"

definition json_map :: "(string \<times> json) list \<Rightarrow> json" where
  "json_map ms = JObj (sort_key fst ms)"

section \<open>Parsing\<close>

definition json_space :: "char \<Rightarrow> bool" where
  "json_space c \<longleftrightarrow> c \<in> {CHR '' '', CHR 0x09, CHR 0x0A, CHR 0x0D}"

definition skip_ws :: "string \<Rightarrow> string" where
  "skip_ws s = dropWhile json_space s"

fun hex4_val :: "string \<Rightarrow> (nat \<times> string) option" where
  "hex4_val (a # b # c # d # s) =
     (case (hex_val a, hex_val b, hex_val c, hex_val d) of
        (Some x, Some y, Some z, Some w) \<Rightarrow> Some (((x * 16 + y) * 16 + z) * 16 + w, s)
      | _ \<Rightarrow> None)"
| "hex4_val _ = None"

text \<open>\<open>utf8.AppendRune\<close>\<close>

definition encode_rune :: "nat \<Rightarrow> string" where
  "encode_rune r =
     (if r < 0x80 then [byte_of r]
      else if r < 0x800 then [byte_of (0xC0 + r div 64), byte_of (0x80 + r mod 64)]
      else if 0xD800 \<le> r \<and> r \<le> 0xDFFF \<or> 0x10FFFF < r then replacement
      else if r < 0x10000 then
        [byte_of (0xE0 + r div 4096), byte_of (0x80 + r div 64 mod 64), byte_of (0x80 + r mod 64)]
      else [byte_of (0xF0 + r div 262144), byte_of (0x80 + r div 4096 mod 64),
        byte_of (0x80 + r div 64 mod 64), byte_of (0x80 + r mod 64)])"

text \<open>What follows \<open>\u\<close>: one code point, or a surrogate pair written as two escapes; a surrogate
  alone becomes U+FFFD.\<close>

definition unesc_u :: "string \<Rightarrow> (string \<times> string) option" where
  "unesc_u s =
     (case hex4_val s of
        None \<Rightarrow> None
      | Some (r, s1) \<Rightarrow>
          if 0xD800 \<le> r \<and> r \<le> 0xDBFF \<and> take 2 s1 = [CHR 0x5C, CHR ''u''] then
            (case hex4_val (drop 2 s1) of
               Some (r2, s2) \<Rightarrow>
                 if 0xDC00 \<le> r2 \<and> r2 \<le> 0xDFFF
                 then Some (encode_rune ((r - 0xD800) * 1024 + (r2 - 0xDC00) + 0x10000), s2)
                 else Some (replacement, s1)
             | None \<Rightarrow> Some (replacement, s1))
          else Some (encode_rune r, s1))"

lemma hex4_val_length: "hex4_val s = Some (r, t) \<Longrightarrow> length s = length t + 4"
  by (cases s rule: hex4_val.cases) (auto split: option.splits)

lemma unesc_u_length: "unesc_u s = Some (c, t) \<Longrightarrow> length t < length s"
  by (auto simp: unesc_u_def dest!: hex4_val_length split: option.splits if_splits prod.splits)

definition simple_escape :: "char \<Rightarrow> char option" where
  "simple_escape c =
     (if c = CHR 0x22 \<or> c = CHR 0x5C \<or> c = CHR ''/'' then Some c
      else if c = CHR ''b'' then Some (CHR 0x08)
      else if c = CHR ''f'' then Some (CHR 0x0C)
      else if c = CHR ''n'' then Some (CHR 0x0A)
      else if c = CHR ''r'' then Some (CHR 0x0D)
      else if c = CHR ''t'' then Some (CHR 0x09)
      else None)"

text \<open>The contents of a string literal, after its opening quote, and what follows its closing one.\<close>

function unesc :: "string \<Rightarrow> (string \<times> string) option" where
  "unesc [] = None"
| "unesc (c # s) =
     (if c = CHR 0x22 then Some ([], s)
      else if of_byte c < (0x20 :: nat) then None
      else if c = CHR 0x5C then
        (case s of
           [] \<Rightarrow> None
         | e # s' \<Rightarrow>
             if e = CHR ''u'' then
               (case unesc_u s' of
                  None \<Rightarrow> None
                | Some (r, t) \<Rightarrow> map_option (\<lambda>(x, q). (r @ x, q)) (if length t < length (c # s) then unesc t else None))
             else (case simple_escape e of
                  None \<Rightarrow> None
                | Some d \<Rightarrow> map_option (\<lambda>(x, q). (d # x, q)) (unesc s')))
      else if rune_width (c # s) = 0 then map_option (\<lambda>(x, q). (replacement @ x, q)) (unesc s)
      else map_option (\<lambda>(x, q). (c # take (rune_width (c # s) - 1) s @ x, q))
             (unesc (drop (rune_width (c # s) - 1) s)))"
  by pat_completeness auto
termination by (relation "measure length") simp_all

text \<open>A number literal at the start of a string.\<close>

definition scan_digits :: "string \<Rightarrow> string \<times> string" where
  "scan_digits s = (takeWhile is_digit s, dropWhile is_digit s)"

definition scan_int :: "string \<Rightarrow> (string \<times> string) option" where
  "scan_int s =
     (case s of
        [] \<Rightarrow> None
      | c # r \<Rightarrow> if c = CHR ''0'' then Some ([c], r) else if is_digit c then Some (scan_digits s) else None)"

definition scan_frac :: "string \<Rightarrow> (string \<times> string) option" where
  "scan_frac s =
     (case s of
        c # r \<Rightarrow> if c = CHR ''.'' then
            (case scan_digits r of (ds, q) \<Rightarrow> if ds = [] then None else Some (c # ds, q))
          else Some ([], s)
      | [] \<Rightarrow> Some ([], []))"

definition scan_exp :: "string \<Rightarrow> (string \<times> string) option" where
  "scan_exp s =
     (case s of
        c # r \<Rightarrow> if c = CHR ''e'' \<or> c = CHR ''E'' then
            (let sign = (case r of x # _ \<Rightarrow> if x = CHR ''+'' \<or> x = CHR ''-'' then [x] else [] | [] \<Rightarrow> []) in
             case scan_digits (drop (length sign) r) of
               (ds, q) \<Rightarrow> if ds = [] then None else Some (c # sign @ ds, q))
          else Some ([], s)
      | [] \<Rightarrow> Some ([], []))"

definition scan_num :: "string \<Rightarrow> (string \<times> string) option" where
  "scan_num s =
     (let sign = (if take 1 s = ''-'' then ''-'' else []) in
      case scan_int (drop (length sign) s) of
        None \<Rightarrow> None
      | Some (i, r) \<Rightarrow>
          (case scan_frac r of
             None \<Rightarrow> None
           | Some (f, r') \<Rightarrow>
               (case scan_exp r' of
                  None \<Rightarrow> None
                | Some (e, q) \<Rightarrow> Some (sign @ i @ f @ e, q))))"

definition literal :: "string \<Rightarrow> json \<Rightarrow> string \<Rightarrow> (json \<times> string) option" where
  "literal word j s = (if HasPrefix s word then Some (j, drop (length word) s) else None)"

text \<open>Every call but those that start a value consumes a byte, so the length of the input bounds
  the depth of the calls; \<open>parse_json\<close> starts with enough.\<close>

fun parse_value :: "nat \<Rightarrow> string \<Rightarrow> (json \<times> string) option"
  and parse_elems :: "nat \<Rightarrow> string \<Rightarrow> (json list \<times> string) option"
  and parse_members :: "nat \<Rightarrow> string \<Rightarrow> ((string \<times> json) list \<times> string) option" where
  "parse_value 0 s = None"
| "parse_value (Suc n) s =
     (case skip_ws s of
        [] \<Rightarrow> None
      | c # r \<Rightarrow>
          if c = CHR 0x22 then map_option (\<lambda>(x, q). (JStr x, q)) (unesc r)
          else if c = CHR ''['' then
            (if take 1 (skip_ws r) = '']'' then Some (JArr [], drop 1 (skip_ws r))
             else map_option (\<lambda>(js, q). (JArr js, q)) (parse_elems n r))
          else if c = CHR ''{'' then
            (if take 1 (skip_ws r) = ''}'' then Some (JObj [], drop 1 (skip_ws r))
             else map_option (\<lambda>(ms, q). (JObj ms, q)) (parse_members n r))
          else if c = CHR ''n'' then literal ''null'' JNull (c # r)
          else if c = CHR ''t'' then literal ''true'' (JBool True) (c # r)
          else if c = CHR ''f'' then literal ''false'' (JBool False) (c # r)
          else map_option (\<lambda>(l, q). (JNum l, q)) (scan_num (c # r)))"
| "parse_elems 0 s = None"
| "parse_elems (Suc n) s =
     (case parse_value n s of
        None \<Rightarrow> None
      | Some (j, r) \<Rightarrow>
          (case skip_ws r of
             [] \<Rightarrow> None
           | c # q \<Rightarrow>
               if c = CHR '','' then map_option (\<lambda>(js, t). (j # js, t)) (parse_elems n q)
               else if c = CHR '']'' then Some ([j], q)
               else None))"
| "parse_members 0 s = None"
| "parse_members (Suc n) s =
     (case skip_ws s of
        [] \<Rightarrow> None
      | c # r \<Rightarrow>
          if c \<noteq> CHR 0x22 then None
          else (case unesc r of
             None \<Rightarrow> None
           | Some (k, r1) \<Rightarrow>
               if take 1 (skip_ws r1) \<noteq> '':'' then None
               else (case parse_value n (drop 1 (skip_ws r1)) of
                  None \<Rightarrow> None
                | Some (j, r2) \<Rightarrow>
                    (case skip_ws r2 of
                       [] \<Rightarrow> None
                     | c' # q \<Rightarrow>
                         if c' = CHR '','' then map_option (\<lambda>(ms, t). ((k, j) # ms, t)) (parse_members n q)
                         else if c' = CHR ''}'' then Some ([(k, j)], q)
                         else None))))"

definition parse_json :: "string \<Rightarrow> (json \<times> string) option" where
  "parse_json s = parse_value (2 * length s + 2) s"

text \<open>The one value of a document: \<open>json.Unmarshal\<close>'s syntax check, \<open>json.Valid\<close>.\<close>

definition parse_doc :: "string \<Rightarrow> json option" where
  "parse_doc s = (case parse_json s of
     Some (j, r) \<Rightarrow> if skip_ws r = [] then Some j else None
   | None \<Rightarrow> None)"

definition json_Valid :: "string \<Rightarrow> bool" where
  "json_Valid s \<longleftrightarrow> parse_doc s \<noteq> None"

section \<open>Decoding into structs\<close>

text \<open>
  \<open>json.Unmarshal\<close> into a struct: a setter takes a parsed value and the target so far and gives
  the new target and whether the value had the right type; a wrong type is reported at the end,
  and decoding goes on. A member goes to the field of its exact name or else of its name up to
  case folding (to which U+017F and U+212A belong); unknown members are skipped, or an error
  with \<open>DisallowUnknownFields\<close>; \<open>null\<close> leaves a scalar as it is.
\<close>

type_synonym 'a setter = "json \<Rightarrow> 'a \<Rightarrow> 'a \<times> bool"

fun fold_key :: "string \<Rightarrow> string" where
  "fold_key [] = []"
| "fold_key (c # s) =
     (if c = CHR 0xC5 \<and> take 1 s = [CHR 0xBF] then CHR ''s'' # fold_key (drop 1 s)
      else if c = CHR 0xE2 \<and> take 2 s = [CHR 0x84, CHR 0xAA] then CHR ''k'' # fold_key (drop 2 s)
      else lower_char c # fold_key s)"

definition lookup_field :: "(string \<times> 'b) list \<Rightarrow> string \<Rightarrow> 'b option" where
  "lookup_field fields k =
     (case map_of fields k of
        Some f \<Rightarrow> Some f
      | None \<Rightarrow> map_option snd (find (\<lambda>(n, f). fold_key n = fold_key k) fields))"

fun set_members :: "bool \<Rightarrow> (string \<times> 'a setter) list \<Rightarrow> (string \<times> json) list \<Rightarrow> 'a \<Rightarrow> 'a \<times> bool" where
  "set_members strict fields [] x = (x, True)"
| "set_members strict fields ((k, v) # ms) x =
     (case lookup_field fields k of
        None \<Rightarrow> (case set_members strict fields ms x of (y, ok) \<Rightarrow> (y, ok \<and> \<not> strict))
      | Some f \<Rightarrow>
          (case f v x of (y, ok) \<Rightarrow>
            (case set_members strict fields ms y of (z, ok') \<Rightarrow> (z, ok \<and> ok'))))"

definition set_struct :: "bool \<Rightarrow> (string \<times> 'a setter) list \<Rightarrow> 'a setter" where
  "set_struct strict fields j x =
     (case j of JNull \<Rightarrow> (x, True) | JObj ms \<Rightarrow> set_members strict fields ms x | _ \<Rightarrow> (x, False))"

definition set_string :: "(string \<Rightarrow> 'a \<Rightarrow> 'a) \<Rightarrow> 'a setter" where
  "set_string upd j x = (case j of JNull \<Rightarrow> (x, True) | JStr s \<Rightarrow> (upd s x, True) | _ \<Rightarrow> (x, False))"

definition set_int64 :: "(int \<Rightarrow> 'a \<Rightarrow> 'a) \<Rightarrow> 'a setter" where
  "set_int64 upd j x =
     (case j of
        JNull \<Rightarrow> (x, True)
      | JNum l \<Rightarrow> (case ParseInt64 l of Some i \<Rightarrow> (upd i x, True) | None \<Rightarrow> (x, False))
      | _ \<Rightarrow> (x, False))"

definition set_bool :: "(bool \<Rightarrow> 'a \<Rightarrow> 'a) \<Rightarrow> 'a setter" where
  "set_bool upd j x = (case j of JNull \<Rightarrow> (x, True) | JBool b \<Rightarrow> (upd b x, True) | _ \<Rightarrow> (x, False))"

text \<open>A \<open>json.RawMessage\<close> keeps the value whatever it is.\<close>

definition set_raw :: "(json \<Rightarrow> 'a \<Rightarrow> 'a) \<Rightarrow> 'a setter" where
  "set_raw upd j x = (upd j x, True)"

text \<open>A slice: \<open>null\<close> empties it; its elements are decoded from the zero value.\<close>

definition set_slice :: "'b setter \<Rightarrow> 'b \<Rightarrow> ('b list \<Rightarrow> 'a \<Rightarrow> 'a) \<Rightarrow> 'a setter" where
  "set_slice f zero upd j x =
     (case j of
        JNull \<Rightarrow> (upd [] x, True)
      | JArr js \<Rightarrow> (upd (map (\<lambda>v. fst (f v zero)) js) x, list_all (\<lambda>v. snd (f v zero)) js)
      | _ \<Rightarrow> (x, False))"

definition set_strings :: "(string list \<Rightarrow> 'a \<Rightarrow> 'a) \<Rightarrow> 'a setter" where
  "set_strings upd = set_slice (set_string (\<lambda>v _. v)) [] upd"

text \<open>A pointer: \<open>null\<close> clears it, another value is decoded into what it points to.\<close>

definition set_pointer :: "'b setter \<Rightarrow> 'b \<Rightarrow> ('a \<Rightarrow> 'b option) \<Rightarrow> ('b option \<Rightarrow> 'a \<Rightarrow> 'a) \<Rightarrow> 'a setter" where
  "set_pointer f zero get upd j x =
     (if j = JNull then (upd None x, True)
      else (case f j (case get x of None \<Rightarrow> zero | Some y \<Rightarrow> y) of (y, ok) \<Rightarrow> (upd (Some y) x, ok)))"

definition Unmarshal_into :: "'a setter \<Rightarrow> string \<Rightarrow> 'a \<Rightarrow> 'a \<times> bool" where
  "Unmarshal_into f s x = (case parse_doc s of None \<Rightarrow> (x, False) | Some j \<Rightarrow> f j x)"

text \<open>\<open>json.NewDecoder(r).Decode\<close>: the first value, whatever follows it.\<close>

definition Decode_into :: "'a setter \<Rightarrow> string \<Rightarrow> 'a \<Rightarrow> 'a \<times> bool" where
  "Decode_into f s x = (case parse_json s of None \<Rightarrow> (x, False) | Some (j, rest) \<Rightarrow> f j x)"

section \<open>Compaction\<close>

text \<open>What \<open>json.Marshal\<close> writes for a valid \<open>json.RawMessage\<close>: white space outside the strings
  dropped, and \<open><\<close>, \<open>>\<close>, \<open>&\<close>, U+2028 and U+2029 escaped.\<close>

fun compact :: "bool \<Rightarrow> string \<Rightarrow> string" where
  "compact inside [] = []"
| "compact inside (c # s) =
     (if \<not> inside then
        (if json_space c then compact False s else c # compact (c = CHR 0x22) s)
      else if c = CHR 0x5C then
        (case s of [] \<Rightarrow> [c] | e # s' \<Rightarrow> c # e # compact True s')
      else if c \<in> {CHR ''<'', CHR ''>'', CHR ''&''} then u_escape (of_byte c) @ compact True s
      else if line_separator (c # s) then u_escape (0x2000 + of_byte (s ! 1) mod 64) @ compact True (drop 2 s)
      else c # compact (c \<noteq> CHR 0x22) s)"

definition compact_raw :: "string \<Rightarrow> string" where
  "compact_raw s = compact False s"

section \<open>Strings come back as their UTF-8 reading\<close>

lemma rune_width_ascii [simp]: "of_byte c < (0x80 :: nat) \<Longrightarrow> rune_width (c # s) = 1"
  by (simp add: rune_width_def Let_def)

lemma rune_width_take:
  "rune_width (c # s) = w \<Longrightarrow> w \<noteq> 0 \<Longrightarrow> rune_width (c # take (w - 1) s @ t) = w \<and> w - 1 \<le> length s"
  by (cases s rule: remdups_adj.cases)
    (auto simp: rune_width_def Let_def take_Cons' split: if_splits list.splits)

lemma hex_val_hex4: "i < 16 \<Longrightarrow> hex_val (lower_hex_digit i) = Some i"
  by (rule hex_val_lower)

lemma hex4_digits:
  fixes n :: nat
  shows "((n div 4096 * 16 + n div 256 mod 16) * 16 + n div 16 mod 16) * 16 + n mod 16 = n"
proof -
  have "n div 4096 * 16 + n div 256 mod 16 = n div 256"
    using div_mult_mod_eq [of "n div 256" 16] by (simp add: div_mult2_eq [symmetric])
  moreover have "n div 256 * 16 + n div 16 mod 16 = n div 16"
    using div_mult_mod_eq [of "n div 16" 16] by (simp add: div_mult2_eq [symmetric])
  ultimately show ?thesis by simp
qed

lemma hex4_val_hex4:
  assumes "n < 0x10000"
  shows "hex4_val (hex4 n @ s) = Some (n, s)"
proof -
  have "n div 4096 mod 16 = n div 4096" "n div 4096 < 16" using assms by simp_all
  with hex4_digits [of n] show ?thesis by (simp add: hex4_def)
qed

lemma byte_simps [simp]: "byte_of 239 = CHR 0xEF" "byte_of 191 = CHR 0xBF" "byte_of 189 = CHR 0xBD"
  "byte_of 226 = CHR 0xE2" "byte_of 128 = CHR 0x80" "byte_of 168 = CHR 0xA8" "byte_of 169 = CHR 0xA9"
  by code_simp+

lemma unesc_u_hex4:
  "n < 0xD800 \<or> 0xDFFF < n \<Longrightarrow> n < 0x10000 \<Longrightarrow> unesc_u (hex4 n @ s) = Some (encode_rune n, s)"
  by (auto simp: unesc_u_def hex4_val_hex4)

lemma unesc_u_escape:
  assumes "n < 0xD800 \<or> 0xDFFF < n" and "n < 0x10000"
  shows "unesc (u_escape n @ s) = map_option (\<lambda>(x, q). (encode_rune n @ x, q)) (unesc s)"
proof -
  have "unesc_u (hex4 n @ s) = Some (encode_rune n, s)" by (rule unesc_u_hex4 [OF assms])
  then show ?thesis by (simp add: u_escape_def)
qed

lemma unesc_esc_ascii:
  assumes "of_byte c < (0x80 :: nat)"
  shows "unesc (esc_ascii c @ s) = map_option (\<lambda>(x, q). (c # x, q)) (unesc s)"
proof (cases "c \<in> {CHR 0x22, CHR 0x5C, CHR 0x08, CHR 0x0C, CHR 0x0A, CHR 0x0D, CHR 0x09}")
  case True
  then show ?thesis by (auto simp: esc_ascii_def simple_escape_def)
next
  case no: False
  show ?thesis
  proof (cases "of_byte c < (0x20 :: nat) \<or> c \<in> {CHR ''<'', CHR ''>'', CHR ''&''}")
    case True
    with no have "esc_ascii c = u_escape (of_byte c)" by (auto simp: esc_ascii_def)
    moreover from assms have "encode_rune (of_byte c) = [c]" by (simp add: encode_rune_def)
    ultimately show ?thesis using assms by (simp add: unesc_u_escape)
  next
    case False
    with no have "esc_ascii c = [c]" by (auto simp: esc_ascii_def)
    with no False assms show ?thesis by simp
  qed
qed

lemma unesc_esc: "unesc (esc s @ CHR 0x22 # t) = Some (sanitise s, t)"
proof (induction s rule: esc.induct)
  case (2 c s)
  show ?case
  proof (cases "of_byte c < (0x80 :: nat)")
    case True
    with 2 show ?thesis by (simp add: unesc_esc_ascii)
  next
    case high: False
    then have c: "c \<noteq> CHR 0x22" "c \<noteq> CHR 0x5C" "\<not> of_byte c < (0x20 :: nat)" by auto
    let ?w = "rune_width (c # s)"
    show ?thesis
    proof (cases "?w = 0")
      case True
      with 2 high show ?thesis by (simp add: unesc_u_escape encode_rune_def replacement_def)
    next
      case w: False
      show ?thesis
      proof (cases "line_separator (c # s)")
        case True
        then obtain b r where s: "c = CHR 0xE2" "s = CHR 0x80 # b # r" "b = CHR 0xA8 \<or> b = CHR 0xA9"
          by (cases s rule: remdups_adj.cases) (auto simp: line_separator_def)
        then have "?w = 3" by (auto simp: rune_width_def second_ok_def cont_byte_def)
        with s high w True 2 show ?thesis
          by (auto simp: unesc_u_escape encode_rune_def)
      next
        case False
        note take = rune_width_take [OF refl w, of "esc (drop (?w - 1) s) @ CHR 0x22 # t"]
        then have "length (take (?w - 1) s) = ?w - 1" by simp
        with take c high w False 2 show ?thesis by simp
      qed
    qed
  qed
qed simp

section \<open>Number literals\<close>

definition num_stop :: "string \<Rightarrow> bool" where
  "num_stop r \<longleftrightarrow> r = [] \<or> \<not> is_digit (hd r) \<and> hd r \<notin> {CHR ''.'', CHR ''e'', CHR ''E''}"

lemma scan_digits_append:
  "scan_digits s = (ds, r) \<Longrightarrow> r \<noteq> [] \<or> num_stop t \<Longrightarrow> s = ds @ r \<and> scan_digits (s @ t) = (ds, r @ t)"
  by (cases t) (auto simp: scan_digits_def num_stop_def takeWhile_append dropWhile_append dropWhile_eq_Nil_conv
    takeWhile_eq_all_conv [THEN iffD2])

lemma scan_int_append:
  assumes "scan_int s = Some (i, r)" and "r \<noteq> [] \<or> num_stop t"
  shows "s = i @ r \<and> scan_int (s @ t) = Some (i, r @ t) \<and> is_digit (hd i) \<and> i \<noteq> []"
proof (cases s)
  case (Cons c q)
  show ?thesis
  proof (cases "c = CHR ''0''")
    case False
    with assms(1) Cons have c: "is_digit c" and d: "scan_digits (c # q) = (i, r)"
      by (auto simp: scan_int_def split: if_splits)
    from scan_digits_append [OF d assms(2)] have "c # q = i @ r" "scan_digits (c # q @ t) = (i, r @ t)"
      by simp_all
    moreover obtain i' where "i = c # i'" using c d by (auto simp: scan_digits_def)
    ultimately show ?thesis using c Cons False by (simp add: scan_int_def)
  qed (use assms(1) Cons in \<open>auto simp: scan_int_def is_digit_iff\<close>)
qed (use assms in \<open>simp add: scan_int_def\<close>)

lemma scan_frac_append:
  assumes "scan_frac s = Some (f, r)" and "r \<noteq> [] \<or> num_stop t"
  shows "s = f @ r \<and> scan_frac (s @ t) = Some (f, r @ t)"
proof (cases s)
  case Nil
  with assms show ?thesis by (cases t) (auto simp: scan_frac_def num_stop_def)
next
  case (Cons c q)
  with assms scan_digits_append [of q _ r t] show ?thesis
    by (fastforce simp: scan_frac_def split: if_splits prod.splits)
qed

lemma scan_exp_append:
  assumes "scan_exp s = Some (e, r)" and "r \<noteq> [] \<or> num_stop t"
  shows "s = e @ r \<and> scan_exp (s @ t) = Some (e, r @ t)"
proof (cases s)
  case Nil
  with assms show ?thesis by (cases t) (auto simp: scan_exp_def num_stop_def)
next
  case (Cons c q)
  show ?thesis
  proof (cases "c = CHR ''e'' \<or> c = CHR ''E''")
    case True
    note exp = this
    let ?sign = "case q of x # _ \<Rightarrow> if x = CHR ''+'' \<or> x = CHR ''-'' then [x] else [] | [] \<Rightarrow> []"
    from assms(1) Cons True obtain ds where d: "scan_digits (drop (length ?sign) q) = (ds, r)"
      and e: "ds \<noteq> []" "e = c # ?sign @ ds"
      by (auto simp: scan_exp_def Let_def split: prod.splits if_splits)
    then have "q \<noteq> []" by (cases q) (auto simp: scan_digits_def)
    then obtain x q' where q: "q = x # q'" by (cases q) auto
    show ?thesis
    proof (cases "x = CHR ''+'' \<or> x = CHR ''-''")
      case True
      with scan_digits_append [OF d assms(2)] e Cons exp q show ?thesis
        by (auto simp: scan_exp_def Let_def)
    next
      case False
      with d q have d': "scan_digits (x # q') = (ds, r)" by simp
      with e(1) obtain ds' where ds: "ds = x # ds'" by (auto simp: scan_digits_def split: if_splits)
      with scan_digits_append [OF d' assms(2)] have "q' = ds' @ r"
        "scan_digits (x # ds' @ r @ t) = (x # ds', r @ t)" by auto
      with e Cons True False q ds show ?thesis
        by (simp add: scan_exp_def Let_def)
    qed
  qed (use assms Cons in \<open>auto simp: scan_exp_def\<close>)
qed

definition num_literal :: "string \<Rightarrow> bool" where
  "num_literal l \<longleftrightarrow> scan_num l = Some (l, [])"

lemma num_literal_scan:
  assumes "num_literal l" and "num_stop t"
  shows "scan_num (l @ t) = Some (l, t)"
proof -
  let ?sign = "if take 1 l = ''-'' then ''-'' else []"
  from assms(1) obtain i r f r' e where i: "scan_int (drop (length ?sign) l) = Some (i, r)"
    and f: "scan_frac r = Some (f, r')" and e: "scan_exp r' = Some (e, [])"
    and l: "l = ?sign @ i @ f @ e"
    by (auto simp: num_literal_def scan_num_def Let_def split: option.splits prod.splits)
  have "r' \<noteq> [] \<or> num_stop t" "r \<noteq> [] \<or> num_stop t" using assms(2) by auto
  note i' = scan_int_append [OF i this(2)] and f' = scan_frac_append [OF f this(1)]
    and e' = scan_exp_append [OF e disjI2 [OF assms(2)]]
  have "l \<noteq> []" using i' l by auto
  then obtain c l' where c: "l = c # l'" by (cases l) auto
  show ?thesis
  proof (cases "c = CHR ''-''")
    case True
    with c i' f' e' have "scan_int (l' @ t) = Some (i, r @ t)" "scan_frac (r @ t) = Some (f, r' @ t)"
      "scan_exp (r' @ t) = Some (e, t)" "l' = i @ f @ e" by auto
    then show ?thesis unfolding c True by (simp only: scan_num_def Let_def) simp
  next
    case False
    with c have "drop (length ?sign) l = l" by simp
    with i' have "l = i @ r \<and> scan_int (l @ t) = Some (i, r @ t)" by metis
    with f' e' [simplified] have "scan_int (l @ t) = Some (i, r @ t)" "scan_frac (r @ t) = Some (f, r' @ t)"
      "scan_exp (r' @ t) = Some (e, t)" "l = i @ f @ e" by metis+
    moreover have "(if take 1 (l @ t) = ''-'' then ''-'' else []) = []" using c False by simp
    ultimately show ?thesis unfolding scan_num_def Let_def by simp
  qed
qed

lemma num_literal_hd:
  assumes "num_literal l"
  shows "\<exists>c r. l = c # r \<and> (is_digit c \<or> c = CHR ''-'')"
proof -
  let ?sign = "if take 1 l = ''-'' then ''-'' else []"
  from assms obtain i r where i: "scan_int (drop (length ?sign) l) = Some (i, r)"
    by (auto simp: num_literal_def scan_num_def Let_def split: option.splits prod.splits)
  then show ?thesis
    by (cases l) (auto simp: scan_int_def is_digit_iff split: if_splits)
qed

section \<open>Values come back\<close>

text \<open>Every number of the value is a literal of the JSON grammar.\<close>

fun wf_json :: "json \<Rightarrow> bool" and wf_elems :: "json list \<Rightarrow> bool"
  and wf_members :: "(string \<times> json) list \<Rightarrow> bool" where
  "wf_json (JNum l) = num_literal l"
| "wf_json (JArr js) = wf_elems js"
| "wf_json (JObj ms) = wf_members ms"
| "wf_json _ = True"
| "wf_elems [] = True"
| "wf_elems (j # js) = (wf_json j \<and> wf_elems js)"
| "wf_members [] = True"
| "wf_members (m # ms) = (wf_json (snd m) \<and> wf_members ms)"

fun sanitise_json :: "json \<Rightarrow> json" and sanitise_elems :: "json list \<Rightarrow> json list"
  and sanitise_members :: "(string \<times> json) list \<Rightarrow> (string \<times> json) list" where
  "sanitise_json (JStr s) = JStr (sanitise s)"
| "sanitise_json (JArr js) = JArr (sanitise_elems js)"
| "sanitise_json (JObj ms) = JObj (sanitise_members ms)"
| "sanitise_json j = j"
| "sanitise_elems [] = []"
| "sanitise_elems (j # js) = sanitise_json j # sanitise_elems js"
| "sanitise_members [] = []"
| "sanitise_members (m # ms) = (sanitise (fst m), sanitise_json (snd m)) # sanitise_members ms"

lemma print_json_hd:
  "wf_json j \<Longrightarrow> \<exists>c r. print_json j = c # r \<and> \<not> json_space c \<and> c \<noteq> CHR '']''"
  by (cases j)
    (auto simp: json_string_def json_space_def is_digit_iff dest!: num_literal_hd)

lemma skip_ws_cons [simp]: "\<not> json_space c \<Longrightarrow> skip_ws (c # s) = c # s"
  by (simp add: skip_ws_def)

lemma not_space_simps [simp]:
  "\<not> json_space CHR '',''" "\<not> json_space CHR '']''" "\<not> json_space CHR ''}''" "\<not> json_space CHR 0x22"
  "\<not> json_space CHR '':''" "\<not> json_space CHR ''[''" "\<not> json_space CHR ''{''"
  by (simp_all add: json_space_def)

lemma num_stop_simps [simp]: "num_stop []" "num_stop (CHR '','' # s)" "num_stop (CHR '']'' # s)"
  "num_stop (CHR ''}'' # s)"
  by (simp_all add: num_stop_def is_digit_iff)

lemma json_string_length: "2 \<le> length (json_string s)"
  by (simp add: json_string_def)

lemma print_json_length: "wf_json j \<Longrightarrow> 1 \<le> length (print_json j)"
  using print_json_hd [of j] by fastforce

lemma parse_num:
  assumes "num_literal l" and "num_stop t"
  shows "parse_value (Suc n) (l @ t) = Some (JNum l, t)"
proof -
  from num_literal_hd [OF assms(1)] obtain c r where c: "l = c # r" "is_digit c \<or> c = CHR ''-''" by blast
  then have "\<not> json_space c" "c \<noteq> CHR 0x22" "c \<noteq> CHR ''[''" "c \<noteq> CHR ''{''" "c \<noteq> CHR ''n''"
    "c \<noteq> CHR ''t''" "c \<noteq> CHR ''f''" by (auto simp: json_space_def is_digit_iff)
  with num_literal_scan [OF assms] show ?thesis by (simp add: c(1))
qed

lemma parse_atoms:
  "parse_value (Suc n) (''null'' @ t) = Some (JNull, t)"
  "parse_value (Suc n) (''true'' @ t) = Some (JBool True, t)"
  "parse_value (Suc n) (''false'' @ t) = Some (JBool False, t)"
  "parse_value (Suc n) (json_string s @ t) = Some (JStr (sanitise s), t)"
  by (simp_all add: literal_def HasPrefix_def json_space_def json_string_def unesc_esc)

lemma parse_print:
  "wf_json j \<Longrightarrow> num_stop t \<Longrightarrow> 2 * length (print_json j) \<le> Suc n \<Longrightarrow>
     parse_value n (print_json j @ t) = Some (sanitise_json j, t)"
  "wf_elems js \<Longrightarrow> js \<noteq> [] \<Longrightarrow> 2 * length (print_elems js) \<le> n \<Longrightarrow>
     parse_elems n (print_elems js @ CHR '']'' # t) = Some (sanitise_elems js, t)"
  "wf_members ms \<Longrightarrow> ms \<noteq> [] \<Longrightarrow> 2 * length (print_members ms) \<le> n \<Longrightarrow>
     parse_members n (print_members ms @ CHR ''}'' # t) = Some (sanitise_members ms, t)"
proof (induction j and js and ms arbitrary: n t and n t and n t 
    rule: wf_json_wf_elems_wf_members.induct
      [case_names num arr obj null bool str nil elem mnil member])
  case (num l)
  then obtain n' where "n = Suc n'"
    using print_json_length [of "JNum l"] by (cases n) auto
  with num show ?case by (simp only: print_json.simps sanitise_json.simps parse_num wf_json.simps)
next
  case (arr js)
  then obtain n' where n: "n = Suc n'" "2 * length (print_elems js) \<le> n'" by (cases n) auto
  show ?case
  proof (cases js)
    case (Cons j js')
    with arr obtain c r where "print_json j = c # r" "\<not> json_space c" "c \<noteq> CHR '']''"
      using print_json_hd [of j] by auto
    with Cons obtain r' where r': "print_elems js = c # r'" "\<not> json_space c" "c \<noteq> CHR '']''" by simp
    from arr.IH [of n' t] arr.prems(1) n(2) Cons
    have "parse_elems n' (print_elems js @ CHR '']'' # t) = Some (sanitise_elems js, t)" by simp
    with r' n(1) show ?thesis by simp
  qed (use n in simp)
next
  case (obj ms)
  then obtain n' where n: "n = Suc n'" "2 * length (print_members ms) \<le> n'" by (cases n) auto
  show ?case
  proof (cases ms)
    case (Cons m ms')
    then obtain r' where r': "print_members ms = CHR 0x22 # r'" by (simp add: json_string_def)
    from obj.IH [of n' t] obj.prems(1) n(2) Cons
    have "parse_members n' (print_members ms @ CHR ''}'' # t) = Some (sanitise_members ms, t)" by simp
    with r' n(1) show ?thesis by simp
  qed (use n in simp)
next
  case (elem j js)
  then obtain n' where n: "n = Suc n'" "2 * length (print_json j) \<le> Suc n'"
    using print_json_length [of j] by (cases n) auto
  show ?case
  proof (cases js)
    case Nil
    with elem n elem.IH(1) [of "CHR '']'' # t" n'] show ?thesis by simp
  next
    case (Cons j' js')
    with elem n elem.IH(1) [of "CHR '','' # print_elems js @ CHR '']'' # t" n'] elem.IH(2) [of n' t]
    show ?thesis by simp
  qed
next
  case (member m ms)
  then obtain n' where n: "n = Suc n'" "2 * length (print_json (snd m)) \<le> Suc n'"
    using print_json_length [of "snd m"] by (cases n) auto
  obtain k j where m: "m = (k, j)" by (cases m)
  show ?case
  proof (cases ms)
    case Nil
    with member n m member.IH(1) [of "CHR ''}'' # t" n'] show ?thesis
      by (simp add: json_string_def unesc_esc)
  next
    case (Cons m' ms')
    with member n m member.IH(1) [of "CHR '','' # print_members ms @ CHR ''}'' # t" n'] member.IH(2) [of n' t]
    show ?thesis by (simp add: json_string_def unesc_esc)
  qed
next
  case null
  then show ?case using parse_atoms(1) [of "n - 1" t] by (cases n) simp_all
next
  case (bool b)
  then show ?case using parse_atoms(2,3) [of "n - 1" t] by (cases n; cases b) simp_all
next
  case (str s)
  then show ?case using parse_atoms(4) [of "n - 1" s t] json_string_length [of s] by (cases n) simp_all
qed simp_all

text \<open>Encoding and parsing again is the identity up to the UTF-8 reading of the strings.\<close>

lemma parse_doc_print:
  assumes "wf_json j"
  shows "parse_doc (print_json j) = Some (sanitise_json j)"
  using parse_print(1) [OF assms, of "[]" "2 * length (print_json j) + 2"]
  by (simp add: parse_doc_def parse_json_def skip_ws_def)

lemma json_Valid_print: "wf_json j \<Longrightarrow> json_Valid (print_json j)"
  by (simp add: json_Valid_def parse_doc_print)

section \<open>Integers and maps\<close>

lemma show_nat_hd_zero: "0 < n \<Longrightarrow> hd (show_nat n) \<noteq> CHR ''0''"
proof (induction n rule: show_nat.induct)
  case (1 n)
  have "digit_char n \<noteq> CHR ''0''" if "n < 10"
  proof
    assume "digit_char n = CHR ''0''"
    then have "(of_char (digit_char n) :: nat) = 48" by simp
    with that \<open>0 < n\<close> show False by simp
  qed
  with 1 show ?case by (subst show_nat.simps) (simp add: div_greater_zero_iff)
qed

lemma num_literal_show_nat: "num_literal (show_nat n)" "take 1 (show_nat n) \<noteq> ''-''"
proof -
  obtain c s where cs: "show_nat n = c # s" using show_nat_not_Nil by (cases "show_nat n") blast
  have digits: "list_all is_digit (c # s)" using show_nat_digits [of n] cs by simp
  then show minus: "take 1 (show_nat n) \<noteq> ''-''" using cs by auto
  have "scan_int (c # s) = Some (c # s, [])"
  proof (cases "c = CHR ''0''")
    case True
    then have "n = 0" using show_nat_hd_zero [of n] cs by auto
    with cs True show ?thesis by (simp add: show_nat.simps scan_int_def digit_char_def)
  next
    case False
    have "takeWhile is_digit (c # s) = c # s" "dropWhile is_digit (c # s) = []"
      using digits by (auto simp: list_all_iff)
    with False digits show ?thesis by (simp add: scan_int_def scan_digits_def)
  qed
  with cs minus show "num_literal (show_nat n)"
    by (simp add: num_literal_def scan_num_def scan_frac_def scan_exp_def)
qed

lemma num_literal_show_int [simp]: "num_literal (show_int i)"
proof (cases "i < 0")
  case True
  have "scan_num (CHR ''-'' # show_nat k) = Some (CHR ''-'' # show_nat k, [])" for k
    using num_literal_show_nat [of k] by (auto simp: num_literal_def scan_num_def split: option.splits prod.splits)
  with True show ?thesis by (simp add: num_literal_def show_int_def)
qed (simp add: show_int_def num_literal_show_nat)

lemma wf_members_iff: "wf_members ms \<longleftrightarrow> list_all (\<lambda>m. wf_json (snd m)) ms"
  by (induction ms) simp_all

lemma wf_json_map: "wf_json (json_map ms) \<longleftrightarrow> list_all (\<lambda>m. wf_json (snd m)) ms"
  by (simp add: json_map_def wf_members_iff list_all_iff)

lemma sanitise_members_map: "sanitise_members ms = map (\<lambda>(k, j). (sanitise k, sanitise_json j)) ms"
  by (induction ms) auto

section \<open>ASCII\<close>

lemma sanitise_ascii: "list_all (\<lambda>c. of_byte c < (0x80 :: nat)) s \<Longrightarrow> sanitise s = s"
  by (induction s) simp_all

lemma hex_ascii: "sanitise (hex_encode s) = hex_encode s"
proof (rule sanitise_ascii, induction s)
  case (Cons c s)
  have "of_byte (lower_hex_digit d) < (0x80 :: nat)" if "d < 16" for d using that by (simp add: lower_hex_digit_def)
  with Cons show ?case by simp
qed simp

end
