(* ===== verification/Go_Struct.thy ===== *)
theory Go_Struct
  imports Go_Json
begin

text \<open>
  Structs and maps of \<open>encoding/json\<close>: the setters of unsigned numbers and maps, \<open>omitempty\<close>, what decoding a struct keeps and
  checks, and the contract of a struct whose encoding is decoded to itself. A Go map is the list of its entries sorted by key.
\<close>

section \<open>Members and maps\<close>

text \<open>A member with \<open>omitempty\<close>, and a pointer to a number.\<close>

definition omit_empty :: "bool \<Rightarrow> string \<Rightarrow> json \<Rightarrow> (string \<times> json) list" where
  "omit_empty is_empty k j = (if is_empty then [] else [(k, j)])"

definition json_pointer :: "int option \<Rightarrow> json" where
  "json_pointer p = (case p of None \<Rightarrow> JNull | Some i \<Rightarrow> JNum (show_int i))"

definition set_uint64 :: "(nat \<Rightarrow> 'a \<Rightarrow> 'a) \<Rightarrow> 'a setter" where
  "set_uint64 upd j x =
     (case j of
        JNull \<Rightarrow> (x, True)
      | JNum l \<Rightarrow> (case ParseUint64 l of Some n \<Rightarrow> (upd n x, True) | None \<Rightarrow> (x, False))
      | _ \<Rightarrow> (x, False))"

fun map_put :: "string \<Rightarrow> 'v \<Rightarrow> (string \<times> 'v) list \<Rightarrow> (string \<times> 'v) list" where
  "map_put k v [] = [(k, v)]"
| "map_put k v ((k', v') # m) =
     (if k = k' then (k, v) # m else if k < k' then (k, v) # (k', v') # m else (k', v') # map_put k v m)"

text \<open>\<open>null\<close> makes the map nil; the members of an object are put into the map there is.\<close>

definition set_map :: "'v setter \<Rightarrow> 'v \<Rightarrow> ('a \<Rightarrow> (string \<times> 'v) list) \<Rightarrow> ((string \<times> 'v) list \<Rightarrow> 'a \<Rightarrow> 'a) \<Rightarrow> 'a setter" where
  "set_map f zero get upd j x =
     (case j of
        JNull \<Rightarrow> (upd [] x, True)
      | JObj ms \<Rightarrow> (upd (foldl (\<lambda>m (k, v). map_put k (fst (f v zero)) m) (get x) ms) x, list_all (\<lambda>(k, v). snd (f v zero)) ms)
      | _ \<Rightarrow> (x, False))"

section \<open>What decoding keeps\<close>

lemma set_members_append:
  "set_members strict fds (ms @ ms') x =
     (case set_members strict fds ms x of (y, ok) \<Rightarrow>
        (case set_members strict fds ms' y of (z, ok') \<Rightarrow> (z, ok \<and> ok')))"
  by (induction strict fds ms x rule: set_members.induct) (auto split: option.split prod.split)

lemma set_omitted:
  "set_members True fds (omit_empty c k j) x = (if c then (x, True) else set_members True fds [(k, j)] x)"
  by (simp add: omit_empty_def)

lemma lookup_field_in: "lookup_field fds k = Some f \<Longrightarrow> \<exists>n. (n, f) \<in> set fds"
  by (auto simp: lookup_field_def find_Some_iff split: option.splits dest: map_of_SomeD) (metis nth_mem)

text \<open>What every setter of a struct keeps, decoding the struct keeps.\<close>

lemma set_members_keep:
  assumes "\<And>n f j x. (n, f) \<in> set fds \<Longrightarrow> I x \<Longrightarrow> I (fst (f j x))" "I x"
  shows "I (fst (set_members strict fds ms x))"
  using assms(2)
proof (induction ms arbitrary: x)
  case (Cons m ms)
  obtain k v where m: "m = (k, v)" by (cases m)
  show ?case
  proof (cases "lookup_field fds k")
    case None
    with Cons show ?thesis by (simp add: m split: prod.split) (metis fst_conv)
  next
    case (Some f)
    from lookup_field_in [OF this] obtain n where "(n, f) \<in> set fds" ..
    obtain y ok where y: "f v x = (y, ok)" by (rule prod.exhaust)
    with assms(1) [OF \<open>(n, f) \<in> set fds\<close> Cons.prems, of v] have "I y" by simp
    then have "I (fst (set_members strict fds ms y))" by (rule Cons.IH)
    with Some y show ?thesis by (simp add: m split: prod.split) (metis fst_conv)
  qed
qed simp

lemma set_members_strict: "snd (set_members True fds ms x) \<Longrightarrow> (k, v) \<in> set ms \<Longrightarrow> lookup_field fds k \<noteq> None"
  by (induction True fds ms x rule: set_members.induct) (auto split: option.splits prod.splits)

lemma ParseUint64_less: "ParseUint64 l = Some n \<Longrightarrow> n < 2 ^ 64"
  by (auto simp: ParseUint64_def simp del: numeral_power_eq_of_nat_cancel_iff split: if_splits)

lemma ParseInt64_range: "ParseInt64 l = Some i \<Longrightarrow> - (2 ^ 63) \<le> i \<and> i < 2 ^ 63"
  unfolding ParseInt64_def by (auto simp: Let_def split: if_splits list.splits prod.splits)

lemmas ParseInt64_bounds = ParseInt64_range [simplified]

lemma keep_string: "(\<And>v. I (upd v x)) \<Longrightarrow> I x \<Longrightarrow> I (fst (set_string upd j x))"
  by (simp add: set_string_def split: json.split)

lemma keep_bool: "(\<And>v. I (upd v x)) \<Longrightarrow> I x \<Longrightarrow> I (fst (set_bool upd j x))"
  by (simp add: set_bool_def split: json.split)

lemma keep_int64: "(\<And>v. - (2 ^ 63) \<le> v \<Longrightarrow> v < 2 ^ 63 \<Longrightarrow> I (upd v x)) \<Longrightarrow> I x \<Longrightarrow> I (fst (set_int64 upd j x))"
  by (auto simp: set_int64_def dest: ParseInt64_bounds split: json.split option.split)

lemma keep_uint64: "(\<And>v. v < 2 ^ 64 \<Longrightarrow> I (upd v x)) \<Longrightarrow> I x \<Longrightarrow> I (fst (set_uint64 upd j x))"
  using ParseUint64_less by (auto simp: set_uint64_def split: json.split option.split)

lemma set_uint64_less: "n < 2 ^ 64 \<Longrightarrow> fst (set_uint64 (\<lambda>v _. v) j n) < 2 ^ 64"
  by (auto simp: set_uint64_def dest: ParseUint64_less split: json.split option.split)

lemma map_put_keys: "fst ` set (map_put k v m) = insert k (fst ` set m)"
  by (induction k v m rule: map_put.induct) auto

lemma map_put_sorted: "sorted_wrt (<) (map fst m) \<Longrightarrow> sorted_wrt (<) (map fst (map_put k v m))"
proof (induction k v m rule: map_put.induct)
  case (2 k v k' v' m)
  show ?case
  proof (cases "k = k' \<or> k < k'")
    case True
    with 2 show ?thesis by auto
  next
    case False
    then have "k' < k" using less_linear [of k k'] by blast
    with 2 False show ?thesis using map_put_keys [of k v m] by (auto simp: image_def)
  qed
qed simp

lemma map_put_all: "list_all P m \<Longrightarrow> P (k, v) \<Longrightarrow> list_all P (map_put k v m)"
  by (induction k v m rule: map_put.induct) auto

lemma foldl_keep: "(\<And>x y. y \<in> set ys \<Longrightarrow> I x \<Longrightarrow> I (f x y)) \<Longrightarrow> I x \<Longrightarrow> I (foldl f x ys)"
  by (induction ys arbitrary: x) auto

section \<open>What is encoded is decoded\<close>

definition int64 :: "int \<Rightarrow> bool" where "int64 i \<longleftrightarrow> - (2 ^ 63) \<le> i \<and> i < 2 ^ 63"

lemma sanitise_valid: "valid_utf8 s \<Longrightarrow> sanitise s = s"
  by (induction s rule: valid_utf8.induct) (simp_all add: append_take_drop_id)

lemma sanitise_elems_map: "sanitise_elems js = map sanitise_json js"
  by (induction js) simp_all

lemma wf_elems_iff: "wf_elems js \<longleftrightarrow> list_all wf_json js"
  by (induction js) simp_all

lemma ParseUint64_show_nat: "n < 2 ^ 64 \<Longrightarrow> ParseUint64 (show_nat n) = Some n"
  using show_nat_digits [of n] by (simp add: ParseUint64_def)

lemma map_put_last: "sorted_wrt (<) (map fst m @ [k]) \<Longrightarrow> map_put k v m = m @ [(k, v)]"
proof (induction k v m rule: map_put.induct)
  case (2 k v k' v' m)
  then have "k' < k" by simp
  with 2 show ?case using less_not_sym [of k k'] by auto
qed simp

lemma json_pointer_clean [simp]: "sanitise_json (json_pointer p) = json_pointer p" "wf_json (json_pointer p)"
  by (simp_all add: json_pointer_def split: option.split)

lemma decode_string: "set_string upd (JStr s) x = (upd s x, True)"
  by (simp add: set_string_def)

lemma decode_int64: "int64 i \<Longrightarrow> set_int64 upd (JNum (show_int i)) x = (upd i x, True)"
  by (simp add: set_int64_def ParseInt64_show_int int64_def)

lemma decode_uint64: "n < 2 ^ 64 \<Longrightarrow> set_uint64 upd (JNum (show_nat n)) x = (upd n x, True)"
  by (simp add: set_uint64_def ParseUint64_show_nat)

lemma decode_bool: "set_bool upd (JBool b) x = (upd b x, True)"
  by (simp add: set_bool_def)

lemma decode_pointer:
  "pred_option int64 p \<Longrightarrow> set_pointer (set_int64 (\<lambda>v _. v)) 0 get upd (json_pointer p) x = (upd p x, True)"
  by (cases p) (simp_all add: set_pointer_def json_pointer_def decode_int64)

lemmas decoded = decode_string decode_int64 decode_uint64 decode_bool decode_pointer

lemma parse_object_print:
  assumes "wf_members ms" "ms \<noteq> []"
  shows "parse_json (print_json (JObj ms) @ t) = Some (JObj (sanitise_members ms), t)"
proof -
  obtain k v ms' where ms: "ms = (k, v) # ms'" using assms(2) by (cases ms) auto
  then obtain r where r: "print_members ms = CHR 0x22 # r" by (simp add: json_string_def)
  have "parse_members (2 * length (print_json (JObj ms) @ t) + 1) (print_members ms @ CHR ''}'' # t) =
      Some (sanitise_members ms, t)"
    by (rule parse_print(3) [OF assms]) simp
  then have "parse_value (2 * length (print_json (JObj ms) @ t) + 2) (print_json (JObj ms) @ t) =
      Some (JObj (sanitise_members ms), t)"
    using r by (simp add: numeral_2_eq_2)
  then show ?thesis by (simp add: parse_json_def)
qed

text \<open>The contract of a struct with tags: how it is encoded, and which values are decoded to themselves.\<close>

locale struct_codec =
  fixes strict :: bool and fds :: "(string \<times> 'a setter) list" and zero :: 'a
    and members :: "'a \<Rightarrow> (string \<times> json) list" and ok :: "'a \<Rightarrow> bool"
  assumes some: "members e \<noteq> []"
    and clean: "ok e \<Longrightarrow> sanitise_members (members e) = members e"
    and wf: "ok e \<Longrightarrow> wf_members (members e)"
    and read: "ok e \<Longrightarrow> set_members strict fds (members e) zero = (e, True)"
begin

lemma unmarshal: "ok e \<Longrightarrow> Unmarshal_into (set_struct strict fds) (print_json (JObj (members e))) zero = (e, True)"
  using parse_doc_print [of "JObj (members e)"] by (simp add: Unmarshal_into_def set_struct_def clean wf read)

lemma decode: "ok e \<Longrightarrow> Decode_into (set_struct strict fds) (print_json (JObj (members e)) @ rest) zero = (e, True)"
  using parse_object_print [OF wf some] by (simp add: Decode_into_def set_struct_def clean read)

lemma encode_inject:
  "ok e \<Longrightarrow> ok e' \<Longrightarrow> print_json (JObj (members e)) = print_json (JObj (members e')) \<longleftrightarrow> e = e'"
  using unmarshal by (metis fst_conv)

lemma element: "ok e \<Longrightarrow> set_struct strict fds (JObj (members e)) zero = (e, True)"
  by (simp add: set_struct_def read)

lemma slice: "list_all ok es \<Longrightarrow>
    Unmarshal_into (set_slice (set_struct strict fds) zero upd) (print_json (JArr (map (\<lambda>e. JObj (members e)) es))) x =
      (upd es x, True)"
proof -
  let ?enc = "\<lambda>e. JObj (members e)"
  assume all: "list_all ok es"
  then have "map sanitise_json (map ?enc es) = map ?enc es" "wf_json (JArr (map ?enc es))"
    by (simp_all add: list_all_iff clean wf wf_elems_iff)
  then have "parse_doc (print_json (JArr (map ?enc es))) = Some (JArr (map ?enc es))"
    using parse_doc_print [of "JArr (map ?enc es)"] by (simp only: sanitise_json.simps sanitise_elems_map)
  moreover have "map (\<lambda>v. fst (set_struct strict fds v zero)) (map ?enc es) = es"
    "list_all (\<lambda>v. snd (set_struct strict fds v zero)) (map ?enc es)"
    using all by (simp_all add: element list_all_iff map_idI)
  ultimately show ?thesis by (simp add: Unmarshal_into_def set_slice_def del: print_json.simps map_map)
qed

end

end
