(* ===== verification/Go_Net.thy ===== *)
theory Go_Net
  imports Go_Encoding
begin

text \<open>
  Parts of the standard library: \<open>net.ParseIP\<close> with \<open>IP.IsLoopback\<close>, the RFC 3339 layouts, and the layouts
  \<open>20060102T150405Z\<close> and \<open>20060102\<close> of \<open>time.Format\<close> for an instant in UTC.
\<close>

section \<open>Addresses\<close>

text \<open>A decimal octet: no leading zero, at most 255.\<close>

definition ip_octet :: "string \<Rightarrow> bool" where
  "ip_octet f \<longleftrightarrow> f \<noteq> [] \<and> list_all is_digit f \<and> (hd f = CHR ''0'' \<longrightarrow> length f = 1) \<and> dec_val 0 f \<le> 255"

definition parseIPv4 :: "string \<Rightarrow> nat list option" where
  "parseIPv4 s =
     (let fs = Split s CHR ''.'' in
      if length fs = 4 \<and> list_all ip_octet fs then Some (map (dec_val 0) fs) else None)"

definition hex_number :: "string \<Rightarrow> nat" where
  "hex_number s = foldl (\<lambda>acc c. 16 * acc + the (hex_val c)) 0 s"

text \<open>
  The groups of an IPv6 address: the bytes so far, where a double colon stood, and the number of
  groups that still fit. A dotted tail fills the last four bytes.
\<close>

fun ipv6_groups :: "nat \<Rightarrow> string \<Rightarrow> nat list \<Rightarrow> nat option \<Rightarrow> (nat list \<times> nat option) option" where
  "ipv6_groups 0 s ip ellipsis = (if s = [] then Some (ip, ellipsis) else None)"
| "ipv6_groups (Suc k) s ip ellipsis =
     (let h = takeWhile (\<lambda>c. hex_val c \<noteq> None) s;
          r = dropWhile (\<lambda>c. hex_val c \<noteq> None) s;
          ip' = ip @ [hex_number h div 256, hex_number h mod 256]
      in if h = [] \<or> 4 < length h then None
         else (case r of
             [] \<Rightarrow> Some (ip', ellipsis)
           | c # s' \<Rightarrow>
               if c = CHR ''.'' then
                 (if (ellipsis = None \<and> length ip \<noteq> 12) \<or> 12 < length ip then None
                  else map_option (\<lambda>q. (ip @ q, ellipsis)) (parseIPv4 s))
               else if c \<noteq> CHR '':'' \<or> s' = [] then None
               else if hd s' = CHR '':'' then
                 (if ellipsis \<noteq> None then None
                  else if tl s' = [] then Some (ip', Some (length ip'))
                  else ipv6_groups k (tl s') ip' (Some (length ip')))
               else ipv6_groups k s' ip' ellipsis))"

definition expand_ellipsis :: "nat list \<times> nat option \<Rightarrow> nat list option" where
  "expand_ellipsis r =
     (case r of
        (ip, None) \<Rightarrow> if length ip = 16 then Some ip else None
      | (ip, Some e) \<Rightarrow>
          if length ip < 16 then Some (take e ip @ replicate (16 - length ip) 0 @ drop e ip) else None)"

definition parseIPv6 :: "string \<Rightarrow> nat list option" where
  "parseIPv6 s =
     (if s = ''::'' then Some (replicate 16 0)
      else if HasPrefix s ''::'' then Option.bind (ipv6_groups 8 (drop 2 s) [] (Some 0)) expand_ellipsis
      else Option.bind (ipv6_groups 8 s [] None) expand_ellipsis)"

definition v4_prefix :: "nat list" where
  "v4_prefix = replicate 10 0 @ [255, 255]"

text \<open>\<open>net.ParseIP\<close>: sixteen bytes; the first separator decides, and a zone is refused.\<close>

definition ParseIP :: "string \<Rightarrow> nat list option" where
  "ParseIP s =
     (if CHR ''%'' \<in> set s then None
      else (case dropWhile (\<lambda>c. c \<noteq> CHR ''.'' \<and> c \<noteq> CHR '':'') s of
          [] \<Rightarrow> None
        | c # _ \<Rightarrow> if c = CHR ''.'' then map_option ((@) v4_prefix) (parseIPv4 s) else parseIPv6 s))"

definition IsLoopback :: "nat list \<Rightarrow> bool" where
  "IsLoopback ip = (if take 12 ip = v4_prefix then ip ! 12 = 127 else ip = replicate 15 0 @ [1])"

section \<open>Instants\<close>

text \<open>The civil date of a day counted from 1970-01-01, by the 400-year cycle of the calendar.\<close>

definition civil :: "int \<Rightarrow> int \<times> int \<times> int" where
  "civil days =
     (let z = days + 719468; era = z div 146097; doe = z mod 146097;
          yoe = (doe - doe div 1460 + doe div 36524 - doe div 146096) div 365;
          doy = doe - (365 * yoe + yoe div 4 - yoe div 100);
          mp = (5 * doy + 2) div 153;
          d = doy - (153 * mp + 2) div 5 + 1;
          m = (if mp < 10 then mp + 3 else mp - 9)
      in (yoe + era * 400 + (if m \<le> 2 then 1 else 0), m, d))"

definition pad_int :: "nat \<Rightarrow> int \<Rightarrow> string" where
  "pad_int n i =
     (let ds = show_nat (nat \<bar>i\<bar>) in
      (if i < 0 then ''-'' else []) @ replicate (n - length ds) CHR ''0'' @ ds)"

definition second_of :: "go_time \<Rightarrow> int" where
  "second_of t = t div second"

text \<open>The layout \<open>20060102\<close>, and \<open>20060102T150405Z\<close>.\<close>

definition format_date :: "go_time \<Rightarrow> string" where
  "format_date t =
     (case civil (second_of t div 86400) of (y, m, d) \<Rightarrow> pad_int 4 y @ pad_int 2 m @ pad_int 2 d)"

definition format_amz :: "go_time \<Rightarrow> string" where
  "format_amz t =
     (let s = second_of t mod 86400 in
      format_date t @ ''T'' @ pad_int 2 (s div 3600) @ pad_int 2 (s div 60 mod 60) @ pad_int 2 (s mod 60) @ ''Z'')"

section \<open>RFC 3339\<close>

text \<open>The number of a day since 1970-01-01, and the length of a month.\<close>

definition days_from_civil :: "int \<Rightarrow> int \<Rightarrow> int \<Rightarrow> int" where
  "days_from_civil y m d =
     (let y' = (if m \<le> 2 then y - 1 else y); era = y' div 400; yoe = y' mod 400;
          mp = (if m \<le> 2 then m + 9 else m - 3); doy = (153 * mp + 2) div 5 + d - 1
      in era * 146097 + (yoe * 365 + yoe div 4 - yoe div 100 + doy) - 719468)"

definition is_leap :: "int \<Rightarrow> bool" where
  "is_leap y \<longleftrightarrow> y mod 4 = 0 \<and> (y mod 100 \<noteq> 0 \<or> y mod 400 = 0)"

definition daysIn :: "int \<Rightarrow> int \<Rightarrow> int" where
  "daysIn m y = (if m = 2 then (if is_leap y then 29 else 28) else if m \<in> {4, 6, 9, 11} then 30 else 31)"

text \<open>\<open>getnum\<close>: two digits, or one when the layout does not fix them.\<close>

definition getnum :: "bool \<Rightarrow> string \<Rightarrow> (int \<times> string) option" where
  "getnum fixed s =
     (case s of
        [] \<Rightarrow> None
      | a # r \<Rightarrow>
          if \<not> is_digit a then None
          else (case r of
             b # r' \<Rightarrow> if is_digit b then Some (int (10 * digit_val a + digit_val b), r')
               else if fixed then None else Some (int (digit_val a), r)
           | [] \<Rightarrow> if fixed then None else Some (int (digit_val a), [])))"

definition expect :: "char \<Rightarrow> string \<Rightarrow> string option" where
  "expect c s = (case s of x # r \<Rightarrow> if x = c then Some r else None | [] \<Rightarrow> None)"

definition in_range :: "int \<Rightarrow> int \<Rightarrow> (int \<times> string) option \<Rightarrow> (int \<times> string) option" where
  "in_range lo hi r = (case r of Some (n, s) \<Rightarrow> if lo \<le> n \<and> n \<le> hi then Some (n, s) else None | None \<Rightarrow> None)"

definition dec_int :: "string \<Rightarrow> int" where
  "dec_int s = foldl (\<lambda>n c. 10 * n + int (digit_val c)) 0 s"

definition get_year :: "string \<Rightarrow> (int \<times> string) option" where
  "get_year s = (if length s < 4 \<or> \<not> list_all is_digit (take 4 s) then None
     else Some (dec_int (take 4 s), drop 4 s))"

text \<open>A fraction is read where the layout has none, after a period or a comma; digits beyond the ninth are
  cut off.\<close>

definition get_fraction :: "string \<Rightarrow> int \<times> string" where
  "get_fraction s =
     (case s of
        p # d # r \<Rightarrow>
          if (p = CHR ''.'' \<or> p = CHR '','') \<and> is_digit d then
            (let ds = takeWhile is_digit (d # r) in
             (dec_int (take 9 (ds @ replicate 9 CHR ''0'')), dropWhile is_digit (d # r)))
          else (0, s)
      | _ \<Rightarrow> (0, s))"

text \<open>\<open>Z\<close> or an offset, in seconds.\<close>

definition get_zone :: "string \<Rightarrow> (int \<times> string) option" where
  "get_zone s =
     (if take 1 s = ''Z'' then Some (0, drop 1 s)
      else if length s < 6 \<or> s ! 3 \<noteq> CHR '':'' then None
      else (case (in_range 0 24 (getnum True (take 2 (drop 1 s))), in_range 0 60 (getnum True (take 2 (drop 4 s)))) of
          (Some (h, _), Some (m, _)) \<Rightarrow>
            if hd s = CHR ''+'' then Some ((h * 60 + m) * 60, drop 6 s)
            else if hd s = CHR ''-'' then Some (- ((h * 60 + m) * 60), drop 6 s)
            else None
        | _ \<Rightarrow> None))"

text \<open>\<open>time.Parse(time.RFC3339, s)\<close>\<close>

abbreviation andthen :: "'a option \<Rightarrow> ('a \<Rightarrow> 'b option) \<Rightarrow> 'b option" where
  "andthen r f \<equiv> (case r of None \<Rightarrow> None | Some x \<Rightarrow> f x)"

definition parse_RFC3339 :: "string \<Rightarrow> go_time option" where
  "parse_RFC3339 s =
     andthen (get_year s) (\<lambda>(y, s).
     andthen (expect CHR ''-'' s) (\<lambda>s.
     andthen (in_range 1 12 (getnum True s)) (\<lambda>(mo, s).
     andthen (expect CHR ''-'' s) (\<lambda>s.
     andthen (getnum True s) (\<lambda>(d, s).
     andthen (expect CHR ''T'' s) (\<lambda>s.
     andthen (in_range 0 23 (getnum False s)) (\<lambda>(h, s).
     andthen (expect CHR '':'' s) (\<lambda>s.
     andthen (in_range 0 59 (getnum True s)) (\<lambda>(mi, s).
     andthen (expect CHR '':'' s) (\<lambda>s.
     andthen (in_range 0 59 (getnum True s)) (\<lambda>(sec, s).
     (case get_fraction s of (nsec, s) \<Rightarrow>
     andthen (get_zone s) (\<lambda>(zone, s).
       if s \<noteq> [] \<or> d < 1 \<or> daysIn mo y < d then None
       else Some ((days_from_civil y mo d * 86400 + h * 3600 + mi * 60 + sec - zone) * second + nsec))))))))))))))"

text \<open>The layout \<open>RFC3339Nano\<close> of an instant in UTC: the zeros at the end of the fraction, and an empty
  fraction, are left out.\<close>

definition format_fraction :: "int \<Rightarrow> string" where
  "format_fraction n =
     (let ds = rev (dropWhile (\<lambda>c. c = CHR ''0'') 
          (rev (map (\<lambda>i. digit_char (nat (n div 10 ^ i mod 10))) [8, 7, 6, 5, 4, 3, 2, 1, 0]))) in if ds = [] then [] else CHR ''.'' # ds)"

definition format_RFC3339Nano :: "go_time \<Rightarrow> string" where
  "format_RFC3339Nano t =
     (case civil (second_of t div 86400) of
        (y, m, d) \<Rightarrow>
          (let s = second_of t mod 86400 in
           pad_int 4 y @ ''-'' @ pad_int 2 m @ ''-'' @ pad_int 2 d @ ''T''
           @ pad_int 2 (s div 3600) @ '':'' @ pad_int 2 (s div 60 mod 60) @ '':'' @ pad_int 2 (s mod 60)
           @ format_fraction (t mod second) @ ''Z''))"

end
