(* ===== verification/Github_Mint.thy ===== *)
theory Github_Mint
  imports Github_Types Go_Struct Go_Net
begin

text \<open>
  Package \<open>github\<close>, \<open>client.go\<close>: the budgeted installation-token client.

  The client's mutable fields are passed explicitly. \<open>mint\<close> holds its lock in three separate
  regions (reserve, record the rate limit, finish); each is one definition, so that the
  sequential \<open>gh_mint\<close> and the interleaved system of the last section are built from the same
  pieces. GitHub is a function \<open>server\<close> of a world state and the request; it answers with any
  outcome. \<open>clk i\<close> is the \<open>i\<close>-th reading of \<open>c.now()\<close> in one call.
\<close>

section \<open>Configuration and construction\<close>

definition DefaultBaseURL :: string where "DefaultBaseURL = ''https://api.github.com''"
definition DefaultCallBudget :: int where "DefaultCallBudget = 500"
definition DefaultDedupeWindow :: go_duration where "DefaultDedupeWindow = 5 * minute"
definition DefaultRateLimitFloor :: int where "DefaultRateLimitFloor = 50"

record gh_config =
  cfg_AppID :: int
  cfg_PrivateKeyPEM :: string
  cfg_BaseURL :: string
  cfg_CallBudget :: int
  cfg_DedupeWindow :: go_duration
  cfg_RateLimitFloor :: int

record 'k gh_client =
  appID :: int
  app_key :: 'k
  baseURL :: string
  callBudget :: int
  dedupeWindow :: go_duration
  rateLimitFloor :: int
  callsMade :: int
  rateRemaining :: int
  rateKnown :: bool
  dedupe :: "string \<rightharpoonup> go_time"
  tokens :: "string \<rightharpoonup> gh_token"

definition gh_New :: "'k rsa_lib \<Rightarrow> gh_config \<Rightarrow> gh_error + 'k gh_client" where
  "gh_New lib config =
     rbind (guard (\<not> cfg_AppID config \<le> 0) (gh_errorf CodeInvalidConfig ''app id is required''))
     (\<lambda>_. rbind (guard (cfg_PrivateKeyPEM config \<noteq> [])
            (gh_errorf CodeInvalidConfig ''private key is required''))
     (\<lambda>_. rbind (parsePrivateKey lib (cfg_PrivateKeyPEM config))
     (\<lambda>key. Inr \<lparr>
        appID = cfg_AppID config,
        app_key = key,
        baseURL = TrimSuffix (if cfg_BaseURL config = [] then DefaultBaseURL else cfg_BaseURL config) ''/'',
        callBudget = (if cfg_CallBudget config \<le> 0 then DefaultCallBudget else cfg_CallBudget config),
        dedupeWindow =
          (if cfg_DedupeWindow config = 0 then DefaultDedupeWindow
           else if cfg_DedupeWindow config < 0 then 0 else cfg_DedupeWindow config),
        rateLimitFloor =
          (if cfg_RateLimitFloor config \<le> 0 then DefaultRateLimitFloor else cfg_RateLimitFloor config),
        callsMade = 0, rateRemaining = 0, rateKnown = False,
        dedupe = Map.empty, tokens = Map.empty \<rparr>)))"

section \<open>The three locked regions of mint\<close>

text \<open>\<open>fmt.Sprintf("%d|%s|%s", installationID, cacheLabel, permissions.key())\<close>\<close>

definition cacheKey :: "int \<Rightarrow> string \<Rightarrow> permissions \<Rightarrow> string" where
  "cacheKey installationID cacheLabel perms =
     show_int installationID @ ''|'' @ cacheLabel @ ''|'' @ permissions_key perms"

datatype gh_reserve = Cached gh_token | Armed go_time

text \<open>The checks after a cache miss, and the arming of the dedupe entry.\<close>

definition mint_admit ::
  "'k gh_client \<Rightarrow> (nat \<Rightarrow> go_time) \<Rightarrow> string \<Rightarrow> (gh_error + gh_reserve) \<times> 'k gh_client" where
  "mint_admit c clk key =
     (if 0 < dedupeWindow c \<and>
         (case dedupe c key of None \<Rightarrow> False | Some armed \<Rightarrow> time_Sub (clk 1) armed < dedupeWindow c)
      then (Inl (gh_errorf CodeDuplicateRead
              ''identical mint for installation %d %s rejected within the %s dedupe window''), c)
      else if callBudget c \<le> callsMade c
      then (Inl (gh_errorf CodeCallBudgetExhausted ''call budget of %d exhausted for this client''), c)
      else if rateKnown c \<and> rateRemaining c < rateLimitFloor c
      then (Inl (gh_errorf CodeRateLimited
              ''installation rate limit remaining (%d) below the configured floor (%d)''), c)
      else (Inr (Armed (clk 2)),
            c\<lparr>dedupe := (dedupe c)(key \<mapsto> clk 2), callsMade := callsMade c + 1\<rparr>))"

definition mint_reserve ::
  "'k gh_client \<Rightarrow> (nat \<Rightarrow> go_time) \<Rightarrow> string \<Rightarrow> (gh_error + gh_reserve) \<times> 'k gh_client" where
  "mint_reserve c clk key =
     (case tokens c key of
        Some cached \<Rightarrow>
          if \<not> token_Expired cached (clk 0) minute then (Inr (Cached cached), c)
          else mint_admit c clk key
      | None \<Rightarrow> mint_admit c clk key)"

definition recordRateLimit :: "'k gh_client \<Rightarrow> string \<Rightarrow> 'k gh_client" where
  "recordRateLimit c remaining =
     (if remaining = [] then c
      else case ParseInt64 remaining of
        None \<Rightarrow> c
      | Some n \<Rightarrow> c\<lparr>rateRemaining := n, rateKnown := True\<rparr>)"

definition mint_fail :: "'k gh_client \<Rightarrow> string \<Rightarrow> go_time \<Rightarrow> 'k gh_client" where
  "mint_fail c key armedAt =
     (if dedupe c key = Some armedAt then c\<lparr>dedupe := (dedupe c)(key := None)\<rparr> else c)"

definition mint_store :: "'k gh_client \<Rightarrow> string \<Rightarrow> gh_token \<Rightarrow> 'k gh_client" where
  "mint_store c key token = c\<lparr>tokens := (tokens c)(key \<mapsto> token)\<rparr>"

section \<open>The request and the judgement of its answer\<close>

record gh_request =
  rq_url :: string
  rq_authorization :: string
  rq_body :: string

record gh_response =
  rs_status :: int
  rs_rate_remaining :: string
  rs_body :: "string option"

datatype gh_outcome = BuildFailed | DoFailed | Responded gh_response

text \<open>The body of the request, and of the answer.\<close>

definition mint_json :: "string list \<Rightarrow> permissions \<Rightarrow> json" where
  "mint_json repos perms =
     JObj (omit_empty (repos = []) ''repositories'' (JArr (map JStr repos))
       @ [(''permissions'', json_map (map (\<lambda>(k, v). (k, JStr v)) perms))])"

definition mint_body :: "string list \<Rightarrow> permissions \<Rightarrow> string" where
  "mint_body repos perms = print_json (mint_json repos perms)"

record mint_answer =
  AnswerToken :: string
  AnswerExpiresAt :: string

definition set_mint_answer :: "mint_answer setter" where
  "set_mint_answer = set_struct False
    [(''token'', set_string (\<lambda>v. AnswerToken_update (\<lambda>_. v))),
     (''expires_at'', set_string (\<lambda>v. AnswerExpiresAt_update (\<lambda>_. v)))]"

definition decode_mint ::
  "int \<Rightarrow> string \<Rightarrow> permissions \<Rightarrow> go_time \<Rightarrow> gh_response \<Rightarrow> gh_error + gh_token" where
  "decode_mint installationID cacheLabel perms now resp =
     (if rs_status resp = 404 \<or> rs_status resp = 422
      then Inl (gh_errorf CodeUnknownInstallation ''installation %d rejected the mint (status %d)'')
      else if rs_status resp = 403 \<or> rs_status resp = 429
      then Inl (gh_errorf CodeRateLimited ''GitHub refused the mint (status %d)'')
      else if rs_status resp \<noteq> 201
      then Inl (gh_errorf CodeUnexpectedResponse ''unexpected status %d'')
      else case rs_body resp of
        None \<Rightarrow> Inl (gh_errorf CodeTransportUnavailable ''read response: %v'')
      | Some body \<Rightarrow>
          (case Unmarshal_into set_mint_answer body \<lparr>AnswerToken = [], AnswerExpiresAt = []\<rparr> of
             (decoded, ok) \<Rightarrow>
               if \<not> ok then Inl (gh_errorf CodeUnexpectedResponse ''decode response: %v'')
               else (case parse_RFC3339 (AnswerExpiresAt decoded) of
                  None \<Rightarrow> Inl (gh_errorf CodeUnexpectedResponse ''parse expires_at: %v'')
                | Some expiresAt \<Rightarrow>
                    if AnswerToken decoded = [] then Inl (gh_errorf CodeUnexpectedResponse ''response carried no token'')
                    else Inr \<lparr>token_value = AnswerToken decoded, Repo = cacheLabel,
                           Permissions = permissions_clone perms, Installation = installationID,
                           MintedAt = now, ExpiresAt = expiresAt\<rparr>)))"

definition mint_outcome ::
  "int \<Rightarrow> string \<Rightarrow> permissions \<Rightarrow> go_time \<Rightarrow> gh_outcome \<Rightarrow> gh_error + gh_token" where
  "mint_outcome installationID cacheLabel perms now out =
     (case out of
        BuildFailed \<Rightarrow> Inl (gh_errorf CodeTransportUnavailable ''build request: %v'')
      | DoFailed \<Rightarrow> Inl (gh_errorf CodeTransportUnavailable ''%v'')
      | Responded resp \<Rightarrow> decode_mint installationID cacheLabel perms now resp)"

text \<open>The state change of \<open>mintFresh\<close>: the rate limit header of any answer that arrived.\<close>

definition observe_outcome :: "'k gh_client \<Rightarrow> gh_outcome \<Rightarrow> 'k gh_client" where
  "observe_outcome c out =
     (case out of Responded resp \<Rightarrow> recordRateLimit c (rs_rate_remaining resp) | _ \<Rightarrow> c)"

definition mint_request ::
  "'k gh_client \<Rightarrow> int \<Rightarrow> string list \<Rightarrow> permissions \<Rightarrow> string \<Rightarrow> gh_request" where
  "mint_request c installationID repos perms appJWT =
     \<lparr>rq_url = baseURL c @ ''/app/installations/'' @ show_int installationID @ ''/access_tokens'',
      rq_authorization = ''Bearer '' @ appJWT,
      rq_body = mint_body repos perms\<rparr>"

type_synonym 'w gh_server = "'w \<Rightarrow> gh_request \<Rightarrow> gh_outcome \<times> 'w"

definition mintFresh ::
  "'k rsa_lib \<Rightarrow> 'w gh_server \<Rightarrow> 'w \<Rightarrow> 'k gh_client \<Rightarrow> (nat \<Rightarrow> go_time)
   \<Rightarrow> int \<Rightarrow> string \<Rightarrow> string list \<Rightarrow> permissions
   \<Rightarrow> (gh_error + gh_token) \<times> 'k gh_client \<times> 'w" where
  "mintFresh lib server w c clk installationID cacheLabel repos perms =
     (case signAppJWT lib (appID c) (app_key c) (clk 3) of
        Inl e \<Rightarrow> (Inl e, c, w)
      | Inr appJWT \<Rightarrow>
          (case server w (mint_request c installationID repos perms appJWT) of
             (out, w') \<Rightarrow>
               (mint_outcome installationID cacheLabel perms (clk 4) out,
                observe_outcome c out, w')))"

definition gh_mint ::
  "'k rsa_lib \<Rightarrow> 'w gh_server \<Rightarrow> 'w \<Rightarrow> 'k gh_client \<Rightarrow> (nat \<Rightarrow> go_time)
   \<Rightarrow> int \<Rightarrow> string \<Rightarrow> string list \<Rightarrow> permissions
   \<Rightarrow> (gh_error + gh_token) \<times> 'k gh_client \<times> 'w" where
  "gh_mint lib server w c clk installationID cacheLabel repos perms =
     (if installationID \<le> 0
      then (Inl (gh_errorf CodeInvalidConfig ''installation id is required''), c, w)
      else if perms = []
      then (Inl (gh_errorf CodeInvalidPermissions
              ''at least one permission is required -- an unscoped mint is refused''), c, w)
      else let key = cacheKey installationID cacheLabel perms in
        case mint_reserve c clk key of
          (Inl e, c1) \<Rightarrow> (Inl e, c1, w)
        | (Inr (Cached t), c1) \<Rightarrow> (Inr t, c1, w)
        | (Inr (Armed armedAt), c1) \<Rightarrow>
            (case mintFresh lib server w c1 clk installationID cacheLabel repos perms of
               (Inl e, c2, w') \<Rightarrow> (Inl e, mint_fail c2 key armedAt, w')
             | (Inr t, c2, w') \<Rightarrow> (Inr t, mint_store c2 key t, w')))"

definition repositoryName :: "string \<Rightarrow> string" where
  "repositoryName repo = after_last CHR ''/'' repo"

definition MintInstallationToken ::
  "'k rsa_lib \<Rightarrow> 'w gh_server \<Rightarrow> 'w \<Rightarrow> 'k gh_client \<Rightarrow> (nat \<Rightarrow> go_time)
   \<Rightarrow> int \<Rightarrow> string \<Rightarrow> permissions \<Rightarrow> (gh_error + gh_token) \<times> 'k gh_client \<times> 'w" where
  "MintInstallationToken lib server w c clk installationID repo perms =
     (if TrimSpace repo = [] then (Inl (gh_errorf CodeInvalidConfig ''repo is required''), c, w)
      else gh_mint lib server w c clk installationID repo [repositoryName repo] perms)"

definition MintInstallationTokenForOwner ::
  "'k rsa_lib \<Rightarrow> 'w gh_server \<Rightarrow> 'w \<Rightarrow> 'k gh_client \<Rightarrow> (nat \<Rightarrow> go_time)
   \<Rightarrow> int \<Rightarrow> string \<Rightarrow> permissions \<Rightarrow> (gh_error + gh_token) \<times> 'k gh_client \<times> 'w" where
  "MintInstallationTokenForOwner lib server w c clk installationID owner perms =
     (if TrimSpace owner = [] then (Inl (gh_errorf CodeInvalidConfig ''owner is required''), c, w)
      else gh_mint lib server w c clk installationID (''owner:'' @ owner) [] perms)"

section \<open>How each region acts\<close>

lemmas mint_region_defs = mint_reserve_def mint_admit_def

lemma mint_reserve_cases:
  obtains (cached) t where "mint_reserve c clk key = (Inr (Cached t), c)" "tokens c key = Some t"
      "\<not> token_Expired t (clk 0) minute"
  | (refused) e where "mint_reserve c clk key = (Inl e, c)"
  | (armed) "mint_reserve c clk key =
       (Inr (Armed (clk 2)), c\<lparr>dedupe := (dedupe c)(key \<mapsto> clk 2), callsMade := callsMade c + 1\<rparr>)"
      "callsMade c < callBudget c" "\<not> (rateKnown c \<and> rateRemaining c < rateLimitFloor c)"
      "0 < dedupeWindow c \<Longrightarrow> dedupe c key = Some a \<Longrightarrow> dedupeWindow c \<le> time_Sub (clk 1) a"
proof -
  have admit: "(\<exists>e. mint_admit c clk key = (Inl e, c)) \<or>
     mint_admit c clk key =
       (Inr (Armed (clk 2)), c\<lparr>dedupe := (dedupe c)(key \<mapsto> clk 2), callsMade := callsMade c + 1\<rparr>)
     \<and> callsMade c < callBudget c \<and> \<not> (rateKnown c \<and> rateRemaining c < rateLimitFloor c)
     \<and> (0 < dedupeWindow c \<longrightarrow> dedupe c key = Some a \<longrightarrow> dedupeWindow c \<le> time_Sub (clk 1) a)"
    by (auto simp: mint_admit_def not_le not_less)
  show thesis
  proof (cases "\<exists>t. tokens c key = Some t \<and> \<not> token_Expired t (clk 0) minute")
    case True
    then show ?thesis
      by (auto simp: mint_reserve_def intro: cached)
  next
    case False
    then have "mint_reserve c clk key = mint_admit c clk key"
      by (auto simp: mint_reserve_def split: option.splits)
    with admit show ?thesis
      by (metis refused armed)
  qed
qed

lemma recordRateLimit_frame [simp]:
  "callsMade (recordRateLimit c h) = callsMade c" "callBudget (recordRateLimit c h) = callBudget c"
  "dedupe (recordRateLimit c h) = dedupe c" "tokens (recordRateLimit c h) = tokens c"
  "dedupeWindow (recordRateLimit c h) = dedupeWindow c"
  "rateLimitFloor (recordRateLimit c h) = rateLimitFloor c"
  by (simp_all add: recordRateLimit_def split: option.splits)

lemma observe_outcome_frame [simp]:
  "callsMade (observe_outcome c out) = callsMade c" "callBudget (observe_outcome c out) = callBudget c"
  "dedupe (observe_outcome c out) = dedupe c" "tokens (observe_outcome c out) = tokens c"
  "dedupeWindow (observe_outcome c out) = dedupeWindow c"
  "rateLimitFloor (observe_outcome c out) = rateLimitFloor c"
  by (simp_all add: observe_outcome_def split: gh_outcome.splits)

lemma mint_fail_frame [simp]:
  "callsMade (mint_fail c key a) = callsMade c" "callBudget (mint_fail c key a) = callBudget c"
  "tokens (mint_fail c key a) = tokens c" "dedupeWindow (mint_fail c key a) = dedupeWindow c"
  by (simp_all add: mint_fail_def)

lemma mint_store_frame [simp]:
  "callsMade (mint_store c key t) = callsMade c" "callBudget (mint_store c key t) = callBudget c"
  "dedupe (mint_store c key t) = dedupe c" "dedupeWindow (mint_store c key t) = dedupeWindow c"
  "tokens (mint_store c key t) = (tokens c)(key \<mapsto> t)"
  by (simp_all add: mint_store_def)

lemma mint_outcome_Inr:
  assumes "mint_outcome i label p now out = Inr t"
  shows "Repo t = label \<and> Installation t = i \<and> Permissions t = p \<and> token_value t \<noteq> []"
  using assms
  by (auto simp: mint_outcome_def decode_mint_def permissions_clone_def
      split: gh_outcome.splits if_splits option.splits prod.splits)

lemma mintFresh_cases:
  assumes "mintFresh lib server w c clk i label repos p = (r, c', w')"
  obtains (unsigned) e where "r = Inl e" "c' = c" "w' = w"
  | (sent) out where "r = mint_outcome i label p (clk 4) out" "c' = observe_outcome c out"
  using assms by (auto simp: mintFresh_def split: sum.splits prod.splits)

text \<open>The shape of a whole call, the case analysis every property of \<open>gh_mint\<close> goes through.\<close>

lemma gh_mint_cases:
  assumes "gh_mint lib server w c clk i label repos p = (r, c', w')"
  obtains (invalid) e where "r = Inl e" "c' = c" "w' = w" "i \<le> 0 \<or> p = []"
      "\<not> gh_IsCode (Some e) CodeDuplicateRead"
  | (refused) e where "mint_reserve c clk (cacheKey i label p) = (Inl e, c)" "r = Inl e" "c' = c" "w' = w"
      "0 < i" "p \<noteq> []"
  | (cached) t where "mint_reserve c clk (cacheKey i label p) = (Inr (Cached t), c)"
      "tokens c (cacheKey i label p) = Some t" "r = Inr t" "c' = c" "w' = w"
  | (failed) e c2 where "callsMade c < callBudget c" "r = Inl e"
      "c' = mint_fail c2 (cacheKey i label p) (clk 2)"
      "dedupe c2 = (dedupe c)(cacheKey i label p \<mapsto> clk 2)" "tokens c2 = tokens c"
      "callsMade c2 = callsMade c + 1" "callBudget c2 = callBudget c" "dedupeWindow c2 = dedupeWindow c"
      "mintFresh lib server w (snd (mint_reserve c clk (cacheKey i label p))) clk i label repos p
       = (Inl e, c2, w')"
  | (minted) t c2 where "callsMade c < callBudget c" "r = Inr t"
      "c' = mint_store c2 (cacheKey i label p) t"
      "dedupe c2 = (dedupe c)(cacheKey i label p \<mapsto> clk 2)" "tokens c2 = tokens c"
      "callsMade c2 = callsMade c + 1" "callBudget c2 = callBudget c" "dedupeWindow c2 = dedupeWindow c"
      "Repo t = label" "Installation t = i" "Permissions t = p" "token_value t \<noteq> []"
proof (cases "i \<le> 0 \<or> p = []")
  case True
  with assms show thesis by (auto simp: gh_mint_def split: if_splits intro!: invalid)
next
  case False
  let ?key = "cacheKey i label p"
  show thesis
  proof (rule mint_reserve_cases [of c clk ?key])
    fix t assume "mint_reserve c clk ?key = (Inr (Cached t), c)" "tokens c ?key = Some t"
    with assms False show thesis by (auto simp: gh_mint_def Let_def intro!: cached)
  next
    fix e assume "mint_reserve c clk ?key = (Inl e, c)"
    with assms False show thesis by (auto simp: gh_mint_def Let_def intro!: refused)
  next
    let ?c1 = "c\<lparr>dedupe := (dedupe c)(?key \<mapsto> clk 2), callsMade := callsMade c + 1\<rparr>"
    assume res: "mint_reserve c clk ?key = (Inr (Armed (clk 2)), ?c1)" and b: "callsMade c < callBudget c"
    obtain fr c2 w2 where fresh: "mintFresh lib server w ?c1 clk i label repos p = (fr, c2, w2)"
      by (cases "mintFresh lib server w ?c1 clk i label repos p") auto
    then have frame: "dedupe c2 = (dedupe c)(?key \<mapsto> clk 2)" "tokens c2 = tokens c"
      "callsMade c2 = callsMade c + 1" "callBudget c2 = callBudget c" "dedupeWindow c2 = dedupeWindow c"
      by (auto elim!: mintFresh_cases)
    show thesis
    proof (cases fr)
      case (Inl e)
      with assms False res fresh have "r = Inl e" "c' = mint_fail c2 ?key (clk 2)" "w' = w2"
        by (auto simp: gh_mint_def Let_def)
      with b frame fresh Inl res show thesis by (intro failed [of e c2]) auto
    next
      case (Inr t)
      with fresh have "Repo t = label \<and> Installation t = i \<and> Permissions t = p \<and> token_value t \<noteq> []"
        by (auto elim!: mintFresh_cases dest!: mint_outcome_Inr [OF sym])
      moreover from assms False res fresh Inr have "r = Inr t" "c' = mint_store c2 ?key t"
        by (auto simp: gh_mint_def Let_def)
      ultimately show thesis using b frame by (intro minted [of t c2]) auto
    qed
  qed
qed

section \<open>A concrete client and GitHub\<close>

text \<open>
  Used by the witnesses: every key parses, every signature succeeds, and GitHub grants the token
  \<open>tok\<close>, valid for an hour after the epoch, counting the requests it got.
\<close>

definition demo_lib :: "nat rsa_lib" where
  "demo_lib = \<lparr>pem_Decode = Some, ParsePKCS1 = (\<lambda>_. Some 1), ParsePKCS8 = (\<lambda>_. None),
     SignRS256 = (\<lambda>k s. Some ''sig'')\<rparr>"

definition demo_server :: "nat gh_server" where
  "demo_server n rq = (Responded \<lparr>rs_status = 201, rs_rate_remaining = ''4999'', rs_body = Some ''{\"token\":\"tok\",\"expires_at\":\"1970-01-01T01:00:00Z\"}''\<rparr>, Suc n)"

definition down_server :: "nat gh_server" where
  "down_server n rq = (DoFailed, Suc n)"

definition demo_config :: gh_config where
  "demo_config = \<lparr>cfg_AppID = 12, cfg_PrivateKeyPEM = ''pem'', cfg_BaseURL = [],
     cfg_CallBudget = 0, cfg_DedupeWindow = 0, cfg_RateLimitFloor = 0\<rparr>"

definition demo_client :: "nat gh_client" where
  "demo_client = \<lparr>appID = 12, app_key = 1, baseURL = DefaultBaseURL, callBudget = 500,
     dedupeWindow = 5 * minute, rateLimitFloor = 50, callsMade = 0, rateRemaining = 0,
     rateKnown = False, dedupe = Map.empty, tokens = Map.empty\<rparr>"

lemma demo_New: "gh_New demo_lib demo_config = Inr demo_client"
  by (simp add: gh_New_def demo_config_def demo_client_def demo_lib_def parsePrivateKey_def
      DefaultCallBudget_def DefaultDedupeWindow_def DefaultRateLimitFloor_def DefaultBaseURL_def
      TrimSuffix_def HasSuffix_def suffix_to_prefix)

definition demo_perms :: permissions where "demo_perms = [(''issues'', ''write''), (''contents'', ''read'')]"

definition demo_mint where
  "demo_mint = gh_mint demo_lib demo_server 0 demo_client (\<lambda>_. 0) 7 ''acme/site'' [''site''] demo_perms"

definition demo_token :: gh_token where
  "demo_token = \<lparr>token_value = ''tok'', Repo = ''acme/site'', Permissions = demo_perms,
     Installation = 7, MintedAt = 0, ExpiresAt = hour\<rparr>"

lemma demo_mint_token: "fst demo_mint = Inr demo_token"
  by code_simp

lemma demo_token_valid: "\<not> token_Expired (demo_token\<lparr>Repo := r\<rparr>) minute minute" "\<not> token_Expired demo_token minute minute"
  by (simp_all add: demo_token_def token_Expired_def hour_def minute_def second_def)

lemma demo_mint_run: "demo_mint = (Inr demo_token, fst (snd demo_mint), snd (snd demo_mint))"
  using demo_mint_token by (metis prod.collapse)

definition demo_failed where
  "demo_failed = gh_mint demo_lib down_server 0 demo_client (\<lambda>_. 0) 7 ''acme/site'' [''site''] demo_perms"

section \<open>What a caller may rely on\<close>

definition plain_label :: "string \<Rightarrow> bool" where
  "plain_label l \<longleftrightarrow> CHR ''|'' \<notin> set l"

lemma cacheKey_inject:
  assumes "plain_label l" and "plain_label l'" and "plain_permissions p" and "plain_permissions p'"
    and "cacheKey i l p = cacheKey i' l' p'"
  shows "i = i' \<and> l = l' \<and> map_of p = map_of p'"
proof -
  have bar: "CHR ''|'' \<notin> set (show_int j)" for j
    by (auto dest: show_int_set)
  from assms(5) have "show_int i @ CHR ''|'' # (l @ CHR ''|'' # permissions_key p)
      = show_int i' @ CHR ''|'' # (l' @ CHR ''|'' # permissions_key p')"
    by (simp add: cacheKey_def)
  then have i: "show_int i = show_int i'"
    and rest: "l @ CHR ''|'' # permissions_key p = l' @ CHR ''|'' # permissions_key p'"
    using append_sep_eq_iff [OF bar bar] by blast+
  from rest have "l = l'" and "permissions_key p = permissions_key p'"
    using assms(1,2) append_sep_eq_iff [of "CHR ''|''" l l'] by (auto simp: plain_label_def)
  with i permissions_key_inject [OF assms(3,4)] show ?thesis
    by simp
qed

text \<open>The cache invariant: every entry is filed under its own identity and carries a value.\<close>

definition cache_ok :: "'k gh_client \<Rightarrow> bool" where
  "cache_ok c \<longleftrightarrow> (\<forall>key t. tokens c key = Some t \<longrightarrow>
     key = cacheKey (Installation t) (Repo t) (Permissions t) \<and> token_value t \<noteq> []
     \<and> plain_label (Repo t) \<and> plain_permissions (Permissions t))"

lemma cache_okD:
  "cache_ok c \<Longrightarrow> tokens c key = Some t \<Longrightarrow>
     key = cacheKey (Installation t) (Repo t) (Permissions t) \<and> token_value t \<noteq> []
     \<and> plain_label (Repo t) \<and> plain_permissions (Permissions t)"
  by (simp add: cache_ok_def)

lemma gh_New_cache_ok: "gh_New lib config = Inr c \<Longrightarrow> cache_ok c"
  by (auto simp: gh_New_def cache_ok_def go_result)

lemma mint_body_read: "parse_doc (mint_body repos perms) = Some (sanitise_json (mint_json repos perms))"
  unfolding mint_body_def
  by (rule parse_doc_print)
    (auto simp: mint_json_def omit_empty_def wf_members_iff wf_elems_iff wf_json_map list_all_iff split: prod.splits)

text \<open>A token that is not from the cache is from the answer to a request of this call.\<close>

lemma gh_mint_asked:
  assumes "gh_mint lib server w c clk i label repos p = (Inr t, c', w')"
  shows "tokens c (cacheKey i label p) = Some t \<and> w' = w
    \<or> (\<exists>rq out. server w rq = (out, w') \<and> mint_outcome i label p (clk 4) out = Inr t \<and> rq_body rq = mint_body repos p)"
proof -
  let ?key = "cacheKey i label p"
  have valid: "\<not> i \<le> 0" "p \<noteq> []" using assms by (auto simp: gh_mint_def split: if_splits)
  show ?thesis
  proof (rule mint_reserve_cases [of c clk ?key])
    fix t' assume "mint_reserve c clk ?key = (Inr (Cached t'), c)" "tokens c ?key = Some t'"
    with assms valid show ?thesis by (simp add: gh_mint_def Let_def)
  next
    fix e assume "mint_reserve c clk ?key = (Inl e, c)"
    with assms valid show ?thesis by (simp add: gh_mint_def Let_def)
  next
    let ?c1 = "c\<lparr>dedupe := (dedupe c)(?key \<mapsto> clk 2), callsMade := callsMade c + 1\<rparr>"
    assume "mint_reserve c clk ?key = (Inr (Armed (clk 2)), ?c1)"
    with assms valid obtain c2 where "mintFresh lib server w ?c1 clk i label repos p = (Inr t, c2, w')"
      by (auto simp: gh_mint_def Let_def split: prod.splits sum.splits)
    then obtain jwt out where "server w (mint_request ?c1 i repos p jwt) = (out, w')" "mint_outcome i label p (clk 4) out = Inr t"
      by (auto simp: mintFresh_def split: sum.splits prod.splits)
    then show ?thesis by (intro disjI2 exI [of _ "mint_request ?c1 i repos p jwt"] exI [of _ out]) (simp add: mint_request_def)
  qed
qed



text \<open>When a refusal is a dedupe rejection.\<close>

lemma mint_reserve_duplicate:
  assumes "mint_reserve c clk key = (Inl e, c1)"
  shows "gh_IsCode (Some e) CodeDuplicateRead \<longleftrightarrow>
    0 < dedupeWindow c \<and> (\<exists>a. dedupe c key = Some a \<and> time_Sub (clk 1) a < dedupeWindow c)"
  using assms
  by (auto simp: mint_reserve_def mint_admit_def split: option.splits if_splits)

lemma mintFresh_not_duplicate:
  assumes "mintFresh lib server w c clk i label repos p = (Inl e, c', w')"
  shows "\<not> gh_IsCode (Some e) CodeDuplicateRead"
  using assms
  by (auto simp: mintFresh_def signAppJWT_def mint_outcome_def decode_mint_def Let_def
      split: sum.splits prod.splits option.splits gh_outcome.splits if_splits)

text \<open>The window is open for \<open>key\<close>: an identical mint at \<open>now\<close> would be rejected.\<close>

definition dedupe_blocks :: "'k gh_client \<Rightarrow> string \<Rightarrow> go_time \<Rightarrow> bool" where
  "dedupe_blocks c key now \<longleftrightarrow>
     0 < dedupeWindow c \<and> (\<exists>a. dedupe c key = Some a \<and> time_Sub now a < dedupeWindow c)"

lemma dedupe_blocks_antimono: "now \<le> now' \<Longrightarrow> dedupe_blocks c key now' \<Longrightarrow> dedupe_blocks c key now"
  by (force simp: dedupe_blocks_def time_Sub_def)

lemma gh_mint_duplicate_blocks:
  assumes "gh_mint lib server w c clk i label repos p = (Inl e, c', w')"
  shows "gh_IsCode (Some e) CodeDuplicateRead \<Longrightarrow> dedupe_blocks c (cacheKey i label p) (clk 1)"
    and "\<not> gh_IsCode (Some e) CodeDuplicateRead \<Longrightarrow> 0 < i \<Longrightarrow> p \<noteq> [] \<Longrightarrow>
      \<not> dedupe_blocks c' (cacheKey i label p) (clk 1)"
proof -
  show "dedupe_blocks c (cacheKey i label p) (clk 1)" if "gh_IsCode (Some e) CodeDuplicateRead"
    using assms
  proof (cases rule: gh_mint_cases)
    case (refused e')
    with that mint_reserve_duplicate [OF refused(1)] show ?thesis
      by (auto simp: dedupe_blocks_def)
  next
    case (failed e' c2)
    with that mintFresh_not_duplicate [OF failed(9)] show ?thesis by simp
  qed (use that in auto)
  show "\<not> dedupe_blocks c' (cacheKey i label p) (clk 1)"
    if "\<not> gh_IsCode (Some e) CodeDuplicateRead" "0 < i" "p \<noteq> []"
    using assms
  proof (cases rule: gh_mint_cases)
    case (refused e')
    with that mint_reserve_duplicate [OF refused(1)] show ?thesis
      by (auto simp: dedupe_blocks_def)
  next
    case (failed e' c2)
    then show ?thesis by (auto simp: dedupe_blocks_def mint_fail_def)
  qed (use that in auto)
qed

text \<open>A failed attempt never turns into a dedupe rejection: after a call that failed for any
  reason other than the dedupe window, the identical call, made no earlier, whatever GitHub
  answers, is not rejected as a duplicate.\<close>

theorem gh_mint_retry_not_duplicate:
  assumes "gh_mint lib server w c clk i label repos p = (Inl e, c', w')"
    and "\<not> gh_IsCode (Some e) CodeDuplicateRead"
    and "clk 1 \<le> clk' 1"
    and "gh_mint lib' server' v c' clk' i label repos p = (Inl e', c'', v')"
  shows "\<not> gh_IsCode (Some e') CodeDuplicateRead"
proof
  assume dup: "gh_IsCode (Some e') CodeDuplicateRead"
  then have "dedupe_blocks c' (cacheKey i label p) (clk 1)"
    using gh_mint_duplicate_blocks(1) [OF assms(4)] assms(3) dedupe_blocks_antimono by blast
  moreover have "0 < i \<and> p \<noteq> []"
    using assms(4) dup by (cases rule: gh_mint_cases) (auto dest: mintFresh_not_duplicate)
  ultimately show False
    using gh_mint_duplicate_blocks(2) [OF assms(1)] assms(2) by blast
qed

theorem gh_mint_retry_not_duplicate_witness:
  "\<not> gh_IsCode (Some (projl (fst (gh_mint demo_lib down_server 1 (fst (snd demo_failed))
      (\<lambda>_. 1) 7 ''acme/site'' [''site''] demo_perms)))) CodeDuplicateRead"
proof -
  let ?again = "gh_mint demo_lib down_server 1 (fst (snd demo_failed)) (\<lambda>_. 1) 7
      ''acme/site'' [''site''] demo_perms"
  have e: "fst demo_failed = Inl (gh_errorf CodeTransportUnavailable ''%v'')"
    "fst ?again = Inl (gh_errorf CodeTransportUnavailable ''%v'')"
    by code_simp+
  have "demo_failed = (Inl (gh_errorf CodeTransportUnavailable ''%v''), fst (snd demo_failed), snd (snd demo_failed))"
    "?again = (Inl (projl (fst ?again)), fst (snd ?again), snd (snd ?again))"
    using e by (metis prod.collapse, metis prod.collapse sum.sel(1))
  from gh_mint_retry_not_duplicate [OF this(1) [unfolded demo_failed_def] _ _ this(2) [unfolded demo_failed_def]]
  show ?thesis by (simp add: demo_failed_def)
qed

lemma gh_mint_leaves_cached:
  assumes "gh_mint lib server w c clk i label repos p = (Inr t, c', w')"
  shows "tokens c' (cacheKey i label p) = Some t \<and> 0 < i \<and> p \<noteq> []"
proof -
  have "0 < i \<and> p \<noteq> []"
    using assms by (auto simp: gh_mint_def split: if_splits)
  with assms show ?thesis
    by (cases rule: gh_mint_cases) auto
qed

lemma gh_mint_cache_hit:
  assumes "tokens c (cacheKey i label p) = Some t" and "\<not> token_Expired t (clk 0) minute"
    and "0 < i" and "p \<noteq> []"
  shows "gh_mint lib server w c clk i label repos p = (Inr t, c, w)"
  using assms by (simp add: gh_mint_def mint_reserve_def)

text \<open>Until a minute before it expires, a minted token answers every later identical call from
  the cache: the same token, no request to GitHub, no change of the client.\<close>

theorem gh_mint_then_cached:
  assumes "gh_mint lib server w c clk i label repos p = (Inr t, c', w')"
    and "\<not> token_Expired t (clk' 0) minute"
  shows "gh_mint lib' server' v c' clk' i label repos' p = (Inr t, c', v)"
  using gh_mint_leaves_cached [OF assms(1)] assms(2) by (simp add: gh_mint_cache_hit)

theorem gh_mint_then_cached_witness:
  "gh_mint demo_lib down_server 1 (fst (snd demo_mint)) (\<lambda>_. minute) 7 ''acme/site'' []
     demo_perms = (Inr demo_token, fst (snd demo_mint), 1)"
  unfolding demo_mint_def
  by (rule gh_mint_then_cached [OF demo_mint_run [unfolded demo_mint_def]]) (rule demo_token_valid)

text \<open>The two mint calls do not cache independently: a token minted for every repository of an
  owner is served, from the cache, to a single-repository call whose repository is spelt
  \<open>owner:<name>\<close>.\<close>

theorem owner_token_served_for_repo:
  assumes "MintInstallationTokenForOwner lib server w c clk i owner p = (Inr t, c', w')"
    and "\<not> token_Expired t (clk' 0) minute"
  shows "MintInstallationToken lib' server' v c' clk' i (''owner:'' @ owner) p = (Inr t, c', v)"
proof -
  have "TrimSpace (''owner:'' @ owner) \<noteq> []"
    by (rule TrimSpace_solid [of "CHR ''o''"]) (simp_all add: solid_def ascii_space_def)
  moreover have run: "gh_mint lib server w c clk i (''owner:'' @ owner) [] p = (Inr t, c', w')"
    using assms(1) by (simp add: MintInstallationTokenForOwner_def split: if_splits)
  moreover from gh_mint_leaves_cached [OF run] assms(2)
  have "gh_mint lib' server' v c' clk' i (''owner:'' @ owner)
      [repositoryName (''owner:'' @ owner)] p = (Inr t, c', v)"
    by (intro gh_mint_cache_hit) blast+
  ultimately show ?thesis
    unfolding MintInstallationToken_def by (simp only: if_False)
qed

theorem owner_token_served_for_repo_witness:
  "\<exists>t c' w'. MintInstallationTokenForOwner demo_lib demo_server 0 demo_client (\<lambda>_. 0) 7 ''acme''
       demo_perms = (Inr t, c', w')
     \<and> MintInstallationToken demo_lib down_server 1 c' (\<lambda>_. minute) 7 ''owner:acme''
       demo_perms = (Inr t, c', 1)"
proof -
  let ?run = "MintInstallationTokenForOwner demo_lib demo_server 0 demo_client (\<lambda>_. 0) 7 ''acme'' demo_perms"
  have t: "fst ?run = Inr (demo_token\<lparr>Repo := ''owner:acme''\<rparr>)" by code_simp
  then have run: "?run = (Inr (demo_token\<lparr>Repo := ''owner:acme''\<rparr>), fst (snd ?run), snd (snd ?run))"
    by (metis prod.collapse)
  from owner_token_served_for_repo [OF this, of "\<lambda>_. minute" demo_lib down_server 1]
  have "MintInstallationToken demo_lib down_server 1 (fst (snd ?run)) (\<lambda>_. minute) 7
      ''owner:acme'' demo_perms = (Inr (demo_token\<lparr>Repo := ''owner:acme''\<rparr>), fst (snd ?run), 1)"
    using demo_token_valid by simp
  with run show ?thesis by blast
qed

text \<open>Once an answer reported a remaining rate below the floor, the client never calls GitHub
  again: every later call leaves the client and the world as they are, so the observation that
  refuses it is never replaced.\<close>

theorem gh_mint_rate_floor_sticks:
  assumes "rateKnown c" and "rateRemaining c < rateLimitFloor c"
  shows "snd (gh_mint lib server w c clk i label repos p) = (c, w)"
proof -
  obtain r c' w' where run: "gh_mint lib server w c clk i label repos p = (r, c', w')"
    by (cases "gh_mint lib server w c clk i label repos p") auto
  obtain m where "mint_reserve c clk (cacheKey i label p) = (m, c)" and "\<forall>a. m \<noteq> Inr (Armed a)"
    using assms by (cases rule: mint_reserve_cases [of c clk "cacheKey i label p"]) auto
  then show ?thesis
    by (cases m) (auto simp: gh_mint_def Let_def split: gh_reserve.splits)
qed

theorem gh_mint_rate_floor_sticks_witness:
  "snd (gh_mint demo_lib demo_server 0 (recordRateLimit demo_client ''49'') (\<lambda>_. hour) 7
      ''acme/site'' [''site''] demo_perms) = (recordRateLimit demo_client ''49'', 0)"
  by (rule gh_mint_rate_floor_sticks) code_simp+

text \<open>A constructed client has a positive call budget and rate floor and a non-negative dedupe
  window, has made no call and holds nothing; the window is off exactly when the configured one
  is negative. A construction that fails reports a configuration error.\<close>

theorem gh_New_well_formed:
  "case gh_New lib config of
     Inr c \<Rightarrow> 0 < callBudget c \<and> 0 < rateLimitFloor c \<and> 0 \<le> dedupeWindow c
       \<and> (dedupeWindow c = 0 \<longleftrightarrow> cfg_DedupeWindow config < 0)
       \<and> callsMade c = 0 \<and> \<not> rateKnown c \<and> dedupe c = Map.empty \<and> tokens c = Map.empty
   | Inl e \<Rightarrow> \<exists>k. gh_IsCode (Some e) k \<and> gh_Class k = ConfigurationClass"
proof (cases "gh_New lib config")
  case (Inr c)
  then show ?thesis
    by (auto simp: gh_New_def go_result DefaultCallBudget_def DefaultDedupeWindow_def
        DefaultRateLimitFloor_def minute_def second_def)
next
  case (Inl e)
  then have "gh_IsCode (Some e) CodeInvalidConfig \<or> gh_IsCode (Some e) CodeInvalidPrivateKey"
    by (auto simp: gh_New_def go_result parsePrivateKey_def split: option.splits)
  with Inl show ?thesis by auto
qed

end
