(* ===== verification/Go_Machine.thy ===== *)
theory Go_Machine
  imports Main
begin

text \<open>
  What the models of concurrent code share: a machine is a set of starting states and a step relation, with an invariant; an
  ending machine also has a measure that every step decreases. The clients of a shared GitHub client, the goroutines of a drain
  and the signal watcher are machines.
\<close>

locale machine =
  fixes start :: "'s \<Rightarrow> bool" and step :: "'s \<Rightarrow> 's \<Rightarrow> bool" and inv :: "'s \<Rightarrow> bool"
  assumes start_inv: "start s \<Longrightarrow> inv s"
    and step_inv: "step s s' \<Longrightarrow> inv s \<Longrightarrow> inv s'"
begin

lemma steps_inv: "rtranclp step s s' \<Longrightarrow> inv s \<Longrightarrow> inv s'"
  by (induction rule: rtranclp_induct) (auto intro: step_inv)

lemma reachable_inv: "start s \<Longrightarrow> rtranclp step s s' \<Longrightarrow> inv s'"
  using start_inv steps_inv by blast

end

locale ending_machine = machine +
  fixes left :: "'a \<Rightarrow> nat"
  assumes decreases: "inv s \<Longrightarrow> step s s' \<Longrightarrow> left s' < left s"
begin

lemma run_length: "(step ^^ n) s s' \<Longrightarrow> inv s \<Longrightarrow> n + left s' \<le> left s"
proof (induction n arbitrary: s')
  case (Suc n)
  then obtain t where t: "(step ^^ n) s t" "step t s'" by auto
  from t(1) have "rtranclp step s t" by (rule relpowp_imp_rtranclp)
  with Suc.prems(2) have "inv t" using steps_inv by blast
  with Suc.IH [OF t(1) Suc.prems(2)] decreases [OF _ t(2)] show ?case by fastforce
qed simp

lemma no_infinite_run: "inv (f 0) \<Longrightarrow> \<not> (\<forall>i. step (f i) (f (Suc i)))"
proof
  assume inv: "inv (f 0)" and run: "\<forall>i. step (f i) (f (Suc i))"
  have "(step ^^ n) (f 0) (f n)" for n by (induction n) (use run in auto)
  from run_length [OF this [of "Suc (left (f 0))"] inv] show False by simp
qed

end

end
