(* ===== verification/Github_Concurrent.thy ===== *)
theory Github_Concurrent
  imports Github_Mint Go_Machine
begin

text \<open>
  Package \<open>github\<close> under concurrent use. A \<open>Client\<close> is shared by any number of goroutines; each
  call of \<open>mint\<close> runs its three locked regions with the lock released in between, so the regions
  of different calls interleave. A state is the client, a clock that never goes back, the place
  every goroutine has reached, and the number of requests sent so far; a step is one region of
  one goroutine, GitHub answering anything, or time passing.
\<close>

record gh_call =
  call_id :: int
  call_label :: string
  call_repos :: "string list"
  call_perms :: permissions

definition call_key :: "gh_call \<Rightarrow> string" where
  "call_key call = cacheKey (call_id call) (call_label call) (call_perms call)"

datatype gh_phase =
    Idle
  | Reserved gh_call go_time
  | Sent gh_call go_time
  | Judged gh_call go_time "gh_error + gh_token"

record 'k gh_sys =
  shared :: "'k gh_client"
  clock :: go_time
  phase :: "nat \<Rightarrow> gh_phase"
  sent :: nat

inductive gh_step :: "'k rsa_lib \<Rightarrow> 'k gh_sys \<Rightarrow> 'k gh_sys \<Rightarrow> bool"
  for lib :: "'k rsa_lib" where
  tick: "clock s \<le> t \<Longrightarrow> gh_step lib s (s\<lparr>clock := t\<rparr>)"
| reserve: "phase s th = Idle \<Longrightarrow> 0 < call_id call \<Longrightarrow> call_perms call \<noteq> [] \<Longrightarrow>
    clock s \<le> clk 0 \<Longrightarrow> clk 0 \<le> clk 1 \<Longrightarrow> clk 1 \<le> clk 2 \<Longrightarrow>
    mint_reserve (shared s) clk (call_key call) = (Inr (Armed a), c') \<Longrightarrow>
    gh_step lib s (s\<lparr>shared := c', clock := clk 2, phase := (phase s)(th := Reserved call a)\<rparr>)"
| no_reserve: "phase s th = Idle \<Longrightarrow>
    clock s \<le> clk 0 \<Longrightarrow> clk 0 \<le> clk 1 \<Longrightarrow> clk 1 \<le> clk 2 \<Longrightarrow>
    mint_reserve (shared s) clk (call_key call) = (m, c') \<Longrightarrow> \<forall>a. m \<noteq> Inr (Armed a) \<Longrightarrow>
    gh_step lib s (s\<lparr>shared := c', clock := clk 2\<rparr>)"
| unsigned: "phase s th = Reserved call a \<Longrightarrow> clock s \<le> t \<Longrightarrow>
    signAppJWT lib (appID (shared s)) (app_key (shared s)) t = Inl e \<Longrightarrow>
    gh_step lib s (s\<lparr>clock := t, phase := (phase s)(th := Judged call a (Inl e))\<rparr>)"
| send: "phase s th = Reserved call a \<Longrightarrow> clock s \<le> t \<Longrightarrow>
    signAppJWT lib (appID (shared s)) (app_key (shared s)) t = Inr jwt \<Longrightarrow>
    gh_step lib s (s\<lparr>clock := t, sent := Suc (sent s), phase := (phase s)(th := Sent call a)\<rparr>)"
| answer: "phase s th = Sent call a \<Longrightarrow> clock s \<le> t \<Longrightarrow>
    gh_step lib s (s\<lparr>shared := observe_outcome (shared s) out, clock := t,
      phase := (phase s)(th := Judged call a
        (mint_outcome (call_id call) (call_label call) (call_perms call) t out))\<rparr>)"
| fail: "phase s th = Judged call a (Inl e) \<Longrightarrow>
    gh_step lib s (s\<lparr>shared := mint_fail (shared s) (call_key call) a,
      phase := (phase s)(th := Idle)\<rparr>)"
| store: "phase s th = Judged call a (Inr tok) \<Longrightarrow>
    gh_step lib s (s\<lparr>shared := mint_store (shared s) (call_key call) tok,
      phase := (phase s)(th := Idle)\<rparr>)"

inductive gh_reachable :: "'k rsa_lib \<Rightarrow> 'k gh_client \<Rightarrow> 'k gh_sys \<Rightarrow> bool"
  for lib :: "'k rsa_lib" and c0 :: "'k gh_client" where
  start: "gh_reachable lib c0 \<lparr>shared = c0, clock = t, phase = (\<lambda>_. Idle), sent = 0\<rparr>"
| step: "gh_reachable lib c0 s \<Longrightarrow> gh_step lib s s' \<Longrightarrow> gh_reachable lib c0 s'"

section \<open>The call budget\<close>

definition reserved :: "'k gh_sys \<Rightarrow> nat set" where
  "reserved s = {th. \<exists>call a. phase s th = Reserved call a}"

text \<open>
  Every request sent, and every one a goroutine may still send, was paid for when its call was
  reserved.
\<close>

definition budget_inv :: "'k gh_client \<Rightarrow> 'k gh_sys \<Rightarrow> bool" where
  "budget_inv c0 s \<longleftrightarrow> finite (reserved s) \<and> callBudget (shared s) = callBudget c0
     \<and> int (sent s) + int (card (reserved s)) \<le> callsMade (shared s)
     \<and> callsMade (shared s) \<le> callBudget c0"

lemma reserved_upd:
  "reserved (s\<lparr>phase := (phase s)(th := x)\<rparr>) =
     (if \<exists>call a. x = Reserved call a then insert th (reserved s) else reserved s - {th})"
  by (auto simp: reserved_def)

lemma reserved_cong: "phase s = phase s' \<Longrightarrow> reserved s = reserved s'"
  by (simp add: reserved_def)

lemma mint_reserve_armed:
  assumes "mint_reserve c clk key = (Inr (Armed a), c')"
  shows "a = clk 2 \<and> c' = c\<lparr>dedupe := (dedupe c)(key \<mapsto> clk 2), callsMade := callsMade c + 1\<rparr>
    \<and> callsMade c < callBudget c \<and>
    (\<forall>b. 0 < dedupeWindow c \<longrightarrow> dedupe c key = Some b \<longrightarrow> dedupeWindow c \<le> clk 1 - b)"
  using assms
  by (auto simp: mint_reserve_def mint_admit_def time_Sub_def min_duration_def
      split: option.splits if_splits)

lemma mint_reserve_not_armed:
  "mint_reserve c clk key = (m, c') \<Longrightarrow> \<forall>a. m \<noteq> Inr (Armed a) \<Longrightarrow> c' = c"
  by (auto simp: mint_reserve_def mint_admit_def split: option.splits if_splits)

lemma gh_step_budget_inv:
  assumes "gh_step lib s s'" and inv: "budget_inv c0 s"
  shows "budget_inv c0 s'"
  using assms(1)
proof cases
  case (tick t)
  with inv show ?thesis by (simp add: budget_inv_def reserved_def)
next
  case (reserve th call clk a c')
  have r: "reserved s' = insert th (reserved s)" "th \<notin> reserved s"
    using reserve by (auto simp: reserved_def)
  with inv reserve mint_reserve_armed [OF reserve(8)] show ?thesis
    by (auto simp: budget_inv_def)
next
  case (no_reserve th clk call m c')
  with inv mint_reserve_not_armed show ?thesis
    by (fastforce simp: budget_inv_def reserved_def)
next
  case (unsigned th call a t e)
  have "reserved s' = reserved s - {th}"
    using unsigned by (auto simp: reserved_def)
  moreover have "card (reserved s - {th}) \<le> card (reserved s)"
    by (rule card_Diff1_le)
  ultimately show ?thesis using inv unsigned by (auto simp: budget_inv_def)
next
  case (send th call a t jwt)
  have "reserved s' = reserved s - {th}" and th: "th \<in> reserved s"
    using send by (auto simp: reserved_def)
  moreover have "card (reserved s) = Suc (card (reserved s - {th}))"
    using inv th by (intro card.remove) (auto simp: budget_inv_def)
  ultimately show ?thesis using inv send by (auto simp: budget_inv_def)
next
  case (answer th call a t out)
  have "reserved s' = reserved s"
    using answer by (auto simp: reserved_def)
  with inv answer show ?thesis by (simp add: budget_inv_def)
next
  case (fail th call a e)
  have "reserved s' = reserved s"
    using fail by (auto simp: reserved_def)
  with inv fail show ?thesis by (simp add: budget_inv_def)
next
  case (store th call a tok)
  have "reserved s' = reserved s"
    using store by (auto simp: reserved_def)
  with inv store show ?thesis by (simp add: budget_inv_def)
qed

text \<open>The system is a machine, with the budget as an invariant.\<close>

definition gh_start :: "'k gh_client \<Rightarrow> 'k gh_sys \<Rightarrow> bool" where
  "gh_start c0 s \<longleftrightarrow> (\<exists>t. s = \<lparr>shared = c0, clock = t, phase = (\<lambda>_. Idle), sent = 0\<rparr>)"

lemma gh_reachable_steps: "gh_reachable lib c0 s \<Longrightarrow> \<exists>s0. gh_start c0 s0 \<and> rtranclp (gh_step lib) s0 s"
proof (induction rule: gh_reachable.induct)
  case (start t)
  then show ?case by (auto simp: gh_start_def)
next
  case (step s s')
  then show ?case by (meson rtranclp.rtrancl_into_rtrancl)
qed

definition new_client :: "'k gh_client \<Rightarrow> bool" where
  "new_client c0 \<longleftrightarrow> callsMade c0 = 0 \<and> 0 \<le> callBudget c0"

interpretation budget: machine "\<lambda>s. new_client c0 \<and> gh_start c0 s" "gh_step lib" "budget_inv c0" for c0 lib
proof
  show "budget_inv c0 s" if "new_client c0 \<and> gh_start c0 s" for s :: "'a gh_sys"
    using that by (auto simp: new_client_def gh_start_def budget_inv_def reserved_def)
qed (rule gh_step_budget_inv)

lemma gh_reachable_budget_inv:
  assumes "gh_reachable lib c0 s" and "callsMade c0 = 0" and "0 \<le> callBudget c0"
  shows "budget_inv c0 s"
proof -
  obtain s0 where "gh_start c0 s0" "rtranclp (gh_step lib) s0 s" using gh_reachable_steps [OF assms(1)] by blast
  then show ?thesis using budget.reachable_inv [of c0 s0 lib s] assms(2,3) by (simp add: new_client_def)
qed

section \<open>Deduplication\<close>

fun in_flight :: "gh_phase \<Rightarrow> (gh_call \<times> go_time) option" where
  "in_flight Idle = None"
| "in_flight (Reserved call a) = Some (call, a)"
| "in_flight (Sent call a) = Some (call, a)"
| "in_flight (Judged call a r) = Some (call, a)"

text \<open>
  A call in flight is covered by the dedupe entry of its key (its own or a later one), or it was
  armed a whole window ago; two calls in flight for one key were armed a window apart.
\<close>

definition dedupe_inv :: "'k gh_client \<Rightarrow> 'k gh_sys \<Rightarrow> bool" where
  "dedupe_inv c0 s \<longleftrightarrow> dedupeWindow (shared s) = dedupeWindow c0
     \<and> (\<forall>th call a. in_flight (phase s th) = Some (call, a) \<longrightarrow> a \<le> clock s \<and>
          ((\<exists>b. dedupe (shared s) (call_key call) = Some b \<and> a \<le> b)
           \<or> a + dedupeWindow c0 \<le> clock s))
     \<and> (\<forall>th th' call call' a a'. th \<noteq> th' \<longrightarrow> in_flight (phase s th) = Some (call, a) \<longrightarrow>
          in_flight (phase s th') = Some (call', a') \<longrightarrow> call_key call = call_key call' \<longrightarrow>
          a + dedupeWindow c0 \<le> a' \<or> a' + dedupeWindow c0 \<le> a)"

lemma dedupe_invI:
  assumes "dedupeWindow (shared s) = dedupeWindow c0"
    and "\<And>th call a. in_flight (phase s th) = Some (call, a) \<Longrightarrow> a \<le> clock s \<and>
          ((\<exists>b. dedupe (shared s) (call_key call) = Some b \<and> a \<le> b)
           \<or> a + dedupeWindow c0 \<le> clock s)"
    and "\<And>th th' call call' a a'. th \<noteq> th' \<Longrightarrow> in_flight (phase s th) = Some (call, a) \<Longrightarrow>
          in_flight (phase s th') = Some (call', a') \<Longrightarrow> call_key call = call_key call' \<Longrightarrow>
          a + dedupeWindow c0 \<le> a' \<or> a' + dedupeWindow c0 \<le> a"
  shows "dedupe_inv c0 s"
  using assms unfolding dedupe_inv_def by blast

lemma dedupe_inv_covered:
  "dedupe_inv c0 s \<Longrightarrow> in_flight (phase s th) = Some (call, a) \<Longrightarrow> a \<le> clock s \<and>
     ((\<exists>b. dedupe (shared s) (call_key call) = Some b \<and> a \<le> b) \<or> a + dedupeWindow c0 \<le> clock s)"
  unfolding dedupe_inv_def by blast

lemma dedupe_inv_apart:
  "dedupe_inv c0 s \<Longrightarrow> th \<noteq> th' \<Longrightarrow> in_flight (phase s th) = Some (call, a) \<Longrightarrow>
     in_flight (phase s th') = Some (call', a') \<Longrightarrow> call_key call = call_key call' \<Longrightarrow>
     a + dedupeWindow c0 \<le> a' \<or> a' + dedupeWindow c0 \<le> a"
  unfolding dedupe_inv_def by blast

text \<open>A step that keeps every call in flight, the window and the entries, and moves the clock on.\<close>

lemma dedupe_inv_frame:
  assumes inv: "dedupe_inv c0 s"
    and "dedupeWindow (shared s') = dedupeWindow (shared s)" and "dedupe (shared s') = dedupe (shared s)"
    and "clock s \<le> clock s'"
    and fl: "\<And>th x. in_flight (phase s' th) = Some x \<Longrightarrow> in_flight (phase s th) = Some x"
  shows "dedupe_inv c0 s'"
proof (rule dedupe_invI)
  show "dedupeWindow (shared s') = dedupeWindow c0"
    using inv assms(2) by (simp add: dedupe_inv_def)
next
  fix th call a assume "in_flight (phase s' th) = Some (call, a)"
  from dedupe_inv_covered [OF inv fl [OF this]] assms(3,4)
  show "a \<le> clock s' \<and> ((\<exists>b. dedupe (shared s') (call_key call) = Some b \<and> a \<le> b)
      \<or> a + dedupeWindow c0 \<le> clock s')"
    by auto
next
  fix th th' call call' a a'
  assume "th \<noteq> th'" "in_flight (phase s' th) = Some (call, a)"
    "in_flight (phase s' th') = Some (call', a')" "call_key call = call_key call'"
  with dedupe_inv_apart [OF inv] fl
  show "a + dedupeWindow c0 \<le> a' \<or> a' + dedupeWindow c0 \<le> a" by blast
qed

lemma dedupe_inv_reserve:
  assumes inv: "dedupe_inv c0 s" and w: "0 < dedupeWindow c0"
    and idle: "phase s th0 = Idle" and clk: "clock s \<le> clk 0" "clk 0 \<le> clk 1" "clk 1 \<le> clk 2"
    and res: "mint_reserve (shared s) clk (call_key call0) = (Inr (Armed a0), c')"
  shows "dedupe_inv c0 (s\<lparr>shared := c', clock := clk 2, phase := (phase s)(th0 := Reserved call0 a0)\<rparr>)"
    (is "dedupe_inv c0 ?s'")
proof -
  have win: "dedupeWindow (shared s) = dedupeWindow c0"
    using inv by (simp add: dedupe_inv_def)
  note armed = mint_reserve_armed [OF res]
  have a0: "a0 = clk 2" and c': "c' = (shared s)\<lparr>dedupe := (dedupe (shared s))(call_key call0 \<mapsto> clk 2),
      callsMade := callsMade (shared s) + 1\<rparr>"
    using armed by blast+
  have old: "a + dedupeWindow c0 \<le> clk 2"
    if fl: "in_flight (phase s th) = Some (call, a)" and k: "call_key call = call_key call0" for th call a
  proof -
    from dedupe_inv_covered [OF inv fl]
    consider b where "dedupe (shared s) (call_key call0) = Some b" "a \<le> b" | "a + dedupeWindow c0 \<le> clock s"
      using k by auto
    then show ?thesis
    proof cases
      case (1 b)
      with armed win w have "dedupeWindow c0 \<le> clk 1 - b" by auto
      with 1 clk show ?thesis by linarith
    next
      case 2
      with clk show ?thesis by linarith
    qed
  qed
  show ?thesis
  proof (rule dedupe_invI)
    show "dedupeWindow (shared ?s') = dedupeWindow c0"
      using c' win by simp
  next
    fix th call a assume fl: "in_flight (phase ?s' th) = Some (call, a)"
    show "a \<le> clock ?s' \<and> ((\<exists>b. dedupe (shared ?s') (call_key call) = Some b \<and> a \<le> b)
        \<or> a + dedupeWindow c0 \<le> clock ?s')"
    proof (cases "th = th0")
      case True
      with fl a0 c' show ?thesis by auto
    next
      case False
      with fl have fl: "in_flight (phase s th) = Some (call, a)" by simp
      show ?thesis
        using dedupe_inv_covered [OF inv fl] old [OF fl] clk c' by (auto split: if_splits)
    qed
  next
    fix th th' call call' a a'
    assume "th \<noteq> th'" "in_flight (phase ?s' th) = Some (call, a)"
      "in_flight (phase ?s' th') = Some (call', a')" "call_key call = call_key call'"
    then show "a + dedupeWindow c0 \<le> a' \<or> a' + dedupeWindow c0 \<le> a"
      using dedupe_inv_apart [OF inv] old a0 by (auto split: if_splits)
  qed
qed

lemma dedupe_inv_fail:
  assumes inv: "dedupe_inv c0 s" and w: "0 < dedupeWindow c0"
    and mine: "in_flight (phase s th0) = Some (call0, a0)"
  shows "dedupe_inv c0 (s\<lparr>shared := mint_fail (shared s) (call_key call0) a0,
      phase := (phase s)(th0 := Idle)\<rparr>)" (is "dedupe_inv c0 ?s'")
proof (rule dedupe_invI)
  show "dedupeWindow (shared ?s') = dedupeWindow c0"
    using inv by (simp add: dedupe_inv_def)
next
  fix th call a assume fl': "in_flight (phase ?s' th) = Some (call, a)"
  then have ne: "th \<noteq> th0" and fl: "in_flight (phase s th) = Some (call, a)"
    by (auto split: if_splits)
  note cov = dedupe_inv_covered [OF inv fl]
  show "a \<le> clock ?s' \<and> ((\<exists>b. dedupe (shared ?s') (call_key call) = Some b \<and> a \<le> b)
      \<or> a + dedupeWindow c0 \<le> clock ?s')"
  proof (cases "call_key call = call_key call0 \<and> dedupe (shared s) (call_key call0) = Some a0")
    case True
    then have "a + dedupeWindow c0 \<le> a0 \<or> a0 + dedupeWindow c0 \<le> a"
      using dedupe_inv_apart [OF inv ne fl mine] by simp
    with True cov w have "a + dedupeWindow c0 \<le> clock s"
      using dedupe_inv_covered [OF inv mine] by auto
    with cov show ?thesis by simp
  next
    case False
    then have "dedupe (mint_fail (shared s) (call_key call0) a0) (call_key call)
        = dedupe (shared s) (call_key call)"
      by (auto simp: mint_fail_def)
    with cov show ?thesis by simp
  qed
next
  fix th th' call call' a a'
  assume "th \<noteq> th'" "in_flight (phase ?s' th) = Some (call, a)"
    "in_flight (phase ?s' th') = Some (call', a')" "call_key call = call_key call'"
  then show "a + dedupeWindow c0 \<le> a' \<or> a' + dedupeWindow c0 \<le> a"
    using dedupe_inv_apart [OF inv] by (auto split: if_splits)
qed

lemma gh_step_dedupe_inv:
  assumes "gh_step lib s s'" and inv: "dedupe_inv c0 s" and w: "0 < dedupeWindow c0"
  shows "dedupe_inv c0 s'"
  using assms(1)
proof cases
  case (reserve th call clk a c')
  with dedupe_inv_reserve [OF inv w] show ?thesis by blast
next
  case (fail th call a e)
  with dedupe_inv_fail [OF inv w] show ?thesis by simp
next
  case (no_reserve th clk call m c')
  have "c' = shared s"
    using no_reserve(6,7) by (rule mint_reserve_not_armed)
  moreover have "clock s \<le> clk 2"
    using no_reserve(3-5) by linarith
  ultimately show ?thesis
    by (intro dedupe_inv_frame [OF inv]) (simp_all add: no_reserve(1))
next
  case (tick t)
  then show ?thesis by (intro dedupe_inv_frame [OF inv]) simp_all
next
  case (unsigned th call a t e)
  then show ?thesis by (intro dedupe_inv_frame [OF inv]) (simp_all split: if_splits)
next
  case (send th call a t jwt)
  then show ?thesis by (intro dedupe_inv_frame [OF inv]) (simp_all split: if_splits)
next
  case (answer th call a t out)
  then show ?thesis by (intro dedupe_inv_frame [OF inv]) (simp_all split: if_splits)
next
  case (store th call a tok)
  then show ?thesis by (intro dedupe_inv_frame [OF inv]) (simp_all split: if_splits)
qed

interpretation window: machine "\<lambda>s. 0 < dedupeWindow c0 \<and> gh_start c0 s" "gh_step lib"
  "\<lambda>s. 0 < dedupeWindow c0 \<and> dedupe_inv c0 s" for c0 lib
proof
  show "0 < dedupeWindow c0 \<and> dedupe_inv c0 s" if "0 < dedupeWindow c0 \<and> gh_start c0 s" for s :: "'a gh_sys"
    using that by (auto simp: gh_start_def dedupe_inv_def)
  show "0 < dedupeWindow c0 \<and> dedupe_inv c0 s'" if "gh_step lib s s'" "0 < dedupeWindow c0 \<and> dedupe_inv c0 s" for s s'
    using that gh_step_dedupe_inv by blast
qed

lemma gh_reachable_dedupe_inv:
  assumes "gh_reachable lib c0 s" and "0 < dedupeWindow c0"
  shows "dedupe_inv c0 s"
proof -
  obtain s0 where "gh_start c0 s0" "rtranclp (gh_step lib) s0 s" using gh_reachable_steps [OF assms(1)] by blast
  then show ?thesis using window.reachable_inv [of c0 s0 lib s] assms(2) by simp
qed

section \<open>What concurrent callers may rely on\<close>

text \<open>C9: However the goroutines sharing a constructed client interleave and whatever GitHub
  answers, the client never sends more requests than its call budget.\<close>

theorem concurrent_requests_within_budget:
  assumes "gh_New lib config = Inr c0" and "gh_reachable lib c0 s"
  shows "int (sent s) \<le> callBudget c0"
proof -
  have "callsMade c0 = 0 \<and> 0 \<le> callBudget c0"
    using assms(1) by (auto simp: gh_New_def go_result DefaultCallBudget_def)
  with gh_reachable_budget_inv [OF assms(2)] show ?thesis
    by (auto simp: budget_inv_def)
qed

text \<open>A run for the witnesses: two goroutines reserve the same mint, a window apart.\<close>

definition demo_call :: gh_call where
  "demo_call = \<lparr>call_id = 7, call_label = ''acme/site'', call_repos = [''site''], call_perms = demo_perms\<rparr>"

definition demo_sys :: "nat gh_sys" where
  "demo_sys =
     (let c1 = snd (mint_reserve demo_client (\<lambda>_. 0) (call_key demo_call));
          c2 = snd (mint_reserve c1 (\<lambda>_. 5 * minute) (call_key demo_call))
      in \<lparr>shared = c2, clock = 5 * minute,
          phase = ((\<lambda>_. Idle)(0 := Sent demo_call 0, 1 := Reserved demo_call (5 * minute))), sent = 1\<rparr>)"

lemma demo_sys_reachable: "gh_reachable demo_lib demo_client demo_sys"
proof -
  let ?key = "call_key demo_call"
  let ?c1 = "snd (mint_reserve demo_client (\<lambda>_. 0) ?key)"
  let ?c2 = "snd (mint_reserve ?c1 (\<lambda>_. 5 * minute) ?key)"
  let ?s0 = "\<lparr>shared = demo_client, clock = 0, phase = (\<lambda>_. Idle), sent = 0\<rparr>"
  let ?s1 = "?s0\<lparr>shared := ?c1, clock := 0, phase := (phase ?s0)(0 := Reserved demo_call 0)\<rparr>"
  let ?s2 = "?s1\<lparr>clock := 0, sent := Suc (sent ?s1), phase := (phase ?s1)(0 := Sent demo_call 0)\<rparr>"
  let ?s3 = "?s2\<lparr>shared := ?c2, clock := 5 * minute,
      phase := (phase ?s2)(1 := Reserved demo_call (5 * minute))\<rparr>"
  have m: "mint_reserve demo_client (\<lambda>_. 0) ?key = (Inr (Armed 0), ?c1)"
    "mint_reserve ?c1 (\<lambda>_. 5 * minute) ?key = (Inr (Armed (5 * minute)), ?c2)"
    by (simp_all add: mint_reserve_def mint_admit_def demo_client_def time_Sub_def min_duration_def
        max_duration_def minute_def second_def)
  have pos: "0 < call_id demo_call" "call_perms demo_call \<noteq> []"
    by (simp_all add: demo_call_def demo_perms_def)
  have r0: "gh_reachable demo_lib demo_client ?s0" by (rule gh_reachable.start)
  have r1: "gh_reachable demo_lib demo_client ?s1"
    by (rule gh_reachable.step [OF r0 gh_step.reserve [of _ 0 demo_call "\<lambda>_. 0"]]) (use m pos in simp_all)
  have r2: "gh_reachable demo_lib demo_client ?s2"
    by (rule gh_reachable.step [OF r1 gh_step.send])
      (simp_all add: signAppJWT_def demo_lib_def Let_def)
  have r3: "gh_reachable demo_lib demo_client ?s3"
    by (rule gh_reachable.step [OF r2 gh_step.reserve [of _ 1 demo_call "\<lambda>_. 5 * minute"]])
      (use m pos in \<open>simp_all add: minute_def second_def\<close>)
  moreover have "?s3 = demo_sys"
    by (simp add: demo_sys_def Let_def)
  ultimately show ?thesis by simp
qed

theorem concurrent_requests_within_budget_witness:
  "int (sent demo_sys) \<le> callBudget demo_client \<and> sent demo_sys = 1"
  using concurrent_requests_within_budget [OF demo_New demo_sys_reachable]
  by (simp add: demo_sys_def Let_def)

text \<open>C1: With a dedupe window configured, two goroutines that are both minting for the same
  installation, label and permissions were admitted at least a window apart, whatever failures
  and later mints of the same key happened in between.\<close>

theorem concurrent_mints_apart:
  assumes "gh_reachable lib c0 s" and "0 < dedupeWindow c0" and "th \<noteq> th'"
    and "in_flight (phase s th) = Some (call, a)" and "in_flight (phase s th') = Some (call', a')"
    and "call_key call = call_key call'"
  shows "dedupeWindow c0 \<le> \<bar>a - a'\<bar>"
  using dedupe_inv_apart [OF gh_reachable_dedupe_inv [OF assms(1,2)] assms(3-6)] by linarith

theorem concurrent_mints_apart_witness: "dedupeWindow demo_client \<le> \<bar>0 - 5 * minute\<bar>"
  by (rule concurrent_mints_apart [OF demo_sys_reachable, of 0 1 demo_call 0 demo_call])
    (simp_all add: demo_sys_def Let_def demo_client_def minute_def second_def)

end
