(* ===== verification/Fulcrum_Types.thy ===== *)
theory Fulcrum_Types
  imports Go_Errors Go_Json "HOL-Library.Word"
begin

text \<open>
  Package \<open>fulcrumprojects\<close>, the values: \<open>errors.go\<close> (codes, classes, \<open>IsCode\<close>), the wire shapes
  and their decoding, mutation ids and statuses of \<open>envelope.go\<close>, and the mutation builders of
  \<open>mutations.go\<close>.

  An error's text is the source's format string, its arguments not expanded. \<open>crypto/rand\<close> is
  an argument: the sixteen bytes of each id. A \<open>json.RawMessage\<close> that is decoded is the parsed
  value, \<open>None\<close> when the member is absent; one that is sent is its text.
\<close>

section \<open>errors.go\<close>

datatype fp_code =
    FPInvalidConfig | FPInvalidRequest | FPUnauthorized | FPForbidden
  | FPEpochMismatch | FPConflict
  | FPTransportUnavailable | FPRateLimited | FPUnexpectedResponse

datatype fp_class = FPConfiguration | FPSync | FPTransport

fun fp_Class :: "fp_code \<Rightarrow> fp_class" where
  "fp_Class FPInvalidConfig = FPConfiguration"
| "fp_Class FPInvalidRequest = FPConfiguration"
| "fp_Class FPUnauthorized = FPConfiguration"
| "fp_Class FPForbidden = FPConfiguration"
| "fp_Class FPEpochMismatch = FPSync"
| "fp_Class FPConflict = FPSync"
| "fp_Class _ = FPTransport"

text \<open>The package's \<open>*Error\<close> carries a code and an HTTP status; \<open>IsCode\<close> looks at the code.\<close>

type_synonym fp_error = "(fp_code \<times> int) go_error"

definition fp_errorf :: "fp_code \<Rightarrow> int \<Rightarrow> string \<Rightarrow> fp_error" where
  "fp_errorf c status format = coded (c, status) format"

definition fp_IsCode :: "fp_error option \<Rightarrow> fp_code \<Rightarrow> bool" where
  "fp_IsCode err k = (case err of None \<Rightarrow> False | Some e \<Rightarrow> chain_has_code (map_go_error fst e) k)"

interpretation fp_err: coded_errors "\<lambda>c. fp_errorf c status" fp_IsCode for status
  by unfold_locales (simp_all add: fp_IsCode_def fp_errorf_def coded_def)

lemma fp_IsCode_errorf [simp]: "fp_IsCode (Some (fp_errorf c status m)) k \<longleftrightarrow> c = k"
  by (rule fp_err.is_code_mk)

section \<open>envelope.go: what is read\<close>

record snapshot_data =
  Members :: "json option"
  Projects :: "json option"
  ProjectMembers :: "json option"
  ProjectTasks :: "json option"
  ProjectTaskComments :: "json option"
  DailyProjectTaskLinks :: "json option"
  DailyTasks :: "json option"
  TodoItems :: "json option"
  DailyRoutines :: "json option"
  DailyRoutineOccurrences :: "json option"
  DailyRoutineWorking :: "json option"
  DailyRecordingPlans :: "json option"
  AssignedTasks :: "json option"
  AssignedTaskUpdates :: "json option"
  People :: "json option"
  PersonEvents :: "json option"

record snapshot =
  Epoch :: int
  Date :: string
  Cursor :: int
  Data :: snapshot_data

record change =
  Seq :: int
  Collection :: string
  EntityID :: string
  Op :: string
  ChangeEntity :: "json option"
  ActorMemberID :: int
  At :: string

record changes =
  ChangesEpoch :: int
  ChangesCursor :: int
  ChangeList :: "change list"

record answer =
  Outcome :: string
  AnswerValue :: "json option"

datatype fp_result = Result
  (ResultID: string) (ResultStatus: string) (Entity: "json option") (ResultAnswer: "answer option")
  (ServerState: "json option") (LosingIntent: "json option") (Message: string)
  (OriginalResult: "fp_result option")

definition empty_data :: snapshot_data where
  "empty_data = \<lparr>Members = None, Projects = None, ProjectMembers = None, ProjectTasks = None,
     ProjectTaskComments = None, DailyProjectTaskLinks = None, DailyTasks = None, TodoItems = None,
     DailyRoutines = None, DailyRoutineOccurrences = None, DailyRoutineWorking = None,
     DailyRecordingPlans = None, AssignedTasks = None, AssignedTaskUpdates = None, People = None,
     PersonEvents = None\<rparr>"

definition empty_snapshot :: snapshot where
  "empty_snapshot = \<lparr>Epoch = 0, Date = [], Cursor = 0, Data = empty_data\<rparr>"

definition empty_change :: change where
  "empty_change = \<lparr>Seq = 0, Collection = [], EntityID = [], Op = [], ChangeEntity = None,
     ActorMemberID = 0, At = []\<rparr>"

definition empty_changes :: changes where
  "empty_changes = \<lparr>ChangesEpoch = 0, ChangesCursor = 0, ChangeList = []\<rparr>"

definition empty_answer :: answer where
  "empty_answer = \<lparr>Outcome = [], AnswerValue = None\<rparr>"

definition empty_result :: fp_result where
  "empty_result = Result [] [] None None None None [] None"

text \<open>The struct tags.\<close>

definition data_fields :: "(string \<times> snapshot_data setter) list" where
  "data_fields =
    [(''members'', set_raw (\<lambda>v. Members_update (\<lambda>_. Some v))),
     (''projects'', set_raw (\<lambda>v. Projects_update (\<lambda>_. Some v))),
     (''projectMembers'', set_raw (\<lambda>v. ProjectMembers_update (\<lambda>_. Some v))),
     (''projectTasks'', set_raw (\<lambda>v. ProjectTasks_update (\<lambda>_. Some v))),
     (''projectTaskComments'', set_raw (\<lambda>v. ProjectTaskComments_update (\<lambda>_. Some v))),
     (''dailyProjectTaskLinks'', set_raw (\<lambda>v. DailyProjectTaskLinks_update (\<lambda>_. Some v))),
     (''dailyTasks'', set_raw (\<lambda>v. DailyTasks_update (\<lambda>_. Some v))),
     (''todoItems'', set_raw (\<lambda>v. TodoItems_update (\<lambda>_. Some v))),
     (''dailyRoutines'', set_raw (\<lambda>v. DailyRoutines_update (\<lambda>_. Some v))),
     (''dailyRoutineOccurrences'', set_raw (\<lambda>v. DailyRoutineOccurrences_update (\<lambda>_. Some v))),
     (''dailyRoutineWorking'', set_raw (\<lambda>v. DailyRoutineWorking_update (\<lambda>_. Some v))),
     (''dailyRecordingPlans'', set_raw (\<lambda>v. DailyRecordingPlans_update (\<lambda>_. Some v))),
     (''assignedTasks'', set_raw (\<lambda>v. AssignedTasks_update (\<lambda>_. Some v))),
     (''assignedTaskUpdates'', set_raw (\<lambda>v. AssignedTaskUpdates_update (\<lambda>_. Some v))),
     (''people'', set_raw (\<lambda>v. People_update (\<lambda>_. Some v))),
     (''personEvents'', set_raw (\<lambda>v. PersonEvents_update (\<lambda>_. Some v)))]"

definition set_snapshot :: "snapshot setter" where
  "set_snapshot = set_struct False
    [(''epoch'', set_int64 (\<lambda>v. Epoch_update (\<lambda>_. v))),
     (''date'', set_string (\<lambda>v. Date_update (\<lambda>_. v))),
     (''cursor'', set_int64 (\<lambda>v. Cursor_update (\<lambda>_. v))),
     (''data'', (\<lambda>j s. case set_struct False data_fields j (Data s) of (d, ok) \<Rightarrow> (s\<lparr>Data := d\<rparr>, ok)))]"

definition set_change :: "change setter" where
  "set_change = set_struct False
    [(''seq'', set_int64 (\<lambda>v. Seq_update (\<lambda>_. v))),
     (''collection'', set_string (\<lambda>v. Collection_update (\<lambda>_. v))),
     (''entityId'', set_string (\<lambda>v. EntityID_update (\<lambda>_. v))),
     (''op'', set_string (\<lambda>v. Op_update (\<lambda>_. v))),
     (''entity'', set_raw (\<lambda>v. ChangeEntity_update (\<lambda>_. Some v))),
     (''actorMemberId'', set_int64 (\<lambda>v. ActorMemberID_update (\<lambda>_. v))),
     (''at'', set_string (\<lambda>v. At_update (\<lambda>_. v)))]"

definition set_changes :: "changes setter" where
  "set_changes = set_struct False
    [(''epoch'', set_int64 (\<lambda>v. ChangesEpoch_update (\<lambda>_. v))),
     (''cursor'', set_int64 (\<lambda>v. ChangesCursor_update (\<lambda>_. v))),
     (''changes'', set_slice set_change empty_change (\<lambda>v. ChangeList_update (\<lambda>_. v)))]"

definition set_answer :: "answer setter" where
  "set_answer = set_struct False
    [(''outcome'', set_string (\<lambda>v. Outcome_update (\<lambda>_. v))),
     (''value'', set_raw (\<lambda>v. AnswerValue_update (\<lambda>_. Some v)))]"

text \<open>\<open>Result\<close> points to a \<open>Result\<close>: its members are decoded by one recursion over the value.\<close>

definition result_fields :: "(string \<times> fp_result setter) list" where
  "result_fields =
    [(''mutationId'', set_string (\<lambda>v r. Result v (ResultStatus r) (Entity r) (ResultAnswer r)
        (ServerState r) (LosingIntent r) (Message r) (OriginalResult r))),
     (''status'', set_string (\<lambda>v r. Result (ResultID r) v (Entity r) (ResultAnswer r)
        (ServerState r) (LosingIntent r) (Message r) (OriginalResult r))),
     (''entity'', set_raw (\<lambda>v r. Result (ResultID r) (ResultStatus r) (Some v) (ResultAnswer r)
        (ServerState r) (LosingIntent r) (Message r) (OriginalResult r))),
     (''answer'', set_pointer set_answer empty_answer ResultAnswer (\<lambda>v r. Result (ResultID r)
        (ResultStatus r) (Entity r) v (ServerState r) (LosingIntent r) (Message r) (OriginalResult r))),
     (''serverState'', set_raw (\<lambda>v r. Result (ResultID r) (ResultStatus r) (Entity r) (ResultAnswer r)
        (Some v) (LosingIntent r) (Message r) (OriginalResult r))),
     (''losingIntent'', set_raw (\<lambda>v r. Result (ResultID r) (ResultStatus r) (Entity r) (ResultAnswer r)
        (ServerState r) (Some v) (Message r) (OriginalResult r))),
     (''message'', set_string (\<lambda>v r. Result (ResultID r) (ResultStatus r) (Entity r) (ResultAnswer r)
        (ServerState r) (LosingIntent r) v (OriginalResult r)))]"

definition put_original :: "fp_result option \<Rightarrow> fp_result \<Rightarrow> fp_result" where
  "put_original v r = Result (ResultID r) (ResultStatus r) (Entity r) (ResultAnswer r)
     (ServerState r) (LosingIntent r) (Message r) v"

fun set_result :: "json \<Rightarrow> fp_result \<Rightarrow> fp_result \<times> bool"
  and set_result_members :: "(string \<times> json) list \<Rightarrow> fp_result \<Rightarrow> fp_result \<times> bool" where
  "set_result (JObj ms) r = set_result_members ms r"
| "set_result JNull r = (r, True)"
| "set_result _ r = (r, False)"
| "set_result_members [] r = (r, True)"
| "set_result_members ((k, v) # ms) r =
     (let (r1, ok1) =
        (if fold_key k = fold_key ''originalResult'' then
           (if v = JNull then (put_original None r, True)
            else (case set_result v (case OriginalResult r of None \<Rightarrow> empty_result | Some o' \<Rightarrow> o') of
                (o1, ok) \<Rightarrow> (put_original (Some o1) r, ok)))
         else (case lookup_field result_fields k of None \<Rightarrow> (r, True) | Some f \<Rightarrow> f v r))
      in case set_result_members ms r1 of (r2, ok2) \<Rightarrow> (r2, ok1 \<and> ok2))"

definition set_results :: "fp_result list setter" where
  "set_results = set_struct False [(''results'', set_slice set_result empty_result (\<lambda>v _. v))]"

section \<open>envelope.go: what is sent\<close>

record mutation =
  MutationID :: string
  Kind :: string
  Target :: string
  BaseVersion :: int
  Payload :: string

record batch =
  BatchEpoch :: int
  BatchClientID :: string
  Mutations :: "mutation list"

definition MaxBatchMutations :: nat where "MaxBatchMutations = 32"

text \<open>\<open>json.Marshal\<close> of a batch: the members in the order of the struct.\<close>

definition quoted :: "string \<Rightarrow> string" where
  "quoted name = CHR 0x22 # name @ [CHR 0x22, CHR '':'']"

definition encode_mutation :: "mutation \<Rightarrow> string" where
  "encode_mutation m =
     ''{'' @ quoted ''mutationId'' @ json_string (MutationID m)
     @ '','' @ quoted ''kind'' @ json_string (Kind m)
     @ '','' @ quoted ''target'' @ json_string (Target m)
     @ '','' @ quoted ''baseVersion'' @ show_int (BaseVersion m)
     @ '','' @ quoted ''payload'' @ compact_raw (Payload m) @ ''}''"

definition encode_batch :: "batch \<Rightarrow> string" where
  "encode_batch b =
     ''{'' @ quoted ''epoch'' @ show_int (BatchEpoch b)
     @ '','' @ quoted ''clientId'' @ json_string (BatchClientID b)
     @ '','' @ quoted ''mutations'' @ ''['' @ Join (map encode_mutation (Mutations b)) '','' @ '']}''"

text \<open>\<open>NewMutationID\<close>: \<open>b\<close> holds the sixteen random bytes; \<open>%x\<close> writes each as two digits.\<close>

unbundle bit_operations_syntax

definition version_byte :: "char \<Rightarrow> char" where
  "version_byte c = char_of ((of_char c AND 0x0F :: nat) OR 0x40)"

definition variant_byte :: "char \<Rightarrow> char" where
  "variant_byte c = char_of ((of_char c AND 0x3F :: nat) OR 0x80)"

definition NewMutationID :: "string \<Rightarrow> string" where
  "NewMutationID random =
     (let b = random[6 := version_byte (random ! 6), 8 := variant_byte (random ! 8)];
          hex = (\<lambda>i j. hex_encode (take (j - i) (drop i b)))
      in hex 0 4 @ ''-'' @ hex 4 6 @ ''-'' @ hex 6 8 @ ''-'' @ hex 8 10 @ ''-'' @ hex 10 16)"

definition AdmitsStatus :: "string \<Rightarrow> bool" where
  "AdmitsStatus status \<longleftrightarrow> status \<in> {''Next'', ''Waiting'', ''Decision'', ''Setup'', ''Blocked'',
     ''Someday'', ''Scheduled''}"

section \<open>mutations.go\<close>

definition slug_char :: "char \<Rightarrow> bool" where
  "slug_char c \<longleftrightarrow> is_digit c \<or> CHR ''a'' \<le> c \<and> c \<le> CHR ''z''"

text \<open>\<open>^[a-z0-9]+(?:-[a-z0-9]+)*$\<close>: non-empty runs separated by single dashes.\<close>

definition slugPattern :: "string \<Rightarrow> bool" where
  "slugPattern s \<longleftrightarrow> list_all (\<lambda>p. p \<noteq> [] \<and> list_all slug_char p) (Split s CHR ''-'')"

text \<open>\<open>^\d{4}-\d{2}-\d{2}$\<close>\<close>

definition datePattern :: "string \<Rightarrow> bool" where
  "datePattern s \<longleftrightarrow> map length (Split s CHR ''-'') = [4, 2, 2]
     \<and> list_all (list_all is_digit) (Split s CHR ''-'')"

text \<open>\<open>mustJSON\<close> of a map: no value a builder puts in one fails to encode.\<close>

definition mustJSON :: "(string \<times> json) list \<Rightarrow> string" where
  "mustJSON ms = print_json (json_map ms)"

definition json_int :: "int \<Rightarrow> json" where
  "json_int i = JNum (show_int i)"

text \<open>A member that is sent only when it is given.\<close>

definition given :: "string \<Rightarrow> ('a \<Rightarrow> json) \<Rightarrow> 'a option \<Rightarrow> (string \<times> json) list" where
  "given k f v = (case v of None \<Rightarrow> [] | Some x \<Rightarrow> [(k, f x)])"

definition fp_refuse :: "string \<Rightarrow> fp_error" where
  "fp_refuse format = fp_errorf FPInvalidRequest 0 format"

definition ProjectTaskCreate ::
  "string \<Rightarrow> string \<Rightarrow> string \<Rightarrow> string \<Rightarrow> string \<Rightarrow> int option \<Rightarrow> int option \<Rightarrow> fp_error + mutation" where
  "ProjectTaskCreate random slug title priority status assignee parent =
     (if \<not> slugPattern slug \<or> title = [] \<or> 240 < length title
      then Inl (fp_refuse ''project task needs a slug and a title'')
      else if priority \<notin> {''Critical'', ''High'', ''Medium''}
      then Inl (fp_refuse ''project task priority must be Critical, High or Medium'')
      else if \<not> AdmitsStatus status
      then Inl (fp_refuse ''project task status %q is not admitted by the store yet'')
      else Inr \<lparr>MutationID = NewMutationID random, Kind = ''project-task.create'',
        Target = ''project:'' @ slug, BaseVersion = 0,
        Payload = mustJSON ([(''title'', JStr title), (''priority'', JStr priority), (''status'', JStr status)]
          @ given ''assigneeMemberId'' json_int assignee @ given ''parentTaskId'' json_int parent)\<rparr>)"

definition ProjectTaskUpdate ::
  "string \<Rightarrow> string \<Rightarrow> int \<Rightarrow> string option \<Rightarrow> string option \<Rightarrow> string option \<Rightarrow> int option
   \<Rightarrow> fp_error + mutation" where
  "ProjectTaskUpdate random taskID version title priority status assignee =
     (if taskID = [] \<or> version < 1 \<or> (title = None \<and> priority = None \<and> status = None \<and> assignee = None)
      then Inl (fp_refuse ''project task update needs a target, a version and one field'')
      else if status \<noteq> None \<and> \<not> AdmitsStatus (the status)
      then Inl (fp_refuse ''project task status %q is not admitted by the store yet'')
      else Inr \<lparr>MutationID = NewMutationID random, Kind = ''project-task.update'', Target = taskID,
        BaseVersion = version,
        Payload = mustJSON (given ''title'' JStr title @ given ''priority'' JStr priority
          @ given ''status'' JStr status @ given ''assigneeMemberId'' json_int assignee)\<rparr>)"

definition TaskComplete :: "string \<Rightarrow> string \<Rightarrow> int \<Rightarrow> fp_error + mutation" where
  "TaskComplete random taskID version =
     (if taskID = [] \<or> version < 1 then Inl (fp_refuse ''task complete needs a target and a version'')
      else Inr \<lparr>MutationID = NewMutationID random, Kind = ''task.complete'', Target = taskID,
        BaseVersion = version, Payload = mustJSON []\<rparr>)"

text \<open>A client-side target id takes a second set of random bytes.\<close>

definition TodoCreate :: "string \<Rightarrow> string \<Rightarrow> string \<Rightarrow> string \<Rightarrow> string \<Rightarrow> fp_error + mutation" where
  "TodoCreate random random2 sect title date =
     (if title = [] \<or> 240 < length title then Inl (fp_refuse ''todo needs a title'')
      else let dated = (sect = ''personal'' \<or> sect = ''health'') in
        if sect \<noteq> ''inbox'' \<and> sect \<noteq> ''tasks'' \<and> \<not> dated
        then Inl (fp_refuse ''todo section must be inbox, tasks, personal or health'')
        else if dated \<and> \<not> datePattern date then Inl (fp_refuse ''a %s todo needs a YYYY-MM-DD date'')
        else Inr \<lparr>MutationID = NewMutationID random, Kind = ''todo.create'',
          Target = ''todo-item:'' @ NewMutationID random2, BaseVersion = 0,
          Payload = mustJSON ([(''title'', JStr title), (''section'', JStr sect)]
            @ (if dated then [(''date'', JStr date)] else []))\<rparr>)"

definition DelegationCreate ::
  "string \<Rightarrow> string \<Rightarrow> int \<Rightarrow> string \<Rightarrow> string \<Rightarrow> string \<Rightarrow> string \<Rightarrow> bool \<Rightarrow> fp_error + mutation" where
  "DelegationCreate random random2 assignee title details dueDate priority requiresSummary =
     (if assignee < 1 \<or> title = [] \<or> 240 < length title \<or> 4000 < length details
      then Inl (fp_refuse ''delegation needs an assignee and a bounded title'')
      else if dueDate \<noteq> [] \<and> \<not> datePattern dueDate
      then Inl (fp_refuse ''delegation due date must be YYYY-MM-DD'')
      else let p = (if priority = [] then ''normal'' else priority) in
        if p \<notin> {''normal'', ''high'', ''urgent''}
        then Inl (fp_refuse ''delegation priority must be normal, high or urgent'')
        else Inr \<lparr>MutationID = NewMutationID random, Kind = ''delegation.create'',
          Target = ''assignment:'' @ NewMutationID random2, BaseVersion = 0,
          Payload = mustJSON ([(''title'', JStr title), (''assignee'', JStr (show_int assignee)),
              (''priority'', JStr p), (''requiresSummary'', JBool requiresSummary)]
            @ (if details \<noteq> [] then [(''details'', JStr details)] else [])
            @ (if dueDate \<noteq> [] then [(''dueDate'', JStr dueDate)] else []))\<rparr>)"

definition DelegationComplete :: "string \<Rightarrow> string \<Rightarrow> int \<Rightarrow> string \<Rightarrow> fp_error + mutation" where
  "DelegationComplete random assignmentID version summary =
     (if assignmentID = [] \<or> version < 1
      then Inl (fp_refuse ''delegation complete needs a target and a version'')
      else Inr \<lparr>MutationID = NewMutationID random, Kind = ''delegation.complete'',
        Target = assignmentID, BaseVersion = version,
        Payload = mustJSON ([(''status'', JStr ''done'')]
          @ (if summary \<noteq> [] then [(''summary'', JStr summary)] else []))\<rparr>)"

definition DailyLinkSchedule :: "string \<Rightarrow> string \<Rightarrow> string \<Rightarrow> fp_error + mutation" where
  "DailyLinkSchedule random projectTaskID date =
     (if projectTaskID = [] \<or> \<not> datePattern date
      then Inl (fp_refuse ''daily link needs a project task and a YYYY-MM-DD date'')
      else Inr \<lparr>MutationID = NewMutationID random, Kind = ''daily-link.schedule'',
        Target = projectTaskID, BaseVersion = 0, Payload = mustJSON [(''date'', JStr date)]\<rparr>)"

text \<open>\<open>Query\<close> takes any payload; \<open>None\<close> is nil, and a value given is one that encodes.\<close>

definition fp_Query :: "string \<Rightarrow> string \<Rightarrow> string \<Rightarrow> json option \<Rightarrow> mutation" where
  "fp_Query random random2 kind payload =
     \<lparr>MutationID = NewMutationID random, Kind = kind, Target = ''query:'' @ NewMutationID random2,
      BaseVersion = 0,
      Payload = print_json (case payload of None \<Rightarrow> JObj [] | Some j \<Rightarrow> j)\<rparr>"

section \<open>Mutation ids\<close>

lemma take_bit_OR_exp: "k \<le> m \<Longrightarrow> take_bit k n OR 2 ^ m = take_bit k n + 2 ^ m" for n :: nat
  by (rule disjunctive_add_eq_or [symmetric], rule bit_eqI) (auto simp: bit_simps)

lemma byte_bits:
  "version_byte c = char_of (64 + of_char c mod 16 :: nat)"
  "variant_byte c = char_of (128 + of_char c mod 64 :: nat)"
proof -
  have "n AND 0x0F = take_bit 4 n" "n AND 0x3F = take_bit 6 n" for n :: nat
    by (simp_all add: take_bit_eq_mask mask_eq_exp_minus_1)
  then show "version_byte c = char_of (64 + of_char c mod 16 :: nat)"
    "variant_byte c = char_of (128 + of_char c mod 64 :: nat)"
    using take_bit_OR_exp [of 4 6 "of_char c"] take_bit_OR_exp [of 6 7 "of_char c"]
    by (simp_all add: version_byte_def variant_byte_def take_bit_eq_mod add.commute)
qed

definition hex_char :: "char \<Rightarrow> bool" where
  "hex_char c \<longleftrightarrow> c \<in> set ''0123456789abcdef''"

lemma hex_char_lower: "d < 16 \<Longrightarrow> hex_char (lower_hex_digit d)"
proof -
  have "list_all (\<lambda>d. hex_char (lower_hex_digit d)) (map nat [0..15])" by code_simp
  then have "hex_char (lower_hex_digit (nat i))" if "i \<in> set [0..15]" for i
    using that by (simp only: list_all_iff set_map) blast
  from this [of "int d"] show "d < 16 \<Longrightarrow> hex_char (lower_hex_digit d)" by auto
qed

lemma hex_digits: "list_all hex_char (hex_encode s)"
proof (induction s)
  case (Cons x s)
  have "of_byte x div 16 < (16 :: nat)" "of_byte x mod 16 < (16 :: nat)"
    using nat_of_char_less_256 [of x] by (simp_all add: div_less_iff_less_mult)
  with Cons show ?case by (simp add: hex_char_lower)
qed simp

lemma hd_hex_encode: "hd (hex_encode (c # s)) = lower_hex_digit (of_byte c div 16)"
  by simp

lemma lower_hex_digits_four: "lower_hex_digit 4 = CHR ''4''" "lower_hex_digit 8 = CHR ''8''"
  "lower_hex_digit 9 = CHR ''9''" "lower_hex_digit 10 = CHR ''a''" "lower_hex_digit 11 = CHR ''b''"
  by code_simp+

text \<open>A mutation id is a version 4 UUID in canonical form, whatever the random bytes: five groups of
  8, 4, 4, 4 and 12 lower-case hexadecimal digits joined by dashes, the third starting with
  the version digit 4, the fourth with a variant digit 8, 9, a or b.\<close>

theorem NewMutationID_uuid4:
  assumes "length random = 16"
  shows "\<exists>g1 g2 g3 g4 g5. NewMutationID random = Join [g1, g2, g3, g4, g5] ''-''
    \<and> map length [g1, g2, g3, g4, g5] = [8, 4, 4, 4, 12]
    \<and> list_all (list_all hex_char) [g1, g2, g3, g4, g5]
    \<and> hd g3 = CHR ''4'' \<and> hd g4 \<in> set ''89ab''"
proof -
  define b where "b = random[6 := version_byte (random ! 6), 8 := variant_byte (random ! 8)]"
  have len: "length b = 16" using assms by (simp add: b_def)
  have b6: "drop 6 b = version_byte (random ! 6) # drop 7 b"
    using assms Cons_nth_drop_Suc [of 6 b] by (simp add: len) (simp add: b_def)
  have b8: "drop 8 b = variant_byte (random ! 8) # drop 9 b"
    using assms Cons_nth_drop_Suc [of 8 b] by (simp add: len) (simp add: b_def)
  have "(64 + n mod 16) mod 256 div 16 = (4 :: nat)" for n
  proof -
    have "n mod 16 < 16" by simp
    then show ?thesis by simp
  qed
  then have v: "hd (hex_encode (take 2 (drop 6 b))) = CHR ''4''"
    unfolding b6 by (simp add: byte_bits lower_hex_digits_four)
  have "lower_hex_digit d \<in> set ''89ab''" if "d \<in> {8, 9, 10, 11}" for d
    using that by (elim insertE) (simp_all add: lower_hex_digits_four)
  moreover have "(128 + n mod 64) mod 256 div 16 \<in> {8, 9, 10, 11 :: nat}" for n
  proof -
    have "n mod 64 < 64" by simp
    then have "(128 + n mod 64) div 16 = 8 + n mod 64 div 16" "n mod 64 div 16 < 4"
      by (simp_all add: div_less_iff_less_mult)
    moreover have "(128 + n mod 64) mod 256 = 128 + n mod 64" using \<open>n mod 64 < 64\<close> by simp
    ultimately show ?thesis by auto
  qed
  moreover have "hd (hex_encode (take 2 (drop 8 b))) =
      lower_hex_digit ((128 + of_byte (random ! 8) mod 64) mod 256 div 16)"
    unfolding b8 by (simp add: byte_bits)
  ultimately have w: "hd (hex_encode (take 2 (drop 8 b))) \<in> set ''89ab''"
    by (simp only:)
  have "NewMutationID random = Join [hex_encode (take 4 b), hex_encode (take 2 (drop 4 b)),
      hex_encode (take 2 (drop 6 b)), hex_encode (take 2 (drop 8 b)), hex_encode (take 6 (drop 10 b))] ''-''"
    by (simp add: NewMutationID_def b_def [symmetric] Let_def)
  moreover have "list_all (list_all hex_char) [hex_encode (take 4 b), hex_encode (take 2 (drop 4 b)),
      hex_encode (take 2 (drop 6 b)), hex_encode (take 2 (drop 8 b)), hex_encode (take 6 (drop 10 b))]"
    by (simp add: hex_digits)
  moreover have "map length [hex_encode (take 4 b), hex_encode (take 2 (drop 4 b)),
      hex_encode (take 2 (drop 6 b)), hex_encode (take 2 (drop 8 b)), hex_encode (take 6 (drop 10 b))] =
      [8, 4, 4, 4, 12]"
    by (simp add: len)
  ultimately show ?thesis using v w by - (intro exI conjI, assumption+)
qed

theorem NewMutationID_uuid4_witness:
  "\<exists>g1 g2 g3 g4 g5. NewMutationID (replicate 16 (CHR ''k'')) = Join [g1, g2, g3, g4, g5] ''-''
    \<and> map length [g1, g2, g3, g4, g5] = [8, 4, 4, 4, 12]
    \<and> list_all (list_all hex_char) [g1, g2, g3, g4, g5]
    \<and> hd g3 = CHR ''4'' \<and> hd g4 \<in> set ''89ab''"
  by (rule NewMutationID_uuid4 [OF length_replicate])

section \<open>Payloads\<close>

text \<open>\<open>Mutate\<close>'s check of one mutation.\<close>

definition mutation_complete :: "mutation \<Rightarrow> bool" where
  "mutation_complete m \<longleftrightarrow>
     MutationID m \<noteq> [] \<and> length (MutationID m) \<le> 240 \<and> Kind m \<noteq> [] \<and> length (Kind m) \<le> 240
     \<and> Target m \<noteq> [] \<and> length (Target m) \<le> 240 \<and> 0 \<le> BaseVersion m
     \<and> Payload m \<noteq> [] \<and> json_Valid (Payload m)"

lemma length_NewMutationID: "length random = 16 \<Longrightarrow> length (NewMutationID random) = 36"
  by (simp add: NewMutationID_def Let_def)

lemma NewMutationID_not_Nil [simp]: "NewMutationID random \<noteq> []"
  by (simp add: NewMutationID_def Let_def)

lemma mustJSON_valid: "list_all (\<lambda>m. wf_json (snd m)) ms \<Longrightarrow> json_Valid (mustJSON ms) \<and> mustJSON ms \<noteq> []"
  by (simp add: mustJSON_def json_Valid_print wf_json_map) (simp add: json_map_def)

lemma wf_given [simp]: "(\<And>x. wf_json (f x)) \<Longrightarrow> list_all (\<lambda>m. wf_json (snd m)) (given k f v)"
  by (simp add: given_def split: option.split)

lemma wf_json_int [simp]: "wf_json (json_int i)"
  by (simp add: json_int_def)

definition well_built :: "string \<Rightarrow> mutation \<Rightarrow> bool" where
  "well_built r m \<longleftrightarrow> MutationID m = NewMutationID r \<and> Kind m \<noteq> [] \<and> length (Kind m) \<le> 240
     \<and> Target m \<noteq> [] \<and> 0 \<le> BaseVersion m
     \<and> (\<exists>ms. list_all (\<lambda>m. wf_json (snd m)) ms \<and> Payload m = mustJSON ms)"

lemma well_builtI [intro]:
  assumes "list_all (\<lambda>m. wf_json (snd m)) ms" "kind \<noteq> []" "length kind \<le> 240" "target \<noteq> []" "0 \<le> v"
  shows "well_built r \<lparr>MutationID = NewMutationID r, Kind = kind, Target = target, BaseVersion = v,
    Payload = mustJSON ms\<rparr>"
  using assms by (auto simp: well_built_def)

lemma refuse_Inr: "(if b then Inl e else x) = Inr m \<longleftrightarrow> \<not> b \<and> x = Inr m"
  by simp

lemma builders_well_built:
  "ProjectTaskCreate r slug title priority status assignee parent = Inr m \<Longrightarrow> well_built r m"
  "ProjectTaskUpdate r taskID version title' priority' status' assignee = Inr m \<Longrightarrow> well_built r m"
  "TaskComplete r taskID version = Inr m \<Longrightarrow> well_built r m"
  "TodoCreate r r2 sect title date = Inr m \<Longrightarrow> well_built r m"
  "DelegationCreate r r2 who title details date priority summarised = Inr m \<Longrightarrow> well_built r m"
  "DelegationComplete r taskID version summary = Inr m \<Longrightarrow> well_built r m"
  "DailyLinkSchedule r taskID date = Inr m \<Longrightarrow> well_built r m"
  unfolding ProjectTaskCreate_def ProjectTaskUpdate_def TaskComplete_def TodoCreate_def
    DelegationCreate_def DelegationComplete_def DailyLinkSchedule_def Let_def refuse_Inr sum.inject
  by (elim conjE; hypsubst; rule well_builtI; simp add: not_less)+



lemma map_of_sort_key:
  assumes "distinct (map fst ms)"
  shows "map_of (sort_key fst ms) k = map_of ms k"
proof -
  have "map_of (sort_key fst ms) = map_of ms"
    using assms by (intro map_of_inject_set [THEN iffD2]) (simp_all add: distinct_map)
  then show ?thesis by simp
qed

lemma map_of_sanitise:
  assumes "list_all (\<lambda>m. sanitise (fst m) = fst m) ms"
  shows "map_of (sanitise_members ms) k = map_option sanitise_json (map_of ms k)"
  using assms by (induction ms) auto

text \<open>A payload is read back member by member.\<close>

lemma mustJSON_lookup:
  assumes "list_all (\<lambda>m. wf_json (snd m)) ms" "distinct (map fst ms)"
    and "list_all (\<lambda>m. sanitise (fst m) = fst m) ms"
  shows "\<exists>ms'. parse_doc (mustJSON ms) = Some (JObj ms')
    \<and> (\<forall>k. map_of ms' k = map_option sanitise_json (map_of ms k))"
proof -
  have "parse_doc (mustJSON ms) = Some (JObj (sanitise_members (sort_key fst ms)))"
    using assms(1) by (simp add: mustJSON_def parse_doc_print wf_json_map) (simp add: json_map_def)
  moreover have "list_all (\<lambda>m. sanitise (fst m) = fst m) (sort_key fst ms)"
    using assms(3) by (simp add: list_all_iff)
  ultimately show ?thesis
    using assms(2) by (simp add: map_of_sanitise map_of_sort_key)
qed

text \<open>What \<open>ProjectTaskCreate\<close> is given is what the payload says to a JSON parser: the title in its
  UTF-8 reading, priority and status verbatim, and the assignee and the parent exactly when
  they are given.\<close>

theorem ProjectTaskCreate_payload:
  assumes "ProjectTaskCreate r slug title priority status assignee parent = Inr m"
  shows "\<exists>ms. parse_doc (Payload m) = Some (JObj ms)
    \<and> map_of ms ''title'' = Some (JStr (sanitise title))
    \<and> map_of ms ''priority'' = Some (JStr priority)
    \<and> map_of ms ''status'' = Some (JStr status)
    \<and> map_of ms ''assigneeMemberId'' = map_option json_int assignee
    \<and> map_of ms ''parentTaskId'' = map_option json_int parent"
proof -
  let ?ms = "[(''title'', JStr title), (''priority'', JStr priority), (''status'', JStr status)]
    @ given ''assigneeMemberId'' json_int assignee @ given ''parentTaskId'' json_int parent"
  have "Payload m = mustJSON ?ms"
    using assms unfolding ProjectTaskCreate_def refuse_Inr sum.inject by auto
  moreover have "list_all (\<lambda>m. wf_json (snd m)) ?ms" by simp
  moreover have "distinct (map fst ?ms)" by (simp add: given_def split: option.split)
  moreover have "list_all (\<lambda>m. sanitise (fst m) = fst m) ?ms"
    by (simp add: given_def rune_width_def split: option.split)
  moreover have "priority \<in> {''Critical'', ''High'', ''Medium''}" "AdmitsStatus status"
    using assms unfolding ProjectTaskCreate_def refuse_Inr by simp_all
  then have verbatim: "sanitise priority = priority" "sanitise status = status"
    unfolding AdmitsStatus_def by (elim insertE emptyE; simp)+
  ultimately obtain ms where "parse_doc (Payload m) = Some (JObj ms)"
    and "\<forall>k. map_of ms k = map_option sanitise_json (map_of ?ms k)"
    using mustJSON_lookup [of ?ms] by auto
  then show ?thesis
    by (intro exI [of _ ms]) (auto simp: given_def json_int_def verbatim split: option.split)
qed

theorem ProjectTaskCreate_payload_witness:
  "\<exists>ms. parse_doc (Payload \<lparr>MutationID = NewMutationID [], Kind = ''project-task.create'',
       Target = ''project:hosting'', BaseVersion = 0,
       Payload = mustJSON [(''title'', JStr ''Call''), (''priority'', JStr ''High''),
         (''status'', JStr ''Next''), (''assigneeMemberId'', json_int 7)]\<rparr>) = Some (JObj ms)
     \<and> map_of ms ''assigneeMemberId'' = Some (json_int 7)"
proof -
  have "ProjectTaskCreate [] ''hosting'' ''Call'' ''High'' ''Next'' (Some 7) None =
    Inr \<lparr>MutationID = NewMutationID [], Kind = ''project-task.create'',
       Target = ''project:hosting'', BaseVersion = 0,
       Payload = mustJSON [(''title'', JStr ''Call''), (''priority'', JStr ''High''),
         (''status'', JStr ''Next''), (''assigneeMemberId'', json_int 7)]\<rparr>"
    by (simp add: ProjectTaskCreate_def slugPattern_def slug_char_def is_digit_iff less_eq_char_def
        AdmitsStatus_def given_def)
  from ProjectTaskCreate_payload [OF this] show ?thesis by auto
qed

end
