(* ===== verification/Go_Url.thy ===== *)
theory Go_Url
  imports Go_Encoding
begin

text \<open>
  The part of \<open>net/url\<close> the sources use: \<open>Parse\<close>, the fields of the parsed URL, \<open>String\<close>,
  \<open>EscapedPath\<close>, \<open>Hostname\<close>, \<open>RequestURI\<close>, \<open>ParseQuery\<close> and the mode-dependent escaping they
  share. A host without brackets holds at most one colon, as \<open>Parse\<close> has it since Go 1.26; a bracketed
  one is checked for its bracket and port only, not as an IPv6 address, and a zone in it is not
  decoded specially.
\<close>

section \<open>Escaping\<close>

datatype url_mode = PathMode | HostMode | UserMode | QueryMode | FragmentMode

definition alnum :: "char \<Rightarrow> bool" where
  "alnum c \<longleftrightarrow> (let n = of_byte c in
     48 \<le> n \<and> n \<le> 57 \<or> 65 \<le> n \<and> n \<le> 90 \<or> 97 \<le> n \<and> n \<le> 122)"

definition shouldEscape :: "url_mode \<Rightarrow> char \<Rightarrow> bool" where
  "shouldEscape mode c =
     (if alnum c \<or> c \<in> set ''-_.~'' then False
      else if mode = HostMode \<and> c \<in> set ([CHR 0x22, CHR 0x27] @ ''!$&()*+,;=:[]<>'') then False
      else if c \<in> set ''$&+,/:;=?@'' then
        (case mode of
           PathMode \<Rightarrow> c = CHR ''?''
         | UserMode \<Rightarrow> c \<in> set ''@/?:''
         | QueryMode \<Rightarrow> True
         | FragmentMode \<Rightarrow> False
         | HostMode \<Rightarrow> True)
      else \<not> (mode = FragmentMode \<and> c \<in> set ''!()*''))"

definition url_escape :: "url_mode \<Rightarrow> string \<Rightarrow> string" where
  "url_escape mode s =
     concat (map (\<lambda>c. if c = CHR '' '' \<and> mode = QueryMode then ''+''
                      else if shouldEscape mode c then percent c else [c]) s)"

fun url_unescape :: "url_mode \<Rightarrow> string \<Rightarrow> string option" where
  "url_unescape mode [] = Some []"
| "url_unescape mode (c # s) =
     (if c = CHR ''%'' then
        (case s of
           a # b # r \<Rightarrow>
             (case (hex_val a, hex_val b) of
                (Some x, Some y) \<Rightarrow>
                  if mode = HostMode \<and> x < 8 \<and> (x, y) \<noteq> (2, 5) then None
                  else map_option ((#) (byte_of (16 * x + y))) (url_unescape mode r)
              | _ \<Rightarrow> None)
         | _ \<Rightarrow> None)
      else if mode = HostMode \<and> of_byte c < (0x80 :: nat) \<and> shouldEscape mode c then None
      else map_option ((#) (if c = CHR ''+'' \<and> mode = QueryMode then CHR '' '' else c)) (url_unescape mode s))"

section \<open>Cutting\<close>

text \<open>\<open>strings.Cut\<close> with a one-byte separator; without it the second part is absent.\<close>

fun cut :: "char \<Rightarrow> string \<Rightarrow> string \<times> string option" where
  "cut c [] = ([], None)"
| "cut c (x # s) = (if x = c then ([], Some s) else (case cut c s of (a, b) \<Rightarrow> (x # a, b)))"

text \<open>The parts around the last occurrence of a byte.\<close>

definition cut_last :: "char \<Rightarrow> string \<Rightarrow> (string \<times> string) option" where
  "cut_last c s = (case cut c (rev s) of (a, None) \<Rightarrow> None | (a, Some b) \<Rightarrow> Some (rev b, rev a))"

section \<open>Parsing\<close>

record url =
  url_Scheme :: string
  Opaque :: string
  User :: "(string \<times> string option) option"
  Host :: string
  url_Path :: string
  RawPath :: string
  RawQuery :: string
  Fragment :: string
  RawFragment :: string
  ForceQuery :: bool
  OmitHost :: bool

definition empty_url :: url where
  "empty_url = \<lparr>url_Scheme = [], Opaque = [], User = None, Host = [], url_Path = [], RawPath = [],
     RawQuery = [], Fragment = [], RawFragment = [], ForceQuery = False, OmitHost = False\<rparr>"

definition is_letter :: "char \<Rightarrow> bool" where
  "is_letter c \<longleftrightarrow> (let n = of_byte c in 65 \<le> n \<and> n \<le> 90 \<or> 97 \<le> n \<and> n \<le> 122)"

text \<open>\<open>getScheme\<close>: the scheme and the rest, \<open>None\<close> for a colon at the start.\<close>

fun scheme_from :: "string \<Rightarrow> string \<Rightarrow> string \<Rightarrow> (string \<times> string) option" where
  "scheme_from raw acc [] = Some ([], raw)"
| "scheme_from raw acc (c # s) =
     (if is_letter c then scheme_from raw (acc @ [c]) s
      else if is_digit c \<or> c \<in> set ''+-.'' then
        (if acc = [] then Some ([], raw) else scheme_from raw (acc @ [c]) s)
      else if c = CHR '':'' then (if acc = [] then None else Some (acc, s))
      else Some ([], raw))"

definition getScheme :: "string \<Rightarrow> (string \<times> string) option" where
  "getScheme raw = scheme_from raw [] raw"

definition validOptionalPort :: "string \<Rightarrow> bool" where
  "validOptionalPort p \<longleftrightarrow> p = [] \<or> hd p = CHR '':'' \<and> list_all is_digit (tl p)"

definition parseHost :: "string \<Rightarrow> string option" where
  "parseHost host =
     (if HasPrefix host ''['' then
        (case cut_last CHR '']'' host of
           None \<Rightarrow> None
         | Some (_, after) \<Rightarrow> if validOptionalPort after then url_unescape HostMode host else None)
      else (case cut CHR '':'' host of
          (_, None) \<Rightarrow> url_unescape HostMode host
        | (_, Some port) \<Rightarrow>
            if validOptionalPort (CHR '':'' # port) then url_unescape HostMode host else None))"

definition validUserinfo :: "string \<Rightarrow> bool" where
  "validUserinfo s \<longleftrightarrow> list_all (\<lambda>c. alnum c \<or> c \<in> set ([CHR 0x27] @ ''-._:~!$&()*+,;=%@'')) s"

definition parseAuthority :: "string \<Rightarrow> ((string \<times> string option) option \<times> string) option" where
  "parseAuthority authority =
     (case cut_last CHR ''@'' authority of
        None \<Rightarrow> map_option (\<lambda>h. (None, h)) (parseHost authority)
      | Some (info, host) \<Rightarrow>
          (case parseHost host of
             None \<Rightarrow> None
           | Some h \<Rightarrow>
               if \<not> validUserinfo info then None
               else (case cut CHR '':'' info of
                   (name, None) \<Rightarrow> map_option (\<lambda>n. (Some (n, None), h)) (url_unescape UserMode name)
                 | (name, Some pass) \<Rightarrow>
                     (case (url_unescape UserMode name, url_unescape UserMode pass) of
                        (Some n, Some p) \<Rightarrow> Some (Some (n, Some p), h)
                      | _ \<Rightarrow> None))))"

definition setPath :: "string \<Rightarrow> url \<Rightarrow> url option" where
  "setPath p u = map_option (\<lambda>path. u\<lparr>url_Path := path,
       RawPath := (if p = url_escape PathMode path then [] else p)\<rparr>) (url_unescape PathMode p)"

definition setFragment :: "string \<Rightarrow> url \<Rightarrow> url option" where
  "setFragment f u = map_option (\<lambda>frag. u\<lparr>Fragment := frag,
       RawFragment := (if f = url_escape FragmentMode frag then [] else f)\<rparr>) (url_unescape FragmentMode f)"

definition ctl_byte :: "char \<Rightarrow> bool" where
  "ctl_byte c \<longleftrightarrow> of_byte c < (0x20 :: nat) \<or> of_byte c = (0x7F :: nat)"

text \<open>The part before the fragment.\<close>

definition parse_rest :: "url \<Rightarrow> string \<Rightarrow> url option" where
  "parse_rest u rest =
     (if \<not> HasPrefix rest ''/'' \<and> url_Scheme u \<noteq> [] then Some (u\<lparr>Opaque := rest\<rparr>)
      else if \<not> HasPrefix rest ''/'' \<and> CHR '':'' \<in> set (fst (cut CHR ''/'' rest)) then None
      else if HasPrefix rest ''//'' \<and> (url_Scheme u \<noteq> [] \<or> \<not> HasPrefix rest ''///'') then
        (let authority = takeWhile (\<lambda>c. c \<noteq> CHR ''/'') (drop 2 rest);
             path = dropWhile (\<lambda>c. c \<noteq> CHR ''/'') (drop 2 rest)
         in case parseAuthority authority of
              None \<Rightarrow> None
            | Some (user, host) \<Rightarrow> setPath path (u\<lparr>User := user, Host := host\<rparr>))
      else setPath rest (u\<lparr>OmitHost := url_Scheme u \<noteq> [] \<and> HasPrefix rest ''/''\<rparr>))"

definition parse_base :: "string \<Rightarrow> url option" where
  "parse_base raw =
     (if list_ex ctl_byte raw then None
      else if raw = ''*'' then Some (empty_url\<lparr>url_Path := ''*''\<rparr>)
      else (case getScheme raw of
          None \<Rightarrow> None
        | Some (scheme, rest) \<Rightarrow>
            (let u = empty_url\<lparr>url_Scheme := ToLower scheme\<rparr> in
             case cut CHR ''?'' rest of
               (r, Some []) \<Rightarrow> parse_rest (u\<lparr>ForceQuery := True\<rparr>) r
             | (r, q) \<Rightarrow> parse_rest (u\<lparr>RawQuery := (case q of None \<Rightarrow> [] | Some x \<Rightarrow> x)\<rparr>) r)))"

definition url_Parse :: "string \<Rightarrow> url option" where
  "url_Parse raw =
     (case cut CHR ''#'' raw of
        (base, frag) \<Rightarrow>
          (case parse_base base of
             None \<Rightarrow> None
           | Some u \<Rightarrow> (case frag of None \<Rightarrow> Some u | Some f \<Rightarrow> if f = [] then Some u else setFragment f u)))"

section \<open>Reading and writing a URL\<close>

definition validEncoded :: "url_mode \<Rightarrow> string \<Rightarrow> bool" where
  "validEncoded mode s \<longleftrightarrow> list_all (\<lambda>c. c \<in> set ([CHR 0x27] @ ''!$&()*+,;=:@[]%'') \<or> \<not> shouldEscape mode c) s"

definition EscapedPath :: "url \<Rightarrow> string" where
  "EscapedPath u =
     (if RawPath u \<noteq> [] \<and> validEncoded PathMode (RawPath u)
         \<and> url_unescape PathMode (RawPath u) = Some (url_Path u) then RawPath u
      else if url_Path u = ''*'' then ''*''
      else url_escape PathMode (url_Path u))"

definition EscapedFragment :: "url \<Rightarrow> string" where
  "EscapedFragment u =
     (if RawFragment u \<noteq> [] \<and> validEncoded FragmentMode (RawFragment u)
         \<and> url_unescape FragmentMode (RawFragment u) = Some (Fragment u) then RawFragment u
      else url_escape FragmentMode (Fragment u))"

definition userinfo_string :: "string \<times> string option \<Rightarrow> string" where
  "userinfo_string ui = url_escape UserMode (fst ui)
     @ (case snd ui of None \<Rightarrow> [] | Some p \<Rightarrow> CHR '':'' # url_escape UserMode p)"

definition url_String :: "url \<Rightarrow> string" where
  "url_String u =
     (let scheme = (if url_Scheme u \<noteq> [] then url_Scheme u @ '':'' else []);
          authority =
            (if (url_Scheme u \<noteq> [] \<or> Host u \<noteq> [] \<or> User u \<noteq> None)
                \<and> \<not> (OmitHost u \<and> Host u = [] \<and> User u = None)
             then (if Host u \<noteq> [] \<or> url_Path u \<noteq> [] \<or> User u \<noteq> None then ''//'' else [])
               @ (case User u of None \<Rightarrow> [] | Some ui \<Rightarrow> userinfo_string ui @ ''@'')
               @ url_escape HostMode (Host u)
             else []);
          path = EscapedPath u;
          lead = scheme @ authority
            @ (if path \<noteq> [] \<and> hd path \<noteq> CHR ''/'' \<and> Host u \<noteq> [] then ''/'' else []);
          dot = (if lead = [] \<and> CHR '':'' \<in> set (fst (cut CHR ''/'' path)) then ''./'' else [])
      in (if Opaque u \<noteq> [] then scheme @ Opaque u else lead @ dot @ path)
         @ (if ForceQuery u \<or> RawQuery u \<noteq> [] then CHR ''?'' # RawQuery u else [])
         @ (if Fragment u \<noteq> [] then CHR ''#'' # EscapedFragment u else []))"

text \<open>\<open>splitHostPort\<close>\<close>

definition split_host_port :: "string \<Rightarrow> string \<times> string" where
  "split_host_port hp =
     (let (h, p) = (case cut_last CHR '':'' hp of
          Some (a, b) \<Rightarrow> if validOptionalPort (CHR '':'' # b) then (a, b) else (hp, [])
        | None \<Rightarrow> (hp, []))
      in (if HasPrefix h ''['' \<and> HasSuffix h '']'' then butlast (tl h) else h, p))"

definition Hostname :: "url \<Rightarrow> string" where
  "Hostname u = fst (split_host_port (Host u))"

definition IsAbs :: "url \<Rightarrow> bool" where
  "IsAbs u \<longleftrightarrow> url_Scheme u \<noteq> []"

definition RequestURI :: "url \<Rightarrow> string" where
  "RequestURI u =
     (let result = (if Opaque u = [] then (if EscapedPath u = [] then ''/'' else EscapedPath u)
                    else if HasPrefix (Opaque u) ''//'' then url_Scheme u @ '':'' @ Opaque u
                    else Opaque u)
      in result @ (if ForceQuery u \<or> RawQuery u \<noteq> [] then CHR ''?'' # RawQuery u else []))"

text \<open>\<open>u.Query()\<close>: \<open>ParseQuery\<close> whose malformed settings are dropped; the values of a key in
  order.\<close>

fun parse_settings :: "string list \<Rightarrow> (string \<times> string) list" where
  "parse_settings [] = []"
| "parse_settings (p # ps) =
     (if p = [] \<or> CHR '';'' \<in> set p then parse_settings ps
      else (case cut CHR ''='' p of
          (k, v) \<Rightarrow>
            (case (QueryUnescape k, QueryUnescape (case v of None \<Rightarrow> [] | Some x \<Rightarrow> x)) of
               (Some k', Some v') \<Rightarrow> (k', v') # parse_settings ps
             | _ \<Rightarrow> parse_settings ps)))"

fun add_value :: "string \<Rightarrow> string \<Rightarrow> (string, string list) go_map \<Rightarrow> (string, string list) go_map" where
  "add_value k v [] = [(k, [v])]"
| "add_value k v ((k', vs) # m) = (if k' = k then (k', vs @ [v]) # m else (k', vs) # add_value k v m)"

definition ParseQuery :: "string \<Rightarrow> (string, string list) go_map" where
  "ParseQuery q = foldl (\<lambda>m (k, v). add_value k v m) [] (parse_settings (Split q CHR ''&''))"

definition url_Query :: "url \<Rightarrow> (string, string list) go_map" where
  "url_Query u = ParseQuery (RawQuery u)"

text \<open>\<open>url.Values.Get\<close>: the first value, or the empty string.\<close>

definition Values_Get :: "(string, string list) go_map \<Rightarrow> string \<Rightarrow> string" where
  "Values_Get m k = (case map_of m k of Some (v # _) \<Rightarrow> v | _ \<Rightarrow> [])"

section \<open>URLs with a plain host\<close>

lemma cut_append: "c \<notin> set a \<Longrightarrow> cut c (a @ c # b) = (a, Some b)"
  by (induction a) auto

lemma cut_none: "c \<notin> set a \<Longrightarrow> cut c a = (a, None)"
  by (induction a) auto

lemma cut_last_append: "c \<notin> set b \<Longrightarrow> cut_last c (a @ c # b) = Some (a, b)"
  by (simp add: cut_last_def cut_append)

lemma cut_last_none: "c \<notin> set a \<Longrightarrow> cut_last c a = None"
  by (simp add: cut_last_def cut_none)

text \<open>A host name or IPv4 address, and a port.\<close>

definition host_char :: "char \<Rightarrow> bool" where
  "host_char c \<longleftrightarrow> alnum c \<or> c = CHR ''-'' \<or> c = CHR ''.''"

definition plain_host :: "string \<Rightarrow> bool" where
  "plain_host h \<longleftrightarrow> (\<exists>n p. h = n @ p \<and> n \<noteq> [] \<and> list_all host_char n \<and> validOptionalPort p \<and> p \<noteq> '':'')"

lemma alnum_iff: "alnum c \<longleftrightarrow> is_letter c \<or> is_digit c"
  by (auto simp: alnum_def is_letter_def is_digit_iff Let_def)

lemma not_alnum [simp]:
  "\<not> alnum CHR ''/''" "\<not> alnum CHR ''@''" "\<not> alnum CHR ''['' " "\<not> alnum CHR '':''" "\<not> alnum CHR ''%''"
  "\<not> alnum CHR ''?''" "\<not> alnum CHR ''#''" "\<not> alnum CHR ''&''" "\<not> alnum CHR ''=''" "\<not> alnum CHR '';''" "\<not> alnum CHR ''+''"
  by (simp_all add: alnum_def)

lemma host_chars:
  assumes "plain_host h" "c \<in> set h"
  shows "host_char c \<or> c = CHR '':''"
proof -
  obtain n p where h: "h = n @ p" "list_all host_char n" "validOptionalPort p"
    using assms(1) by (auto simp: plain_host_def)
  have "is_digit c \<or> c = CHR '':''" if "c \<in> set p"
    using h(3) that by (cases p) (auto simp: validOptionalPort_def list_all_iff)
  then show ?thesis
    using assms(2) h by (auto simp: host_char_def alnum_iff list_all_iff)
qed

lemma plain_host_port:
  assumes "plain_host h"
  shows "\<not> HasSuffix h '':''"
proof
  obtain n p where h: "h = n @ p" "n \<noteq> []" "list_all host_char n" "validOptionalPort p" "p \<noteq> '':''"
    using assms by (auto simp: plain_host_def)
  assume "HasSuffix h '':''"
  then have l: "last h = CHR '':''" by (auto simp: HasSuffix_def suffix_def)
  show False
  proof (cases p)
    case Nil
    with h l have "CHR '':'' \<in> set n" by (metis append_Nil2 last_in_set)
    with h(3) show False by (auto simp: list_all_iff host_char_def)
  next
    case (Cons c ds)
    with h have "ds \<noteq> []" "list_all is_digit ds" by (auto simp: validOptionalPort_def)
    with last_in_set [of ds] have "is_digit (last ds)" by (simp add: list_all_iff)
    with l h(1) Cons \<open>ds \<noteq> []\<close> show False by (simp add: is_digit_iff)
  qed
qed

lemma HostMode_plain: "host_char c \<or> c = CHR '':'' \<Longrightarrow> \<not> shouldEscape HostMode c \<and> c \<noteq> CHR ''%''"
  unfolding host_char_def by (elim disjE) (simp_all add: shouldEscape_def, auto)

lemma unescape_plain: "\<forall>c \<in> set h. \<not> shouldEscape HostMode c \<and> c \<noteq> CHR ''%'' \<Longrightarrow> url_unescape HostMode h = Some h"
  by (induction h) auto

lemma escape_plain: "\<forall>c \<in> set h. \<not> shouldEscape mode c \<and> c \<noteq> CHR '' '' \<Longrightarrow> url_escape mode h = h"
  by (induction h) (auto simp: url_escape_def)

lemma parseHost_plain:
  assumes "plain_host h"
  shows "parseHost h = Some h"
proof -
  obtain n p where h: "h = n @ p" "n \<noteq> []" "list_all host_char n" "validOptionalPort p"
    using assms by (auto simp: plain_host_def)
  have u: "url_unescape HostMode h = Some h"
    using host_chars [OF assms] HostMode_plain by (intro unescape_plain) blast
  have "host_char (hd n)" using h by (cases n) auto
  then have b: "\<not> HasPrefix h ''[''"
    using h by (cases n) (auto simp: HasPrefix_def host_char_def)
  have n: "CHR '':'' \<notin> set n" using h(3) by (auto simp: list_all_iff host_char_def)
  show ?thesis
  proof (cases p)
    case Nil
    with u b n h(1) show ?thesis by (simp add: parseHost_def cut_none)
  next
    case (Cons c ds)
    with h(4) have p: "p = CHR '':'' # ds" "list_all is_digit ds" by (auto simp: validOptionalPort_def)
    with u b h n show ?thesis by (simp add: parseHost_def cut_append)
  qed
qed

lemma parseAuthority_plain: "plain_host h \<Longrightarrow> parseAuthority h = Some (None, h)"
proof -
  assume h: "plain_host h"
  have "CHR ''@'' \<notin> set h" using host_chars [OF h, of "CHR ''@''"] by (auto simp: host_char_def)
  with h show ?thesis by (simp add: parseAuthority_def cut_last_none parseHost_plain)
qed

text \<open>What a URL with a plain host may hold beside it.\<close>

definition wire_char :: "char \<Rightarrow> bool" where
  "wire_char c \<longleftrightarrow> unreserved c \<or> c \<in> set ''%/=&+:''"

lemma unreserved_iff: "unreserved c \<longleftrightarrow> alnum c \<or> c \<in> set ''-_.~''"
  by (auto simp: unreserved_def alnum_def Let_def)

lemma wire_char_plain: "wire_char c \<Longrightarrow> \<not> ctl_byte c \<and> c \<noteq> CHR ''#'' \<and> c \<noteq> CHR ''?''"
  by (auto simp: wire_char_def unreserved_iff alnum_def ctl_byte_def Let_def)

lemma host_char_wire: "host_char c \<or> c = CHR '':'' \<Longrightarrow> wire_char c"
  by (auto simp: host_char_def wire_char_def unreserved_iff)

lemma parse_plain:
  assumes "scheme \<in> {''https'', ''http''}" "plain_host h" "p = [] \<or> HasPrefix p ''/''"
    "list_all wire_char p" "list_all wire_char q" "url_unescape PathMode p = Some path"
  shows "url_Parse (scheme @ ''://'' @ h @ p @ (if q = [] then [] else CHR ''?'' # q)) =
    Some (empty_url\<lparr>url_Scheme := scheme, Host := h, url_Path := path,
      RawPath := (if p = url_escape PathMode path then [] else p), RawQuery := q\<rparr>)" (is "url_Parse ?raw = _")
proof -
  have chars: "list_all wire_char h" using host_chars [OF assms(2)] host_char_wire by (auto simp: list_all_iff)
  let ?r = "''//'' @ h @ p"
  have wire: "list_all wire_char ?r" using chars assms(4) by (simp add: wire_char_def)
  then have noq: "CHR ''?'' \<notin> set ?r" using wire_char_plain by (auto simp: list_all_iff)
  have sch: "list_all wire_char (scheme @ '':'')" using assms(1) by (auto simp: wire_char_def unreserved_iff alnum_def)
  have ok: "\<forall>c \<in> set ?raw. \<not> ctl_byte c \<and> c \<noteq> CHR ''#''"
    using wire sch assms(5) wire_char_plain by (auto simp: list_all_iff ctl_byte_def)
  have raw: "?raw = scheme @ '':'' @ ?r @ (if q = [] then [] else CHR ''?'' # q)" by simp
  have gs: "getScheme (scheme @ '':'' @ s) = Some (scheme, s)" for s
    using assms(1) by (auto simp: getScheme_def is_letter_def is_digit_iff)
  have cutq: "cut CHR ''?'' (?r @ (if q = [] then [] else CHR ''?'' # q)) = (?r, if q = [] then None else Some q)"
    using noq cut_append [of "CHR ''?''" ?r q] cut_none [of "CHR ''?''" ?r] by auto
  have slash: "\<forall>c \<in> set h. c \<noteq> CHR ''/''" using host_chars [OF assms(2), of "CHR ''/''"] by (auto simp: host_char_def)
  have "takeWhile (\<lambda>c. c \<noteq> CHR ''/'') p = []" "dropWhile (\<lambda>c. c \<noteq> CHR ''/'') p = p"
    using assms(3) by (cases p; simp add: HasPrefix_def prefix_def)+
  with slash have split: "takeWhile (\<lambda>c. c \<noteq> CHR ''/'') (h @ p) = h" "dropWhile (\<lambda>c. c \<noteq> CHR ''/'') (h @ p) = p"
    by (simp_all add: takeWhile_append2 dropWhile_append2)
  have base: "parse_base ?raw = parse_rest (empty_url\<lparr>url_Scheme := scheme, RawQuery := q\<rparr>) ?r"
  proof -
    have "\<not> list_ex ctl_byte ?raw" using ok by (auto simp: list_ex_iff)
    moreover have "?raw \<noteq> ''*''" using assms(1) by auto
    moreover have "ToLower scheme = scheme" using assms(1) by (auto simp: ToLower_def lower_char_def less_eq_char_def)
    ultimately show ?thesis
      unfolding parse_base_def raw gs option.case prod.case Let_def cutq by (auto split: list.split)
  qed
  have rest: "parse_rest (empty_url\<lparr>url_Scheme := scheme, RawQuery := q\<rparr>) ?r =
      setPath p (empty_url\<lparr>url_Scheme := scheme, RawQuery := q, User := None, Host := h\<rparr>)"
    using assms(1) by (auto simp: parse_rest_def Let_def split parseAuthority_plain [OF assms(2)] HasPrefix_def)
  have frag: "cut CHR ''#'' ?raw = (?raw, None)" using ok by (intro cut_none) blast
  show ?thesis
    unfolding url_Parse_def frag prod.case base rest by (simp add: setPath_def assms(6) empty_url_def)
qed
lemma plain_host_not_Nil: "plain_host h \<Longrightarrow> h \<noteq> []"
  by (auto simp: plain_host_def)

lemma String_plain:
  assumes "scheme \<noteq> []" "plain_host h" "HasPrefix (EscapedPath u) ''/''"
    "u = empty_url\<lparr>url_Scheme := scheme, Host := h, url_Path := path, RawPath := raw, RawQuery := q\<rparr>"
  shows "url_String u = scheme @ ''://'' @ h @ EscapedPath u @ (if q = [] then [] else CHR ''?'' # q)"
proof -
  have "\<forall>c \<in> set h. \<not> shouldEscape HostMode c \<and> c \<noteq> CHR '' ''"
    using host_chars [OF assms(2)] HostMode_plain host_chars [OF assms(2), of "CHR '' ''"]
    by (auto simp: host_char_def alnum_def)
  then have "url_escape HostMode h = h" by (rule escape_plain)
  moreover have "hd (EscapedPath u) = CHR ''/''"
    using assms(3) by (auto simp: HasPrefix_def prefix_def)
  ultimately show ?thesis
    using assms(1) plain_host_not_Nil [OF assms(2)]
    unfolding url_String_def Let_def by (simp add: assms(4) empty_url_def)
qed

section \<open>Encoding and parsing a query\<close>

lemma QueryEscape_set: "c \<in> set (QueryEscape s) \<Longrightarrow> unreserved c \<or> c = CHR ''%'' \<or> c = CHR ''+''"
  by (auto simp: QueryEscape_def dest: percent_chars split: if_splits)

definition setting :: "string \<times> string \<Rightarrow> string" where
  "setting kv = QueryEscape (fst kv) @ CHR ''='' # QueryEscape (snd kv)"

definition settings :: "(string, string list) go_map \<Rightarrow> (string \<times> string) list" where
  "settings vs = concat (map (\<lambda>k. map (Pair k) (the (map_of vs k))) (sort (map fst vs)))"

lemma Values_Encode_settings: "Values_Encode vs = Join (map setting (settings vs)) ''&''"
  by (simp add: Values_Encode_def settings_def setting_def map_concat comp_def)

lemma special_not_escaped [simp]:
  "CHR ''='' \<notin> set (QueryEscape s)" "CHR ''&'' \<notin> set (QueryEscape s)" "CHR '';'' \<notin> set (QueryEscape s)"
  by (auto dest: QueryEscape_set simp: unreserved_iff)

lemma parse_settings_map [simp]: "parse_settings (map setting kvs) = kvs"
proof (induction kvs)
  case (Cons kv kvs)
  obtain k v where kv: "kv = (k, v)" by (cases kv)
  have "cut CHR ''='' (setting kv) = (QueryEscape k, Some (QueryEscape v))"
    by (simp add: setting_def kv cut_append)
  moreover have "setting kv \<noteq> []" "CHR '';'' \<notin> set (setting kv)"
    by (simp_all add: setting_def)
  ultimately show ?case using Cons by (simp add: kv QueryUnescape_escape)
qed simp

lemma parse_settings_Encode: "parse_settings (Split (Values_Encode vs) CHR ''&'') = settings vs"
proof (cases "settings vs")
  case Nil
  then show ?thesis by (simp add: Values_Encode_settings)
next
  case (Cons kv kvs)
  have "Split (Values_Encode vs) CHR ''&'' = map setting (settings vs)"
    unfolding Values_Encode_settings using Cons
    by (intro Split_Join) (auto simp: setting_def)
  then show ?thesis by simp
qed

lemma add_value_run:
  "k \<notin> fst ` set m \<Longrightarrow> foldl (\<lambda>m (k, v). add_value k v m) (m @ [(k, vs)]) (map (Pair k) ws) = m @ [(k, vs @ ws)]"
proof (induction ws arbitrary: vs)
  case (Cons w ws)
  have "add_value k w (m @ [(k, vs)]) = m @ [(k, vs @ [w])]" using Cons.prems by (induction m) auto
  with Cons show ?case by simp
qed simp

lemma add_value_new: "k \<notin> fst ` set m \<Longrightarrow> add_value k v m = m @ [(k, [v])]"
  by (induction m) auto

lemma add_values_new:
  assumes "k \<notin> fst ` set m" "ws \<noteq> []"
  shows "foldl (\<lambda>m (k, v). add_value k v m) m (map (Pair k) ws) = m @ [(k, ws)]"
proof -
  obtain w ws' where ws: "ws = w # ws'" using assms(2) by (cases ws) auto
  then show ?thesis
    using add_value_run [OF assms(1), of "[w]" ws'] assms(1) by (simp add: add_value_new)
qed

lemma foldl_settings:
  assumes "distinct ks" "\<forall>k \<in> set ks. f k \<noteq> [] \<and> k \<notin> fst ` set m"
  shows "foldl (\<lambda>m (k, v). add_value k v m) m (concat (map (\<lambda>k. map (Pair k) (f k)) ks)) = m @ map (\<lambda>k. (k, f k)) ks"
  using assms
proof (induction ks arbitrary: m)
  case (Cons k ks)
  then have "foldl (\<lambda>m (k, v). add_value k v m) m (map (Pair k) (f k)) = m @ [(k, f k)]"
    by (intro add_values_new) auto
  moreover have "\<forall>k' \<in> set ks. f k' \<noteq> [] \<and> k' \<notin> fst ` set (m @ [(k, f k)])"
    using Cons.prems by auto
  ultimately show ?case using Cons by simp
qed simp

text \<open>A query in which every key has a value is read back, its keys in order.\<close>

lemma ParseQuery_Encode:
  assumes "distinct (map fst vs)" "\<forall>(k, ws) \<in> set vs. ws \<noteq> []"
  shows "ParseQuery (Values_Encode vs) = map (\<lambda>k. (k, the (map_of vs k))) (sort (map fst vs))"
proof -
  have "\<forall>k \<in> set (sort (map fst vs)). the (map_of vs k) \<noteq> [] \<and> k \<notin> fst ` set []"
    using assms by (auto simp: map_of_eq_Some_iff [OF assms(1), THEN iffD2])
  then show ?thesis
    using foldl_settings [of "sort (map fst vs)" "\<lambda>k. the (map_of vs k)" "[]"] assms(1)
    by (simp add: ParseQuery_def parse_settings_Encode settings_def)
qed

lemma Values_Get_Encode:
  assumes "distinct (map fst vs)" "\<forall>(k, ws) \<in> set vs. ws \<noteq> []" "map_of vs k = Some (v # ws)"
  shows "Values_Get (ParseQuery (Values_Encode vs)) k = v"
proof -
  have "k \<in> set (sort (map fst vs))" using map_of_SomeD [OF assms(3)] by (auto simp: rev_image_eqI)
  then have "map_of (map (\<lambda>k. (k, the (map_of vs k))) (sort (map fst vs))) k = Some (v # ws)"
    using assms(3) by (simp add: map_of_map_restrict restrict_map_def)
  then show ?thesis by (simp add: Values_Get_def ParseQuery_Encode [OF assms(1,2)])
qed

lemma wire_Values_Encode: "list_all wire_char (Values_Encode vs)"
proof -
  have "wire_char x" if "x \<in> set (setting kv)" for x kv
    using that QueryEscape_set by (auto simp: setting_def wire_char_def)
  moreover have "wire_char CHR ''&''" by (simp add: wire_char_def)
  ultimately have "list_all wire_char (Join (map setting kvs) ''&'')" for kvs
    by (induction kvs rule: induct_list012) (auto simp: list_all_iff)
  then show ?thesis by (simp add: Values_Encode_settings)
qed

section \<open>Local paths\<close>

lemma parse_local:
  assumes "HasPrefix p ''/''" "\<not> HasPrefix p ''//''" "list_all wire_char p" "list_all wire_char q"
    "url_unescape PathMode p = Some path"
  shows "url_Parse (p @ (if q = [] then [] else CHR ''?'' # q)) =
    Some (empty_url\<lparr>url_Path := path, RawPath := (if p = url_escape PathMode path then [] else p), RawQuery := q\<rparr>)"
    (is "url_Parse ?raw = _")
proof -
  obtain p' where p': "p = CHR ''/'' # p'" using assms(1) by (auto simp: HasPrefix_def prefix_def)
  have ok: "\<forall>c \<in> set ?raw. \<not> ctl_byte c \<and> c \<noteq> CHR ''#''" and noq: "CHR ''?'' \<notin> set p"
    using assms(3,4) wire_char_plain by (auto simp: list_all_iff ctl_byte_def)
  have cutq: "cut CHR ''?'' ?raw = (p, if q = [] then None else Some q)"
    using noq cut_append [of "CHR ''?''" p q] cut_none [of "CHR ''?''" p] by auto
  have gs: "getScheme ?raw = Some ([], ?raw)"
    unfolding p' getScheme_def by (simp add: is_letter_def is_digit_iff)
  have "ToLower [] = []" by (simp add: ToLower_def)
  moreover have "empty_url\<lparr>url_Scheme := []\<rparr> = empty_url" by (simp add: empty_url_def)
  moreover have "\<not> list_ex ctl_byte ?raw" "?raw \<noteq> ''*''" using ok p' by (auto simp: list_ex_iff)
  ultimately have base: "parse_base ?raw = parse_rest (empty_url\<lparr>RawQuery := q\<rparr>) p"
    unfolding parse_base_def gs option.case prod.case Let_def cutq by (auto split: list.split simp: empty_url_def)
  have rest: "parse_rest (empty_url\<lparr>RawQuery := q\<rparr>) p = setPath p (empty_url\<lparr>RawQuery := q\<rparr>)"
    using assms(1,2) by (simp add: parse_rest_def) (simp add: empty_url_def)
  have frag: "cut CHR ''#'' ?raw = (?raw, None)" using ok by (intro cut_none) blast
  show ?thesis
    unfolding url_Parse_def frag prod.case base rest by (simp add: setPath_def assms(5) empty_url_def)
qed

lemma url_unescape_escape: "url_unescape PathMode (url_escape PathMode s) = Some s"
proof (induction s)
  case (Cons c s)
  have "url_unescape PathMode (percent c @ r) = map_option ((#) c) (url_unescape PathMode r)" for r
    by (simp add: percent_def)
  moreover have "shouldEscape PathMode CHR ''%''" by (simp add: shouldEscape_def)
  ultimately show ?case
    using Cons by (auto simp: url_escape_def)
qed (simp add: url_escape_def)

lemma url_escape_wire: "list_all wire_char s \<Longrightarrow> list_all wire_char (url_escape PathMode s)"
proof -
  have "wire_char x" if "x \<in> set (percent c)" for c x
    using percent_chars [OF that] by (auto simp: wire_char_def)
  then show "list_all wire_char s \<Longrightarrow> ?thesis" by (auto simp: url_escape_def list_all_iff)
qed

text \<open>A URL of a plain host and a path is read back.\<close>

lemma parse_String_plain:
  assumes "scheme \<in> {''https'', ''http''}" "plain_host h" "HasPrefix path ''/''" "list_all wire_char path"
  shows "url_String (empty_url\<lparr>url_Scheme := scheme, Host := h, url_Path := path\<rparr>) = scheme @ ''://'' @ h @ url_escape PathMode path"
    and "\<exists>raw. url_Parse (scheme @ ''://'' @ h @ url_escape PathMode path) =
      Some (empty_url\<lparr>url_Scheme := scheme, Host := h, url_Path := path, RawPath := raw\<rparr>)"
proof -
  obtain p where p: "path = CHR ''/'' # p" using assms(3) by (auto simp: HasPrefix_def prefix_def)
  then have e: "HasPrefix (url_escape PathMode path) ''/''"
    by (simp add: url_escape_def HasPrefix_def shouldEscape_def)
  let ?u = "empty_url\<lparr>url_Scheme := scheme, Host := h, url_Path := path, RawPath := [], RawQuery := []\<rparr>"
  have esc: "EscapedPath ?u = url_escape PathMode path" using p by (simp add: EscapedPath_def)
  have u: "?u = empty_url\<lparr>url_Scheme := scheme, Host := h, url_Path := path\<rparr>" by (simp add: empty_url_def)
  have "scheme \<noteq> []" using assms(1) by auto
  from String_plain [OF this assms(2) _ refl, where path = path and raw = "[]" and q = "[]"] e esc
  have "url_String ?u = scheme @ ''://'' @ h @ url_escape PathMode path" by simp
  then show "url_String (empty_url\<lparr>url_Scheme := scheme, Host := h, url_Path := path\<rparr>) = scheme @ ''://'' @ h @ url_escape PathMode path"
    by (simp only: u)
  show "\<exists>raw. url_Parse (scheme @ ''://'' @ h @ url_escape PathMode path) =
      Some (empty_url\<lparr>url_Scheme := scheme, Host := h, url_Path := path, RawPath := raw\<rparr>)"
    using parse_plain [OF assms(1,2) disjI2 [OF e] url_escape_wire [OF assms(4)] _ url_unescape_escape, of "[]"]
    by (auto simp: empty_url_def)
qed

end
