(* ===== verification/Go_Http.thy ===== *)
theory Go_Http
  imports Go_Url
begin

text \<open>
  The part of \<open>net/http\<close> the clients of the sources share. A server, with the network before it,
  is a function on a world \<open>'w\<close>, a parameter: it takes a request and gives a transport error of
  some type \<open>'e\<close> or a response, and the next world. A response's body is the bytes that can be
  read and the error that ends the reading, if one does.
\<close>

record http_request =
  Method :: string
  RequestURL :: string
  RequestHeader :: "(string, string) go_map"
  RequestBody :: "string option"

record 'e http_response =
  StatusCode :: int
  ResponseHeader :: "(string, string) go_map"
  Body :: string
  BodyError :: "'e option"

type_synonym ('w, 'e) http_server = "'w \<Rightarrow> http_request \<Rightarrow> ('e + 'e http_response) \<times> 'w"

text \<open>\<open>Header.Get\<close>: names are compared without case.\<close>

definition header_Get :: "(string, string) go_map \<Rightarrow> string \<Rightarrow> string" where
  "header_Get h k = (case find (\<lambda>(n, v). ToLower n = ToLower k) h of Some (n, v) \<Rightarrow> v | None \<Rightarrow> [])"

text \<open>\<open>Header.Set\<close>\<close>

definition header_Set :: "string \<Rightarrow> string \<Rightarrow> (string, string) go_map \<Rightarrow> (string, string) go_map" where
  "header_Set k v h = filter (\<lambda>(n, x). ToLower n \<noteq> ToLower k) h @ [(k, v)]"

text \<open>\<open>io.ReadAll\<close> of a body, and of its first \<open>n\<close> bytes (\<open>io.LimitReader\<close>): an error of the body is
  met only when the limit does not stop the reading before it.\<close>

definition read_all :: "'e http_response \<Rightarrow> 'e + string" where
  "read_all r = (case BodyError r of None \<Rightarrow> Inr (Body r) | Some e \<Rightarrow> Inl e)"

definition read_limited :: "nat \<Rightarrow> 'e http_response \<Rightarrow> 'e + string" where
  "read_limited n r = (if n \<le> length (Body r) then Inr (take n (Body r)) else read_all r)"

text \<open>\<open>http.NewRequest\<close> fails only for an URL that does not parse, the methods being constants. The
  request is sent to the parsed URL, without the colon of an empty port.\<close>

definition request_url :: "string \<Rightarrow> url option" where
  "request_url endpoint = map_option (\<lambda>u. u\<lparr>Host := TrimSuffix (Host u) '':''\<rparr>) (url_Parse endpoint)"

definition NewRequest :: "string \<Rightarrow> string \<Rightarrow> string option \<Rightarrow> http_request option" where
  "NewRequest method endpoint body =
     map_option (\<lambda>u. \<lparr>Method = method, RequestURL = url_String u, RequestHeader = [], RequestBody = body\<rparr>)
       (request_url endpoint)"

definition set_header :: "string \<Rightarrow> string \<Rightarrow> http_request \<Rightarrow> http_request" where
  "set_header k v r = r\<lparr>RequestHeader := header_Set k v (RequestHeader r)\<rparr>"

lemma NewRequest_simps:
  "NewRequest m u b = Some r \<Longrightarrow> Method r = m \<and> RequestHeader r = [] \<and> RequestBody r = b"
  by (auto simp: NewRequest_def)

lemma set_header_simps [simp]:
  "Method (set_header k v r) = Method r" "RequestURL (set_header k v r) = RequestURL r"
  "RequestBody (set_header k v r) = RequestBody r"
  "RequestHeader (set_header k v r) = header_Set k v (RequestHeader r)"
  by (simp_all add: set_header_def)

lemma header_Get_Set_same [simp]: "header_Get (header_Set k v h) k = v"
proof -
  have "find (\<lambda>(n, x). ToLower n = ToLower k) (filter (\<lambda>(n, x). ToLower n \<noteq> ToLower k) h @ [(k, v)]) = Some (k, v)"
    by (induction h) auto
  then show ?thesis by (simp add: header_Get_def header_Set_def)
qed

lemma header_Get_Set_other: "ToLower k' \<noteq> ToLower k \<Longrightarrow> header_Get (header_Set k v h) k' = header_Get h k'"
proof -
  assume other: "ToLower k' \<noteq> ToLower k"
  have "find (\<lambda>(n, x). ToLower n = ToLower k') (filter (\<lambda>(n, x). ToLower n \<noteq> ToLower k) h @ [(k, v)]) =
      find (\<lambda>(n, x). ToLower n = ToLower k') h"
    using other by (induction h) auto
  then show ?thesis by (simp add: header_Get_def header_Set_def)
qed

end
