(* ===== verification/Fulcrum_Client.thy ===== *)
theory Fulcrum_Client
  imports Fulcrum_Types Go_Http
begin

text \<open>
  Package \<open>fulcrumprojects\<close>, the client: \<open>client.go\<close>. The server is a function on a world, as in
  \<open>Go_Http\<close>. An operation of the client gives its error or its value, and the next world.
\<close>

section \<open>Configuration\<close>

record fp_config =
  BaseURL :: string
  Token :: string
  ConfigClientID :: string
  UserAgent :: string

record fp_client =
  baseURL :: string
  fp_token :: string
  clientID :: string
  userAgent :: string

definition maxResponseBytes :: nat where "maxResponseBytes = 67108864"

definition isLoopback :: "string \<Rightarrow> bool" where
  "isLoopback host \<longleftrightarrow> host = ''localhost'' \<or> HasPrefix host ''127.'' \<or> host = ''::1''"

definition fp_New :: "fp_config \<Rightarrow> fp_error + fp_client" where
  "fp_New config =
     (let bad = (\<lambda>format. Inl (fp_errorf FPInvalidConfig 0 format)) in
      case url_Parse (BaseURL config) of
        None \<Rightarrow> bad ''base URL must be an https URL (http only on loopback)''
      | Some parsed \<Rightarrow>
          if (url_Scheme parsed \<noteq> ''https''
                \<and> \<not> (url_Scheme parsed = ''http'' \<and> isLoopback (Hostname parsed)))
             \<or> Host parsed = [] \<or> RawQuery parsed \<noteq> [] \<or> Fragment parsed \<noteq> []
          then bad ''base URL must be an https URL (http only on loopback)''
          else if length (Token config) < 32 \<or> TrimSpace (Token config) \<noteq> Token config
          then bad ''device token must be at least 32 bytes with no surrounding whitespace''
          else if ConfigClientID config = [] \<or> 240 < length (ConfigClientID config)
          then bad ''client id must be 1..240 bytes''
          else Inr \<lparr>baseURL = TrimRight (url_String parsed) ''/'', fp_token = Token config,
            clientID = ConfigClientID config,
            userAgent = (if UserAgent config = [] then ''fulcrumprojects-go/0'' else UserAgent config)\<rparr>)"

text \<open>\<open>String\<close> and \<open>GoString\<close>\<close>

definition fp_client_String :: "fp_client \<Rightarrow> string" where
  "fp_client_String c = ''fulcrumprojects.Client{'' @ baseURL c @ ''}''"

text \<open>A credential in the base URL survives \<open>New\<close> and is shown by \<open>String\<close>.\<close>

lemma fp_New_shows_userinfo:
  "map_option fp_client_String (case fp_New \<lparr>BaseURL = ''https://u:pw@h'', Token = replicate 32 (CHR ''t''),
      ConfigClientID = ''w'', UserAgent = []\<rparr> of Inl _ \<Rightarrow> None | Inr c \<Rightarrow> Some c)
   = Some ''fulcrumprojects.Client{https://u:pw@h}''"
  by code_simp

section \<open>One call\<close>

record api_error_body =
  ErrorToken :: string

definition set_api_error :: "api_error_body setter" where
  "set_api_error = set_struct False [(''error'', set_string (\<lambda>v. ErrorToken_update (\<lambda>_. v)))]"

text \<open>The error of the decoding is ignored; what was set before it counts.\<close>

definition apiError :: "int \<Rightarrow> string \<Rightarrow> fp_error" where
  "apiError status payload =
     (let body = fst (Unmarshal_into set_api_error payload \<lparr>ErrorToken = []\<rparr>);
          token = (if ErrorToken body = [] then ''status_'' @ show_int status else ErrorToken body);
          code =
            (if token = ''sync_epoch_mismatch'' \<or> token = ''resnapshot_required'' then FPEpochMismatch
             else if status = 409 then FPConflict
             else if status = 400 then FPInvalidRequest
             else if status = 401 \<or> (status = 404 \<and> token = ''not_found'') then FPUnauthorized
             else if status = 403 then FPForbidden
             else if status = 429 then FPRateLimited
             else if 500 \<le> status then FPTransportUnavailable
             else FPUnexpectedResponse)
      in fp_errorf code status token)"

definition fp_request :: "fp_client \<Rightarrow> string \<Rightarrow> string \<Rightarrow> (string, string list) go_map \<Rightarrow> string option \<Rightarrow> http_request option" where
  "fp_request c method path query body =
     map_option (\<lambda>r. (if body \<noteq> None then set_header ''Content-Type'' ''application/json'' else id)
         (set_header ''User-Agent'' (userAgent c)
           (set_header ''Accept'' ''application/json''
             (set_header ''Authorization'' (''Bearer '' @ fp_token c) r))))
       (NewRequest method (baseURL c @ path @ (if query = [] then [] else CHR ''?'' # Values_Encode query)) body)"

text \<open>\<open>setter\<close> decodes the answer into \<open>zero\<close>.\<close>

definition fp_do ::
  "('w, 'e) http_server \<Rightarrow> fp_client \<Rightarrow> string \<Rightarrow> string \<Rightarrow> (string, string list) go_map \<Rightarrow> string option
   \<Rightarrow> 'a setter \<Rightarrow> 'a \<Rightarrow> 'w \<Rightarrow> (fp_error + 'a) \<times> 'w" where
  "fp_do server c method path query body setter zero w =
     (case fp_request c method path query body of
        None \<Rightarrow> (Inl (fp_errorf FPInvalidRequest 0 ''build request: %v''), w)
      | Some request \<Rightarrow>
          (case server w request of
             (Inl e, w1) \<Rightarrow> (Inl (fp_errorf FPTransportUnavailable 0 ''%s %s: transport failed''), w1)
           | (Inr response, w1) \<Rightarrow>
               (case read_limited (maxResponseBytes + 1) response of
                  Inl e \<Rightarrow> (Inl (fp_errorf FPTransportUnavailable (StatusCode response)
                      ''%s %s: answer unreadable or oversized''), w1)
                | Inr payload \<Rightarrow>
                    if maxResponseBytes < length payload
                    then (Inl (fp_errorf FPTransportUnavailable (StatusCode response)
                      ''%s %s: answer unreadable or oversized''), w1)
                    else if StatusCode response \<noteq> 200 then (Inl (apiError (StatusCode response) payload), w1)
                    else (case Unmarshal_into setter payload zero of
                        (value, True) \<Rightarrow> (Inr value, w1)
                      | (_, False) \<Rightarrow> (Inl (fp_errorf FPUnexpectedResponse (StatusCode response)
                          ''%s %s: answer is not the expected JSON''), w1)))))"

section \<open>The operations\<close>

definition fp_Snapshot :: "('w, 'e) http_server \<Rightarrow> fp_client \<Rightarrow> string \<Rightarrow> 'w \<Rightarrow> (fp_error + snapshot) \<times> 'w" where
  "fp_Snapshot server c date w =
     fp_do server c ''GET'' ''/api/v2/snapshot'' (if date \<noteq> [] then [(''date'', [date])] else []) None
       set_snapshot empty_snapshot w"

definition fp_Changes :: "('w, 'e) http_server \<Rightarrow> fp_client \<Rightarrow> int \<Rightarrow> int \<Rightarrow> 'w \<Rightarrow> (fp_error + changes) \<times> 'w" where
  "fp_Changes server c since epoch w =
     (if since < 0 \<or> epoch < 0
      then (Inl (fp_errorf FPInvalidRequest 0 ''since and epoch must be non-negative''), w)
      else fp_do server c ''GET'' ''/api/v2/changes''
        [(''since'', [show_int since]), (''epoch'', [show_int epoch])] None set_changes empty_changes w)"

record me_body =
  MemberID :: string

definition fp_Me :: "('w, 'e) http_server \<Rightarrow> fp_client \<Rightarrow> 'w \<Rightarrow> (fp_error + string) \<times> 'w" where
  "fp_Me server c w =
     (case fp_do server c ''GET'' ''/api/v2/me'' [] None
        (set_struct False [(''memberId'', set_string (\<lambda>v. MemberID_update (\<lambda>_. v)))]) \<lparr>MemberID = []\<rparr> w of
        (Inl e, w1) \<Rightarrow> (Inl e, w1)
      | (Inr me, w1) \<Rightarrow> (Inr (MemberID me), w1))"

text \<open>The answer must hold one result for each mutation, in order.\<close>

definition check_results :: "mutation list \<Rightarrow> fp_result list \<Rightarrow> fp_error option" where
  "check_results mutations results =
     (if length results \<noteq> length mutations
      then Some (fp_errorf FPUnexpectedResponse 200 ''results count %d differs from mutations %d'')
      else if list_all2 (\<lambda>r m. ResultID r = MutationID m) results mutations then None
      else Some (fp_errorf FPUnexpectedResponse 200 ''result %d answers %q, not %q''))"

definition fp_Mutate ::
  "('w, 'e) http_server \<Rightarrow> fp_client \<Rightarrow> int \<Rightarrow> mutation list \<Rightarrow> 'w \<Rightarrow> (fp_error + fp_result list) \<times> 'w" where
  "fp_Mutate server c epoch mutations w =
     (if mutations = [] \<or> MaxBatchMutations < length mutations
      then (Inl (fp_errorf FPInvalidRequest 0 ''a batch carries 1..%d mutations''), w)
      else if \<not> list_all mutation_complete mutations
      then (Inl (fp_errorf FPInvalidRequest 0 ''mutation %d is incomplete''), w)
      else
        (let body = encode_batch \<lparr>BatchEpoch = epoch, BatchClientID = clientID c, Mutations = mutations\<rparr> in
         case fp_do server c ''POST'' ''/api/v2/mutations'' [] (Some body) set_results [] w of
           (Inl e, w1) \<Rightarrow> (Inl e, w1)
         | (Inr results, w1) \<Rightarrow>
             (case check_results mutations results of
                Some e \<Rightarrow> (Inl e, w1)
              | None \<Rightarrow> (Inr results, w1))))"

text \<open>
  \<open>build\<close> is the caller's: it may act on the world, and its error is any error. The result is
  the error, the snapshot and the results. The loop ends by a return of its second round, so
  that the statement behind it is not reached; \<open>left\<close> counts the rounds left.
\<close>

fun retry_rounds ::
  "nat \<Rightarrow> ('w, 'e) http_server \<Rightarrow> fp_client \<Rightarrow> (snapshot \<Rightarrow> 'w \<Rightarrow> (fp_error + mutation list) \<times> 'w)
   \<Rightarrow> snapshot \<Rightarrow> 'w \<Rightarrow> (fp_error option \<times> snapshot \<times> fp_result list) \<times> 'w" where
  "retry_rounds 0 server c build snap w =
     ((Some (fp_errorf FPEpochMismatch 409 ''epoch moved twice''), snap, []), w)"
| "retry_rounds (Suc left) server c build snap w =
     (case build snap w of
        (Inl e, w1) \<Rightarrow> ((Some e, snap, []), w1)
      | (Inr mutations, w1) \<Rightarrow>
          (case fp_Mutate server c (Epoch snap) mutations w1 of
             (Inr results, w2) \<Rightarrow> ((None, snap, results), w2)
           | (Inl e, w2) \<Rightarrow>
               if \<not> fp_IsCode (Some e) FPEpochMismatch \<or> left = 0 then ((Some e, snap, []), w2)
               else (case fp_Snapshot server c [] w2 of
                  (Inl e', w3) \<Rightarrow> ((Some e', empty_snapshot, []), w3)
                | (Inr snap', w3) \<Rightarrow> retry_rounds left server c build snap' w3)))"

definition fp_Retry ::
  "('w, 'e) http_server \<Rightarrow> fp_client \<Rightarrow> (snapshot \<Rightarrow> 'w \<Rightarrow> (fp_error + mutation list) \<times> 'w) \<Rightarrow> 'w
   \<Rightarrow> (fp_error option \<times> snapshot \<times> fp_result list) \<times> 'w" where
  "fp_Retry server c build w =
     (case fp_Snapshot server c [] w of
        (Inl e, w1) \<Rightarrow> ((Some e, empty_snapshot, []), w1)
      | (Inr snap, w1) \<Rightarrow> retry_rounds 2 server c build snap w1)"

text \<open>\<open>Results.Applied\<close>: the first result of the mutation decides; an absent entity is nil.\<close>

definition result_outcome :: "fp_result \<Rightarrow> fp_error + json option" where
  "result_outcome r =
     (if ResultStatus r = ''applied'' \<or> ResultStatus r = ''answered'' then Inr (Entity r)
      else if ResultStatus r = ''duplicate'' then
        (case OriginalResult r of
           Some orig \<Rightarrow>
             if ResultStatus orig = ''applied'' then Inr (Entity orig)
             else Inl (fp_errorf FPConflict 200 ''mutation %s: duplicate of a non-applied result'')
         | None \<Rightarrow> Inl (fp_errorf FPConflict 200 ''mutation %s: duplicate of a non-applied result''))
      else if ResultStatus r = ''conflict'' then Inl (fp_errorf FPConflict 200 ''mutation %s: conflict: %s'')
      else if ResultStatus r = ''retryable''
      then Inl (fp_errorf FPTransportUnavailable 200 ''mutation %s: retryable: %s'')
      else Inl (fp_errorf FPInvalidRequest 200 ''mutation %s: %s: %s''))"

definition Applied :: "fp_result list \<Rightarrow> string \<Rightarrow> fp_error + json option" where
  "Applied results mutationID =
     (case find (\<lambda>r. ResultID r = mutationID) results of
        None \<Rightarrow> Inl (fp_errorf FPUnexpectedResponse 200 ''mutation %s has no result'')
      | Some r \<Rightarrow> result_outcome r)"

section \<open>What a call does\<close>

lemma fp_request_fields:
  assumes "fp_request c method path query body = Some r"
  shows "Method r = method \<and> RequestBody r = body
    \<and> header_Get (RequestHeader r) ''Authorization'' = ''Bearer '' @ fp_token c"
proof -
  from assms obtain r0 where r0: "NewRequest method (baseURL c @ path
      @ (if query = [] then [] else CHR ''?'' # Values_Encode query)) body = Some r0"
    and r: "r = (if body \<noteq> None then set_header ''Content-Type'' ''application/json'' else id)
         (set_header ''User-Agent'' (userAgent c)
           (set_header ''Accept'' ''application/json''
             (set_header ''Authorization'' (''Bearer '' @ fp_token c) r0)))"
    by (auto simp: fp_request_def)
  have other: "ToLower ''Authorization'' \<noteq> ToLower ''Accept''"
    "ToLower ''Authorization'' \<noteq> ToLower ''User-Agent''"
    "ToLower ''Authorization'' \<noteq> ToLower ''Content-Type''" by code_simp+
  show ?thesis
    using NewRequest_simps [OF r0] unfolding r by (simp add: header_Get_Set_other other)
qed

lemma fp_do_cases:
  assumes "fp_do server c method path query body setter zero w = (res, w')"
  obtains (unsent) e where "res = Inl e" "w' = w" "fp_IsCode (Some e) FPInvalidRequest"
  | (sent) request answer where "fp_request c method path query body = Some request"
      "server w request = (answer, w')"
      "\<And>v. res = Inr v \<Longrightarrow> \<exists>r payload. answer = Inr r \<and> StatusCode r = 200 \<and> read_all r = Inr payload
         \<and> length payload \<le> maxResponseBytes \<and> Unmarshal_into setter payload zero = (v, True)"
proof (cases "fp_request c method path query body")
  case None
  with assms show thesis by (intro unsent) (auto simp: fp_do_def)
next
  case (Some request)
  obtain answer w1 where s: "server w request = (answer, w1)" by (cases "server w request")
  have w': "w' = w1"
    using assms Some s
    by (auto simp: fp_do_def split: sum.splits if_splits prod.splits bool.splits)
  show thesis
  proof (rule sent [of request answer])
    fix v assume "res = Inr v"
    then show "\<exists>r payload. answer = Inr r \<and> StatusCode r = 200 \<and> read_all r = Inr payload
        \<and> length payload \<le> maxResponseBytes \<and> Unmarshal_into setter payload zero = (v, True)"
      using assms Some s
      by (auto simp: fp_do_def read_limited_def split: sum.splits if_splits prod.splits bool.splits)
  qed (use Some s w' in auto)
qed

lemma check_results_None:
  "check_results ms rs = None \<longleftrightarrow> map ResultID rs = map MutationID ms"
  by (auto simp: check_results_def list_all2_conv_all_nth list_eq_iff_nth_eq)

lemma fp_do_ok:
  assumes "fp_request c method path query body = Some request"
    and "server w request = (Inr response, w')" "StatusCode response = 200" "BodyError response = None"
    and "length (Body response) \<le> 67108864" "Unmarshal_into setter (Body response) zero = (v, True)"
  shows "fp_do server c method path query body setter zero w = (Inr v, w')"
  using assms by (simp add: fp_do_def read_limited_def read_all_def maxResponseBytes_def)

text \<open>A concrete client and a server that counts its calls, for the witnesses.\<close>

definition demo_client :: fp_client where
  "demo_client = \<lparr>baseURL = ''https://a.b'', fp_token = ''t'', clientID = ''w'', userAgent = ''u''\<rparr>"

definition demo_mutation :: mutation where
  "demo_mutation = \<lparr>MutationID = ''m'', Kind = ''k'', Target = ''t'', BaseVersion = 1, Payload = ''{}''\<rparr>"

definition demo_answer :: "string \<Rightarrow> string" where
  "demo_answer method = (if method = ''GET'' then ''{'' @ quoted ''epoch'' @ ''5}''
          else ''{'' @ quoted ''results'' @ ''[{'' @ quoted ''mutationId'' @ json_string ''m'' @ '',''
            @ quoted ''status'' @ json_string ''applied'' @ ''}]}'')"

definition demo_server :: "(nat, string) http_server" where
  "demo_server w request =
     (Inr \<lparr>StatusCode = 200, ResponseHeader = [], Body = demo_answer (Method request), BodyError = None\<rparr>, Suc w)"

definition demo_build :: "snapshot \<Rightarrow> nat \<Rightarrow> (fp_error + mutation list) \<times> nat" where
  "demo_build snap w = (Inr [demo_mutation], w)"

lemma demo_do:
  assumes "url_Parse (''https://a.b'' @ path) \<noteq> None" "length (demo_answer method) \<le> 67108864"
    and "Unmarshal_into setter (demo_answer method) zero = (v, True)"
  shows "fp_do demo_server demo_client method path [] body setter zero w = (Inr v, Suc w)"
proof -
  from assms(1) obtain r where r: "fp_request demo_client method path [] body = Some r"
    by (auto simp: fp_request_def NewRequest_def request_url_def demo_client_def)
  show ?thesis
    by (rule fp_do_ok [OF r]) (use fp_request_fields [OF r] assms in \<open>auto simp: demo_server_def\<close>)
qed

lemma demo_Snapshot:
  "fp_Snapshot demo_server demo_client [] w = (Inr (empty_snapshot\<lparr>Epoch := 5\<rparr>), Suc w)"
proof -
  have 1: "url_Parse (''https://a.b'' @ ''/api/v2/snapshot'') \<noteq> None" by code_simp
  have 2: "length (demo_answer ''GET'') = 11" by code_simp
  have 3: "Unmarshal_into set_snapshot (demo_answer ''GET'') empty_snapshot = (empty_snapshot\<lparr>Epoch := 5\<rparr>, True)"
    by code_simp
  show ?thesis unfolding fp_Snapshot_def using 2 demo_do [OF 1 _ 3] by simp
qed
lemma demo_Mutate:
  "fp_Mutate demo_server demo_client 5 [demo_mutation] w =
     (Inr [Result ''m'' ''applied'' None None None None [] None], Suc w)"
proof -
  have 1: "url_Parse (''https://a.b'' @ ''/api/v2/mutations'') \<noteq> None" by code_simp
  have 2: "length (demo_answer ''POST'') = 51" by code_simp
  have 3: "Unmarshal_into set_results (demo_answer ''POST'') [] = ([Result ''m'' ''applied'' None None None None [] None], True)"
    by code_simp
  have 4: "mutation_complete demo_mutation" "length [demo_mutation] \<le> MaxBatchMutations" by code_simp+
  have 5: "check_results [demo_mutation] [Result ''m'' ''applied'' None None None None [] None] = None" by code_simp
  show ?thesis using 2 4 5 demo_do [OF 1 _ 3]  by (simp add: fp_Mutate_def)
qed

text \<open>C7: When \<open>Mutate\<close> succeeds, the batch had 1 to 32 complete mutations, exactly one request was
  made, a POST of the encoded batch with the client's bearer token, and the results answer the
  mutations one for one in their order.\<close>

theorem fp_Mutate_aligned:
  assumes "fp_Mutate server c epoch ms w = (Inr results, w')"
  shows "1 \<le> length ms \<and> length ms \<le> 32 \<and> list_all mutation_complete ms
    \<and> map ResultID results = map MutationID ms
    \<and> (\<exists>request response. server w request = (Inr response, w') \<and> StatusCode response = 200
        \<and> Method request = ''POST''
        \<and> RequestBody request = Some (encode_batch \<lparr>BatchEpoch = epoch, BatchClientID = clientID c, Mutations = ms\<rparr>)
        \<and> header_Get (RequestHeader request) ''Authorization'' = ''Bearer '' @ fp_token c)"
proof -
  let ?body = "encode_batch \<lparr>BatchEpoch = epoch, BatchClientID = clientID c, Mutations = ms\<rparr>"
  from assms have size: "ms \<noteq> []" "length ms \<le> MaxBatchMutations" "list_all mutation_complete ms"
    by (auto simp: fp_Mutate_def split: if_splits)
  with assms obtain rs where call: "fp_do server c ''POST'' ''/api/v2/mutations'' [] (Some ?body)
      set_results [] w = (Inr rs, w')" and chk: "check_results ms rs = None" and rs: "rs = results"
    by (auto simp: fp_Mutate_def Let_def split: prod.splits sum.splits option.splits)
  from call obtain request response where "fp_request c ''POST'' ''/api/v2/mutations'' [] (Some ?body) = Some request"
    "server w request = (Inr response, w')" "StatusCode response = 200"
    by (rule fp_do_cases) auto
  with fp_request_fields [OF this(1)] size chk rs show ?thesis
    by (cases ms) (auto simp: check_results_None MaxBatchMutations_def)
qed

theorem fp_Mutate_aligned_witness:
  "\<exists>request response. demo_server 0 request = (Inr response, 1) \<and> Method request = ''POST''
    \<and> header_Get (RequestHeader request) ''Authorization'' = ''Bearer t''"
  using fp_Mutate_aligned [OF demo_Mutate [of 0]] by (auto simp: demo_client_def)

text \<open>A batch that is empty, has more than 32 mutations or holds an incomplete one is refused as an
  invalid request, and nothing is sent.\<close>

lemma fp_Mutate_refuses:
  assumes "ms = [] \<or> 32 < length ms \<or> \<not> list_all mutation_complete ms"
  shows "\<exists>e. fp_Mutate server c epoch ms w = (Inl e, w) \<and> fp_IsCode (Some e) FPInvalidRequest"
  using assms by (auto simp: fp_Mutate_def MaxBatchMutations_def)

text \<open>In a successful batch of mutations with different ids, \<open>Applied\<close> judges each mutation by the
  result at its own place.\<close>

theorem fp_Mutate_then_Applied:
  assumes "fp_Mutate server c epoch ms w = (Inr results, w')" and "distinct (map MutationID ms)"
    and "i < length ms"
  shows "Applied results (MutationID (ms ! i)) = result_outcome (results ! i)"
proof -
  from assms(1) have ids: "map ResultID results = map MutationID ms"
    by (auto simp: fp_Mutate_def Let_def check_results_None [symmetric]
        split: if_splits prod.splits sum.splits option.splits)
  then have len: "length results = length ms" by (metis length_map)
  have id: "ResultID (results ! j) = MutationID (ms ! j)" if "j < length ms" for j
    using that ids len by (metis nth_map)
  have "find (\<lambda>r. ResultID r = MutationID (ms ! i)) results = Some (results ! i)"
    unfolding find_Some_iff using assms(2,3) len id
    by (intro exI [of _ i]) (auto simp: distinct_conv_nth)
  then show ?thesis by (simp add: Applied_def)
qed

theorem fp_Mutate_then_Applied_witness:
  "Applied [Result ''m'' ''applied'' None None None None [] None] (MutationID demo_mutation) = Inr None"
  using fp_Mutate_then_Applied [OF demo_Mutate [of 0], of 0] by (simp add: result_outcome_def)

section \<open>Retrying\<close>

lemma retry_rounds_None:
  assumes "retry_rounds left server c build snap0 w = ((None, snap, results), w')"
  shows "\<exists>w1 w2 ms. build snap w1 = (Inr ms, w2)
    \<and> fp_Mutate server c (Epoch snap) ms w2 = (Inr results, w')"
  using assms
  by (induction left server c build snap0 w rule: retry_rounds.induct)
    (fastforce split: prod.splits sum.splits if_splits)+

text \<open>C34: When \<open>Retry\<close> succeeds, the results are those of one batch that \<open>build\<close> made from the returned
  snapshot, written under the epoch of that snapshot, and they answer its mutations in order.\<close>

theorem fp_Retry_under_its_snapshot:
  assumes "fp_Retry server c build w = ((None, snap, results), w')"
  shows "\<exists>w1 w2 ms. build snap w1 = (Inr ms, w2)
    \<and> fp_Mutate server c (Epoch snap) ms w2 = (Inr results, w')
    \<and> map ResultID results = map MutationID ms"
proof -
  from assms obtain snap0 w0 where "retry_rounds 2 server c build snap0 w0 = ((None, snap, results), w')"
    by (auto simp: fp_Retry_def split: prod.splits sum.splits)
  from retry_rounds_None [OF this] obtain w1 w2 ms where b: "build snap w1 = (Inr ms, w2)"
    and m: "fp_Mutate server c (Epoch snap) ms w2 = (Inr results, w')"
    by blast
  have "map ResultID results = map MutationID ms"
    using m by (auto simp: fp_Mutate_def Let_def check_results_None [symmetric]
        split: if_splits prod.splits sum.splits option.splits)
  with b m show ?thesis by blast
qed

theorem fp_Retry_under_its_snapshot_witness:
  "\<exists>w1 w2 ms. demo_build (empty_snapshot\<lparr>Epoch := 5\<rparr>) w1 = (Inr ms, w2)
    \<and> map MutationID ms = [''m'']"
proof -
  have "fp_Retry demo_server demo_client demo_build 0 = ((None, empty_snapshot\<lparr>Epoch := 5\<rparr>,
      [Result ''m'' ''applied'' None None None None [] None]), 2)"
    by (simp add: fp_Retry_def demo_Snapshot demo_build_def numeral_2_eq_2 demo_Mutate)
  from fp_Retry_under_its_snapshot [OF this] show ?thesis
    by (elim exE conjE) (intro exI conjI, assumption, simp)
qed

text \<open>A world that counts the calls of the server and of the builder.\<close>

type_synonym 'w counted = "'w \<times> nat \<times> nat"

definition counted_server :: "('w, 'e) http_server \<Rightarrow> ('w counted, 'e) http_server" where
  "counted_server server cw request =
     (case cw of (w, calls, builds) \<Rightarrow>
       (case server w request of (answer, w') \<Rightarrow> (answer, (w', Suc calls, builds))))"

definition counted_build ::
  "(snapshot \<Rightarrow> 'w \<Rightarrow> (fp_error + mutation list) \<times> 'w) \<Rightarrow> snapshot \<Rightarrow> 'w counted
   \<Rightarrow> (fp_error + mutation list) \<times> 'w counted" where
  "counted_build build snap cw =
     (case cw of (w, calls, builds) \<Rightarrow> (case build snap w of (r, w') \<Rightarrow> (r, (w', calls, Suc builds))))"

abbreviation calls :: "'w counted \<Rightarrow> nat" where "calls cw \<equiv> fst (snd cw)"
abbreviation builds :: "'w counted \<Rightarrow> nat" where "builds cw \<equiv> snd (snd cw)"

lemma counted_server_step:
  "counted_server server cw request = (answer, cw') \<Longrightarrow> calls cw' = Suc (calls cw) \<and> builds cw' = builds cw"
  by (auto simp: counted_server_def split: prod.splits)

lemma counted_do:
  assumes "fp_do (counted_server server) c method path query body setter zero cw = (res, cw')"
  shows "calls cw' \<le> Suc (calls cw) \<and> builds cw' = builds cw"
  using assms by (rule fp_do_cases) (auto dest: counted_server_step)

lemma counted_Mutate:
  assumes "fp_Mutate (counted_server server) c epoch ms cw = (res, cw')"
  shows "calls cw' \<le> Suc (calls cw) \<and> builds cw' = builds cw"
proof -
  obtain res1 cw1 where d: "fp_do (counted_server server) c ''POST'' ''/api/v2/mutations'' []
      (Some (encode_batch \<lparr>BatchEpoch = epoch, BatchClientID = clientID c, Mutations = ms\<rparr>))
      set_results [] cw = (res1, cw1)" by (rule prod.exhaust)
  have "cw' = cw \<or> cw' = cw1"
    using assms d by (auto simp: fp_Mutate_def Let_def split: if_splits sum.splits option.splits)
  with counted_do [OF d] show ?thesis by auto
qed

lemma counted_Snapshot:
  assumes "fp_Snapshot (counted_server server) c date cw = (res, cw')"
  shows "calls cw' \<le> Suc (calls cw) \<and> builds cw' = builds cw"
  using assms unfolding fp_Snapshot_def by (rule counted_do)

lemma counted_build_step:
  "counted_build build snap cw = (r, cw') \<Longrightarrow> calls cw' = calls cw \<and> builds cw' = Suc (builds cw)"
  by (auto simp: counted_build_def split: prod.splits)

lemma counted_rounds:
  assumes "retry_rounds left (counted_server server) c (counted_build build) snap cw = (res, cw')"
  shows "calls cw' \<le> calls cw + (2 * left - 1) \<and> builds cw' \<le> builds cw + left"
  using assms
proof (induction left arbitrary: snap cw)
  case (Suc left)
  obtain b cw1 where b: "counted_build build snap cw = (b, cw1)" by (rule prod.exhaust)
  note b' = counted_build_step [OF b]
  show ?case
  proof (cases b)
    case (Inl e)
    with Suc.prems b b' show ?thesis by auto
  next
    case (Inr ms)
    obtain m cw2 where m: "fp_Mutate (counted_server server) c (Epoch snap) ms cw1 = (m, cw2)" by (rule prod.exhaust)
    note m' = counted_Mutate [OF m]
    obtain s cw3 where s: "fp_Snapshot (counted_server server) c [] cw2 = (s, cw3)" by (rule prod.exhaust)
    note s' = counted_Snapshot [OF s]
    consider "cw' = cw2" | "cw' = cw3" "left \<noteq> 0"
      | snap' where "left \<noteq> 0" "retry_rounds left (counted_server server) c (counted_build build) snap' cw3 = (res, cw')"
      using Suc.prems b Inr m s by (auto split: sum.splits if_splits)
    then show ?thesis
    proof cases
      case 3
      from Suc.IH [OF 3(2)] 3(1) b' m' s' show ?thesis by auto
    qed (use b' m' s' in auto)
  qed
qed simp

text \<open>C29: \<open>Retry\<close> always ends within two rounds: whatever the server and the builder do, the builder is
  asked at most twice and at most four requests are made.\<close>

theorem fp_Retry_bounded:
  "let cw = snd (fp_Retry (counted_server server) c (counted_build build) (w, 0, 0))
   in builds cw \<le> 2 \<and> calls cw \<le> 4"
proof -
  obtain s cw1 where s: "fp_Snapshot (counted_server server) c [] (w, 0, 0) = (s, cw1)" by (rule prod.exhaust)
  note s' = counted_Snapshot [OF s]
  show ?thesis
  proof (cases s)
    case (Inl e)
    with s s' show ?thesis by (simp add: fp_Retry_def)
  next
    case (Inr snap)
    obtain res cw' where r: "retry_rounds 2 (counted_server server) c (counted_build build) snap cw1 = (res, cw')"
      by (rule prod.exhaust)
    from counted_rounds [OF r] s' show ?thesis
      by (simp add: fp_Retry_def s Inr r)
  qed
qed

end
