(* ===== verification/Fulcrum_Entities.thy ===== *)
theory Fulcrum_Entities
  imports Fulcrum_Types Go_Struct
begin

text \<open>
  The vocabularies and typed entities of \<open>fulcrumprojects/envelope.go\<close>: the constants of the wire, and the collections a caller
  decodes from a snapshot, with the encoding and decoding their tags give them.
\<close>

section \<open>Vocabularies\<close>

definition change_ops :: "string list" where "change_ops = [''upsert'', ''delete'']"

definition result_statuses :: "string list" where
  "result_statuses = [''applied'', ''answered'', ''conflict'', ''duplicate'', ''rejected'', ''retryable'']"

definition mutation_kinds :: "string list" where
  "mutation_kinds =
     [''todo.create'', ''daily.create'', ''task.complete'', ''task.reopen'', ''task.update'', ''task.move'', ''task.reparent'',
      ''task.note.create'', ''daily-link.schedule'', ''daily-link.unschedule'', ''project-task.create'', ''project-task.update'',
      ''project-task.handoff'', ''project-task.comment.create'', ''delegation.create'', ''delegation.update'',
      ''delegation.update-status'', ''delegation.complete'', ''delegation.comment'', ''my-work.list'', ''on-deck.list'']"

definition project_task_statuses :: "string list" where
  "project_task_statuses = [''Next'', ''Waiting'', ''Decision'', ''Setup'', ''Blocked'', ''Someday'', ''Scheduled'']"

definition project_task_priorities :: "string list" where
  "project_task_priorities = [''Critical'', ''High'', ''Medium'']"

definition delegation_priorities :: "string list" where
  "delegation_priorities = [''normal'', ''high'', ''urgent'']"

definition delegation_statuses :: "string list" where
  "delegation_statuses = [''open'', ''in-progress'', ''waiting'', ''done'']"

section \<open>Entities\<close>

record member =
  Member_ID :: string
  Member_DisplayName :: string
  Member_Role :: string
  Member_Active :: bool
  Member_Timezone :: string
  Member_Version :: int

definition empty_member :: member where
  "empty_member = \<lparr>
     Member_ID = [], Member_DisplayName = [], Member_Role = [], Member_Active = False, Member_Timezone = [],
     Member_Version = 0\<rparr>"

definition member_fields :: "(string \<times> member setter) list" where
  "member_fields = [
     (''id'', set_string (\<lambda>v x. x\<lparr>Member_ID := v\<rparr>)),
     (''displayName'', set_string (\<lambda>v x. x\<lparr>Member_DisplayName := v\<rparr>)),
     (''role'', set_string (\<lambda>v x. x\<lparr>Member_Role := v\<rparr>)),
     (''active'', set_bool (\<lambda>v x. x\<lparr>Member_Active := v\<rparr>)),
     (''timezone'', set_string (\<lambda>v x. x\<lparr>Member_Timezone := v\<rparr>)),
     (''version'', set_int64 (\<lambda>v x. x\<lparr>Member_Version := v\<rparr>))]"

definition member_members :: "member \<Rightarrow> (string \<times> json) list" where
  "member_members e = [
     (''id'', JStr (Member_ID e)), (''displayName'', JStr (Member_DisplayName e)), (''role'', JStr (Member_Role e)),
     (''active'', JBool (Member_Active e)), (''timezone'', JStr (Member_Timezone e)),
     (''version'', JNum (show_int (Member_Version e)))]"

definition member_ok :: "member \<Rightarrow> bool" where
  "member_ok e \<longleftrightarrow> list_all valid_utf8 [Member_ID e, Member_DisplayName e, Member_Role e, Member_Timezone e] \<and>
     int64 (Member_Version e)"

record project =
  Project_ID :: string
  Project_Slug :: string
  Project_Name :: string
  Project_Summary :: string
  Project_Version :: int
  Project_CompletedAt :: string

definition empty_project :: project where
  "empty_project = \<lparr>
     Project_ID = [], Project_Slug = [], Project_Name = [], Project_Summary = [], Project_Version = 0,
     Project_CompletedAt = []\<rparr>"

definition project_fields :: "(string \<times> project setter) list" where
  "project_fields = [
     (''id'', set_string (\<lambda>v x. x\<lparr>Project_ID := v\<rparr>)),
     (''slug'', set_string (\<lambda>v x. x\<lparr>Project_Slug := v\<rparr>)),
     (''name'', set_string (\<lambda>v x. x\<lparr>Project_Name := v\<rparr>)),
     (''summary'', set_string (\<lambda>v x. x\<lparr>Project_Summary := v\<rparr>)),
     (''version'', set_int64 (\<lambda>v x. x\<lparr>Project_Version := v\<rparr>)),
     (''completedAt'', set_string (\<lambda>v x. x\<lparr>Project_CompletedAt := v\<rparr>))]"

definition project_members :: "project \<Rightarrow> (string \<times> json) list" where
  "project_members e = [
     (''id'', JStr (Project_ID e)), (''slug'', JStr (Project_Slug e)), (''name'', JStr (Project_Name e)),
     (''summary'', JStr (Project_Summary e)), (''version'', JNum (show_int (Project_Version e))),
     (''completedAt'', JStr (Project_CompletedAt e))]"

definition project_ok :: "project \<Rightarrow> bool" where
  "project_ok e \<longleftrightarrow> list_all valid_utf8 [Project_ID e, Project_Slug e, Project_Name e, Project_Summary e, Project_CompletedAt e] \<and>
     int64 (Project_Version e)"

record project_task =
  ProjectTask_ID :: string
  ProjectTask_ProjectSlug :: string
  ProjectTask_Title :: string
  ProjectTask_Priority :: string
  ProjectTask_Status :: string
  ProjectTask_AssigneeMemberID :: "int option"
  ProjectTask_ParentTaskID :: "int option"
  ProjectTask_CompletedAt :: string
  ProjectTask_SortOrder :: int
  ProjectTask_Version :: int
  ProjectTask_CreatedAt :: string
  ProjectTask_UpdatedAt :: string

definition empty_project_task :: project_task where
  "empty_project_task = \<lparr>
     ProjectTask_ID = [], ProjectTask_ProjectSlug = [], ProjectTask_Title = [], ProjectTask_Priority = [],
     ProjectTask_Status = [], ProjectTask_AssigneeMemberID = None, ProjectTask_ParentTaskID = None,
     ProjectTask_CompletedAt = [], ProjectTask_SortOrder = 0, ProjectTask_Version = 0, ProjectTask_CreatedAt = [],
     ProjectTask_UpdatedAt = []\<rparr>"

definition project_task_fields :: "(string \<times> project_task setter) list" where
  "project_task_fields = [
     (''id'', set_string (\<lambda>v x. x\<lparr>ProjectTask_ID := v\<rparr>)),
     (''projectSlug'', set_string (\<lambda>v x. x\<lparr>ProjectTask_ProjectSlug := v\<rparr>)),
     (''title'', set_string (\<lambda>v x. x\<lparr>ProjectTask_Title := v\<rparr>)),
     (''priority'', set_string (\<lambda>v x. x\<lparr>ProjectTask_Priority := v\<rparr>)),
     (''status'', set_string (\<lambda>v x. x\<lparr>ProjectTask_Status := v\<rparr>)),
     (''assigneeMemberId'', set_pointer (set_int64 (\<lambda>v _. v)) 0 ProjectTask_AssigneeMemberID (\<lambda>v x. x\<lparr>ProjectTask_AssigneeMemberID := v\<rparr>)),
     (''parentTaskId'', set_pointer (set_int64 (\<lambda>v _. v)) 0 ProjectTask_ParentTaskID (\<lambda>v x. x\<lparr>ProjectTask_ParentTaskID := v\<rparr>)),
     (''completedAt'', set_string (\<lambda>v x. x\<lparr>ProjectTask_CompletedAt := v\<rparr>)),
     (''sortOrder'', set_int64 (\<lambda>v x. x\<lparr>ProjectTask_SortOrder := v\<rparr>)),
     (''version'', set_int64 (\<lambda>v x. x\<lparr>ProjectTask_Version := v\<rparr>)),
     (''createdAt'', set_string (\<lambda>v x. x\<lparr>ProjectTask_CreatedAt := v\<rparr>)),
     (''updatedAt'', set_string (\<lambda>v x. x\<lparr>ProjectTask_UpdatedAt := v\<rparr>))]"

definition project_task_members :: "project_task \<Rightarrow> (string \<times> json) list" where
  "project_task_members e = [
     (''id'', JStr (ProjectTask_ID e)), (''projectSlug'', JStr (ProjectTask_ProjectSlug e)),
     (''title'', JStr (ProjectTask_Title e)), (''priority'', JStr (ProjectTask_Priority e)),
     (''status'', JStr (ProjectTask_Status e)), (''assigneeMemberId'', json_pointer (ProjectTask_AssigneeMemberID e)),
     (''parentTaskId'', json_pointer (ProjectTask_ParentTaskID e)),
     (''completedAt'', JStr (ProjectTask_CompletedAt e)), (''sortOrder'', JNum (show_int (ProjectTask_SortOrder e))),
     (''version'', JNum (show_int (ProjectTask_Version e))), (''createdAt'', JStr (ProjectTask_CreatedAt e)),
     (''updatedAt'', JStr (ProjectTask_UpdatedAt e))]"

definition project_task_ok :: "project_task \<Rightarrow> bool" where
  "project_task_ok e \<longleftrightarrow> list_all valid_utf8 [ProjectTask_ID e, ProjectTask_ProjectSlug e, ProjectTask_Title e, ProjectTask_Priority e, ProjectTask_Status e, ProjectTask_CompletedAt e, ProjectTask_CreatedAt e, ProjectTask_UpdatedAt e] \<and>
     pred_option int64 (ProjectTask_AssigneeMemberID e) \<and>
     pred_option int64 (ProjectTask_ParentTaskID e) \<and>
     int64 (ProjectTask_SortOrder e) \<and>
     int64 (ProjectTask_Version e)"

record assigned_task =
  AssignedTask_ID :: string
  AssignedTask_Title :: string
  AssignedTask_Details :: string
  AssignedTask_DueDate :: string
  AssignedTask_Priority :: string
  AssignedTask_Status :: string
  AssignedTask_AssigneeMemberID :: int
  AssignedTask_AssignerMemberID :: int
  AssignedTask_RequiresSummary :: bool
  AssignedTask_OriginKind :: string
  AssignedTask_Version :: int
  AssignedTask_CompletedAt :: string
  AssignedTask_CreatedAt :: string
  AssignedTask_UpdatedAt :: string

definition empty_assigned_task :: assigned_task where
  "empty_assigned_task = \<lparr>
     AssignedTask_ID = [], AssignedTask_Title = [], AssignedTask_Details = [], AssignedTask_DueDate = [],
     AssignedTask_Priority = [], AssignedTask_Status = [], AssignedTask_AssigneeMemberID = 0,
     AssignedTask_AssignerMemberID = 0, AssignedTask_RequiresSummary = False, AssignedTask_OriginKind = [],
     AssignedTask_Version = 0, AssignedTask_CompletedAt = [], AssignedTask_CreatedAt = [], AssignedTask_UpdatedAt = []\<rparr>"

definition assigned_task_fields :: "(string \<times> assigned_task setter) list" where
  "assigned_task_fields = [
     (''id'', set_string (\<lambda>v x. x\<lparr>AssignedTask_ID := v\<rparr>)),
     (''title'', set_string (\<lambda>v x. x\<lparr>AssignedTask_Title := v\<rparr>)),
     (''details'', set_string (\<lambda>v x. x\<lparr>AssignedTask_Details := v\<rparr>)),
     (''dueDate'', set_string (\<lambda>v x. x\<lparr>AssignedTask_DueDate := v\<rparr>)),
     (''priority'', set_string (\<lambda>v x. x\<lparr>AssignedTask_Priority := v\<rparr>)),
     (''status'', set_string (\<lambda>v x. x\<lparr>AssignedTask_Status := v\<rparr>)),
     (''assigneeMemberId'', set_int64 (\<lambda>v x. x\<lparr>AssignedTask_AssigneeMemberID := v\<rparr>)),
     (''assignerMemberId'', set_int64 (\<lambda>v x. x\<lparr>AssignedTask_AssignerMemberID := v\<rparr>)),
     (''requiresSummary'', set_bool (\<lambda>v x. x\<lparr>AssignedTask_RequiresSummary := v\<rparr>)),
     (''originKind'', set_string (\<lambda>v x. x\<lparr>AssignedTask_OriginKind := v\<rparr>)),
     (''version'', set_int64 (\<lambda>v x. x\<lparr>AssignedTask_Version := v\<rparr>)),
     (''completedAt'', set_string (\<lambda>v x. x\<lparr>AssignedTask_CompletedAt := v\<rparr>)),
     (''createdAt'', set_string (\<lambda>v x. x\<lparr>AssignedTask_CreatedAt := v\<rparr>)),
     (''updatedAt'', set_string (\<lambda>v x. x\<lparr>AssignedTask_UpdatedAt := v\<rparr>))]"

definition assigned_task_members :: "assigned_task \<Rightarrow> (string \<times> json) list" where
  "assigned_task_members e = [
     (''id'', JStr (AssignedTask_ID e)), (''title'', JStr (AssignedTask_Title e)),
     (''details'', JStr (AssignedTask_Details e)), (''dueDate'', JStr (AssignedTask_DueDate e)),
     (''priority'', JStr (AssignedTask_Priority e)), (''status'', JStr (AssignedTask_Status e)),
     (''assigneeMemberId'', JNum (show_int (AssignedTask_AssigneeMemberID e))),
     (''assignerMemberId'', JNum (show_int (AssignedTask_AssignerMemberID e))),
     (''requiresSummary'', JBool (AssignedTask_RequiresSummary e)),
     (''originKind'', JStr (AssignedTask_OriginKind e)), (''version'', JNum (show_int (AssignedTask_Version e))),
     (''completedAt'', JStr (AssignedTask_CompletedAt e)), (''createdAt'', JStr (AssignedTask_CreatedAt e)),
     (''updatedAt'', JStr (AssignedTask_UpdatedAt e))]"

definition assigned_task_ok :: "assigned_task \<Rightarrow> bool" where
  "assigned_task_ok e \<longleftrightarrow> list_all valid_utf8 [AssignedTask_ID e, AssignedTask_Title e, AssignedTask_Details e, AssignedTask_DueDate e, AssignedTask_Priority e, AssignedTask_Status e, AssignedTask_OriginKind e, AssignedTask_CompletedAt e, AssignedTask_CreatedAt e, AssignedTask_UpdatedAt e] \<and>
     int64 (AssignedTask_AssigneeMemberID e) \<and>
     int64 (AssignedTask_AssignerMemberID e) \<and>
     int64 (AssignedTask_Version e)"

record todo_item =
  TodoItem_ID :: string
  TodoItem_Section :: string
  TodoItem_TaskDate :: string
  TodoItem_Title :: string
  TodoItem_CompletedAt :: string
  TodoItem_WorkStatus :: string
  TodoItem_Version :: int
  TodoItem_UpdatedAt :: string

definition empty_todo_item :: todo_item where
  "empty_todo_item = \<lparr>
     TodoItem_ID = [], TodoItem_Section = [], TodoItem_TaskDate = [], TodoItem_Title = [], TodoItem_CompletedAt = [],
     TodoItem_WorkStatus = [], TodoItem_Version = 0, TodoItem_UpdatedAt = []\<rparr>"

definition todo_item_fields :: "(string \<times> todo_item setter) list" where
  "todo_item_fields = [
     (''id'', set_string (\<lambda>v x. x\<lparr>TodoItem_ID := v\<rparr>)),
     (''section'', set_string (\<lambda>v x. x\<lparr>TodoItem_Section := v\<rparr>)),
     (''taskDate'', set_string (\<lambda>v x. x\<lparr>TodoItem_TaskDate := v\<rparr>)),
     (''title'', set_string (\<lambda>v x. x\<lparr>TodoItem_Title := v\<rparr>)),
     (''completedAt'', set_string (\<lambda>v x. x\<lparr>TodoItem_CompletedAt := v\<rparr>)),
     (''workStatus'', set_string (\<lambda>v x. x\<lparr>TodoItem_WorkStatus := v\<rparr>)),
     (''version'', set_int64 (\<lambda>v x. x\<lparr>TodoItem_Version := v\<rparr>)),
     (''updatedAt'', set_string (\<lambda>v x. x\<lparr>TodoItem_UpdatedAt := v\<rparr>))]"

definition todo_item_members :: "todo_item \<Rightarrow> (string \<times> json) list" where
  "todo_item_members e = [
     (''id'', JStr (TodoItem_ID e)), (''section'', JStr (TodoItem_Section e)),
     (''taskDate'', JStr (TodoItem_TaskDate e)), (''title'', JStr (TodoItem_Title e)),
     (''completedAt'', JStr (TodoItem_CompletedAt e)), (''workStatus'', JStr (TodoItem_WorkStatus e)),
     (''version'', JNum (show_int (TodoItem_Version e))), (''updatedAt'', JStr (TodoItem_UpdatedAt e))]"

definition todo_item_ok :: "todo_item \<Rightarrow> bool" where
  "todo_item_ok e \<longleftrightarrow> list_all valid_utf8 [TodoItem_ID e, TodoItem_Section e, TodoItem_TaskDate e, TodoItem_Title e, TodoItem_CompletedAt e, TodoItem_WorkStatus e, TodoItem_UpdatedAt e] \<and>
     int64 (TodoItem_Version e)"

record daily_link =
  DailyLink_ID :: string
  DailyLink_ProjectTaskID :: int
  DailyLink_TaskDate :: string
  DailyLink_Version :: int
  DailyLink_IsWorking :: bool

definition empty_daily_link :: daily_link where
  "empty_daily_link = \<lparr>
     DailyLink_ID = [], DailyLink_ProjectTaskID = 0, DailyLink_TaskDate = [], DailyLink_Version = 0,
     DailyLink_IsWorking = False\<rparr>"

definition daily_link_fields :: "(string \<times> daily_link setter) list" where
  "daily_link_fields = [
     (''id'', set_string (\<lambda>v x. x\<lparr>DailyLink_ID := v\<rparr>)),
     (''projectTaskId'', set_int64 (\<lambda>v x. x\<lparr>DailyLink_ProjectTaskID := v\<rparr>)),
     (''taskDate'', set_string (\<lambda>v x. x\<lparr>DailyLink_TaskDate := v\<rparr>)),
     (''version'', set_int64 (\<lambda>v x. x\<lparr>DailyLink_Version := v\<rparr>)),
     (''isWorking'', set_bool (\<lambda>v x. x\<lparr>DailyLink_IsWorking := v\<rparr>))]"

definition daily_link_members :: "daily_link \<Rightarrow> (string \<times> json) list" where
  "daily_link_members e = [
     (''id'', JStr (DailyLink_ID e)), (''projectTaskId'', JNum (show_int (DailyLink_ProjectTaskID e))),
     (''taskDate'', JStr (DailyLink_TaskDate e)), (''version'', JNum (show_int (DailyLink_Version e))),
     (''isWorking'', JBool (DailyLink_IsWorking e))]"

definition daily_link_ok :: "daily_link \<Rightarrow> bool" where
  "daily_link_ok e \<longleftrightarrow> list_all valid_utf8 [DailyLink_ID e, DailyLink_TaskDate e] \<and>
     int64 (DailyLink_ProjectTaskID e) \<and>
     int64 (DailyLink_Version e)"

section \<open>What is encoded is decoded\<close>

interpretation member_codec: struct_codec False member_fields empty_member member_members member_ok
  by unfold_locales
    (simp_all add: member_ok_def member_members_def member_fields_def empty_member_def lookup_field_def decoded sanitise_valid)

interpretation project_codec: struct_codec False project_fields empty_project project_members project_ok
  by unfold_locales
    (simp_all add: project_ok_def project_members_def project_fields_def empty_project_def lookup_field_def decoded sanitise_valid)

interpretation project_task_codec: struct_codec False project_task_fields empty_project_task project_task_members project_task_ok
  by unfold_locales
    (simp_all add: project_task_ok_def project_task_members_def project_task_fields_def empty_project_task_def lookup_field_def decoded sanitise_valid)

interpretation assigned_task_codec: struct_codec False assigned_task_fields empty_assigned_task assigned_task_members assigned_task_ok
  by unfold_locales
    (simp_all add: assigned_task_ok_def assigned_task_members_def assigned_task_fields_def empty_assigned_task_def lookup_field_def decoded sanitise_valid)

interpretation todo_item_codec: struct_codec False todo_item_fields empty_todo_item todo_item_members todo_item_ok
  by unfold_locales
    (simp_all add: todo_item_ok_def todo_item_members_def todo_item_fields_def empty_todo_item_def lookup_field_def decoded sanitise_valid)

interpretation daily_link_codec: struct_codec False daily_link_fields empty_daily_link daily_link_members daily_link_ok
  by unfold_locales
    (simp_all add: daily_link_ok_def daily_link_members_def daily_link_fields_def empty_daily_link_def lookup_field_def decoded sanitise_valid)

text \<open>A typed collection of a snapshot.\<close>

lemma project_tasks_roundtrip:
  "list_all project_task_ok ts \<Longrightarrow>
     Unmarshal_into (set_slice (set_struct False project_task_fields) empty_project_task (\<lambda>v _. v))
       (print_json (JArr (map (\<lambda>t. JObj (project_task_members t)) ts))) [] = (ts, True)"
  by (rule project_task_codec.slice)

section \<open>The builders keep to the vocabulary\<close>

lemma AdmitsStatus_iff: "AdmitsStatus status \<longleftrightarrow> status \<in> set project_task_statuses"
  by (simp add: AdmitsStatus_def project_task_statuses_def)

lemma builders_vocabulary:
  assumes "Inr m \<in> {ProjectTaskCreate r slug title priority status assignee parent,
      ProjectTaskUpdate r taskID version title' priority' status' assignee, TaskComplete r taskID version,
      TodoCreate r r2 sect title date, DelegationCreate r r2 who title details date priority summarised,
      DelegationComplete r taskID version summary, DailyLinkSchedule r taskID date}"
  shows "Kind m \<in> set mutation_kinds"
  using assms unfolding ProjectTaskCreate_def ProjectTaskUpdate_def TaskComplete_def TodoCreate_def
    DelegationCreate_def DelegationComplete_def DailyLinkSchedule_def Let_def
  by (elim insertE emptyE) (simp_all add: mutation_kinds_def split: if_splits)

end
