(* ===== verification/Go_Path.thy ===== *)
theory Go_Path
  imports Go_Prelude
begin

text \<open>
  Slash-separated paths: \<open>path.Clean\<close> (and \<open>path/filepath.Clean\<close>, the same function on Unix,
  where \<open>ToSlash\<close> and \<open>FromSlash\<close> are the identity), \<open>path.Join\<close>, and when a path is its own
  cleaning. \<open>Clean\<close> follows the documented rules: empty and \<open>.\<close> elements are dropped, each \<open>..\<close>
  removes the element before it, \<open>..\<close> at the start of a rooted path is dropped, and an empty
  result is \<open>.\<close>.
\<close>

section \<open>Cleaning\<close>

text \<open>The elements kept so far are a stack, the last one first.\<close>

fun clean_parts :: "bool \<Rightarrow> string list \<Rightarrow> string list \<Rightarrow> string list" where
  "clean_parts rooted st [] = rev st"
| "clean_parts rooted st (p # ps) =
     (if p = [] \<or> p = ''.'' then clean_parts rooted st ps
      else if p = ''..'' then
        (case st of
           [] \<Rightarrow> clean_parts rooted (if rooted then [] else [p]) ps
         | q # st' \<Rightarrow> if q = ''..'' then clean_parts rooted (p # st) ps else clean_parts rooted st' ps)
      else clean_parts rooted (p # st) ps)"

definition is_abs :: "string \<Rightarrow> bool" where
  "is_abs p \<longleftrightarrow> HasPrefix p ''/''"

definition Clean :: "string \<Rightarrow> string" where
  "Clean p =
     (let s = Join (clean_parts (is_abs p) [] (Split p CHR ''/'')) ''/''
      in if is_abs p then CHR ''/'' # s else if s = [] then ''.'' else s)"

text \<open>\<open>path.Join\<close>: the non-empty elements, joined and cleaned.\<close>

definition path_Join :: "string list \<Rightarrow> string" where
  "path_Join ps = (case filter (\<lambda>p. p \<noteq> []) ps of [] \<Rightarrow> [] | qs \<Rightarrow> Clean (Join qs ''/''))"

section \<open>Clean paths\<close>

text \<open>A name a directory may hold.\<close>

definition path_name :: "string \<Rightarrow> bool" where
  "path_name p \<longleftrightarrow> p \<noteq> [] \<and> p \<noteq> ''.'' \<and> p \<noteq> ''..'' \<and> CHR ''/'' \<notin> set p"

lemma clean_parts_names:
  "\<forall>p \<in> set ps. path_name p \<Longrightarrow> clean_parts rooted st ps = rev st @ ps"
  by (induction ps arbitrary: st) (auto simp: path_name_def)

lemma Split_names: "ps \<noteq> [] \<Longrightarrow> \<forall>p \<in> set ps. path_name p \<Longrightarrow> Split (Join ps ''/'') CHR ''/'' = ps"
  by (rule Split_Join) (auto simp: path_name_def)

lemma Join_names_not_Nil: "ps \<noteq> [] \<Longrightarrow> \<forall>p \<in> set ps. path_name p \<Longrightarrow> Join ps sep \<noteq> []"
  by (cases ps rule: list.exhaust, simp, rename_tac a as, case_tac as) (auto simp: path_name_def)

lemma Join_names_relative: "ps \<noteq> [] \<Longrightarrow> \<forall>p \<in> set ps. path_name p \<Longrightarrow> \<not> is_abs (Join ps sep)"
  by (cases ps rule: list.exhaust, simp, rename_tac a as, case_tac as, case_tac [!] a)
    (auto simp: is_abs_def HasPrefix_def path_name_def)

lemma Clean_names: "ps \<noteq> [] \<Longrightarrow> \<forall>p \<in> set ps. path_name p \<Longrightarrow> Clean (Join ps ''/'') = Join ps ''/''"
  by (simp add: Clean_def Let_def Split_names Join_names_relative Join_names_not_Nil clean_parts_names)

lemma Join_names_inject:
  assumes "ps \<noteq> []" "\<forall>p \<in> set ps. path_name p" "qs \<noteq> []" "\<forall>q \<in> set qs. path_name q"
  shows "Join ps ''/'' = Join qs ''/'' \<longleftrightarrow> ps = qs"
  using Split_names [OF assms(1,2)] Split_names [OF assms(3,4)] by metis

text \<open>The stack of elements: \<open>..\<close> only at the bottom, and only when the path is not rooted.\<close>

fun clean_stack :: "bool \<Rightarrow> string list \<Rightarrow> bool" where
  "clean_stack rooted [] = True"
| "clean_stack rooted (p # st) =
     (if p = ''..'' then \<not> rooted \<and> set st \<subseteq> {''..''} else path_name p \<and> clean_stack rooted st)"

lemma clean_stack_ups: "set st \<subseteq> {''..''} \<Longrightarrow> \<not> rooted \<Longrightarrow> clean_stack rooted st"
  by (cases st) auto

lemma clean_stack_top: "clean_stack rooted (''..'' # st) \<Longrightarrow> clean_stack rooted (''..'' # ''..'' # st)"
  by auto

lemma clean_parts_stack:
  "clean_stack rooted st \<Longrightarrow> \<forall>p \<in> set ps. CHR ''/'' \<notin> set p \<Longrightarrow>
     clean_stack rooted (rev (clean_parts rooted st ps))"
proof (induction rooted st ps rule: clean_parts.induct)
  case (2 rooted st p ps)
  consider "p = [] \<or> p = ''.''" | "p = ''..''" | "path_name p"
    using "2.prems"(2) by (auto simp: path_name_def)
  then show ?case
  proof cases
    case 1
    with 2 show ?thesis by auto
  next
    case 2
    with "2.IH" "2.prems" show ?thesis
      by (cases st) (auto simp: path_name_def split: if_splits)
  next
    case 3
    then have "p \<noteq> []" "p \<noteq> ''.''" "p \<noteq> ''..''" by (auto simp: path_name_def)
    with 2 3 show ?thesis by auto
  qed
qed simp

lemma clean_stack_bottom:
  "clean_stack rooted st \<Longrightarrow> st = [] \<or> last st \<noteq> ''..'' \<Longrightarrow> \<forall>p \<in> set st. path_name p"
proof (induction st)
  case (Cons p st)
  then show ?case
    by (cases "st = []") (auto dest: last_in_set split: if_splits)
qed simp

text \<open>A relative path that is its own cleaning, and that does not climb, is \<open>.\<close> or a
  non-empty sequence of names.\<close>

lemma Clean_fixed:
  assumes "Clean p = p" and "p \<noteq> []" and "\<not> is_abs p" and "p \<noteq> ''.''"
    and "p \<noteq> ''..''" and "\<not> HasPrefix p ''../''"
  shows "\<exists>ps. ps \<noteq> [] \<and> (\<forall>q \<in> set ps. path_name q) \<and> p = Join ps ''/''"
proof -
  let ?ps = "clean_parts False [] (Split p CHR ''/'')"
  have p: "p = Join ?ps ''/''" "?ps \<noteq> []"
    using assms(1-4) by (auto simp: Clean_def Let_def split: if_splits)
  have stack: "clean_stack False (rev ?ps)"
    by (rule clean_parts_stack) (auto dest: Split_parts_no_sep)
  obtain q qs where qs: "?ps = q # qs" using p(2) by (cases ?ps) auto
  have "q \<noteq> ''..''"
    using assms(5,6) p(1) unfolding qs by (cases qs) (auto simp: HasPrefix_def)
  with clean_stack_bottom [OF stack] qs have "\<forall>r \<in> set ?ps. path_name r" by auto
  with p show ?thesis by blast
qed

section \<open>Rooted paths\<close>

lemma clean_stack_rooted: "clean_stack True st \<Longrightarrow> \<forall>p \<in> set st. path_name p"
  by (induction st) (auto split: if_splits)

lemma clean_parts_subset: "set (clean_parts rooted st ps) \<subseteq> set st \<union> set ps"
  by (induction rooted st ps rule: clean_parts.induct) (auto split: list.splits if_splits)

lemma Split_parts_subset: "q \<in> set (Split s c) \<Longrightarrow> set q \<subseteq> set s"
proof (induction s c arbitrary: q rule: Split.induct)
  case (2 x s c)
  then show ?case by (cases "Split s c") (auto split: if_splits, blast)
qed simp

lemma set_Join: "set (Join ps [c]) \<subseteq> insert c (\<Union> (set ` set ps))"
  by (induction ps "[c]" rule: Join.induct) auto

text \<open>The cleaning of a rooted path has one slash in front, and no new characters.\<close>

lemma Clean_rooted:
  assumes "is_abs p"
  obtains s where "Clean p = CHR ''/'' # s" "\<not> is_abs s" "set s \<subseteq> set p"
proof -
  let ?ps = "clean_parts True [] (Split p CHR ''/'')"
  have "clean_stack True (rev ?ps)"
    by (rule clean_parts_stack) (auto dest: Split_parts_no_sep)
  then have names: "\<forall>q \<in> set ?ps. path_name q" using clean_stack_rooted by force
  have "\<not> is_abs (Join ?ps ''/'')"
    using Join_names_relative [of ?ps] names by (cases "?ps = []") (auto simp: is_abs_def HasPrefix_def)
  moreover have "CHR ''/'' \<in> set p"
    using assms by (auto simp: is_abs_def HasPrefix_def prefix_def)
  then have "set (Join ?ps ''/'') \<subseteq> set p"
    using set_Join [of ?ps "CHR ''/''"] clean_parts_subset [of True "[]" "Split p CHR ''/''"] Split_parts_subset
    by fastforce
  ultimately show thesis
    using assms by (intro that [of "Join ?ps ''/''"]) (simp_all add: Clean_def)
qed

lemma Clean_rooted_names:
  "ps \<noteq> [] \<Longrightarrow> \<forall>p \<in> set ps. path_name p \<Longrightarrow> Clean (CHR ''/'' # Join ps ''/'') = CHR ''/'' # Join ps ''/''"
  by (simp add: Clean_def is_abs_def HasPrefix_def Split_names clean_parts_names)

end
