(* ===== verification/Go_Sha256.thy ===== *)
theory Go_Sha256
  imports Go_Encoding "HOL-Library.Word"
begin

text \<open>
  The package \<open>crypto/sha256\<close> and \<open>crypto/hmac\<close> over it, on 32-bit words whose addition wraps:
  the sources use SHA-256 for content digests, cache validators, PKCE challenges and request
  signatures. FIPS 180-4 is followed: padding to blocks of 64 bytes, a schedule of 64 words per
  block, 64 rounds on eight words.
\<close>

unbundle bit_operations_syntax

type_synonym u32 = "32 word"

section \<open>Constants\<close>

text \<open>
  FIPS 180-4 takes the constants from roots of primes: the first 32 bits of the fractional parts of
  the cube roots of the first 64 primes, and of the square roots of the first eight. \<open>root_bits k p\<close>
  is the whole part of the \<open>k\<close>-th root of \<open>p\<close> times \<open>2 ^ 32\<close>, found bit by bit; the word keeps its
  last 32 bits.
\<close>

definition root_bits :: "nat \<Rightarrow> nat \<Rightarrow> nat" where
  "root_bits k p =
     fold (\<lambda>i r. if (r + 2 ^ i) ^ k \<le> p * 2 ^ (32 * k) then r + 2 ^ i else r) (rev [0..<37]) 0"

definition sha_primes :: "nat list" where
  "sha_primes =
    [2, 3, 5, 7, 11, 13, 17, 19, 23, 29, 31, 37, 41, 43, 47, 53,
     59, 61, 67, 71, 73, 79, 83, 89, 97, 101, 103, 107, 109, 113, 127, 131,
     137, 139, 149, 151, 157, 163, 167, 173, 179, 181, 191, 193, 197, 199, 211, 223,
     227, 229, 233, 239, 241, 251, 257, 263, 269, 271, 277, 281, 283, 293, 307, 311]"

definition sha_k :: "u32 list" where
  "sha_k = map (\<lambda>p. of_nat (root_bits 3 p)) sha_primes"

definition sha_init :: "u32 list" where
  "sha_init = map (\<lambda>p. of_nat (root_bits 2 p)) (take 8 sha_primes)"

section \<open>Bytes and words\<close>

text \<open>Four bytes, the most significant first.\<close>

definition be_word :: "char \<Rightarrow> char \<Rightarrow> char \<Rightarrow> char \<Rightarrow> u32" where
  "be_word a b c d =
     word_of_int (((of_char a * 256 + of_char b) * 256 + of_char c) * 256 + of_char d)"

definition be_bytes :: "u32 \<Rightarrow> string" where
  "be_bytes w = (let n = uint w in
     [char_of (n div 16777216), char_of (n div 65536), char_of (n div 256), char_of n])"

fun words_of :: "string \<Rightarrow> u32 list" where
  "words_of (a # b # c # d # s) = be_word a b c d # words_of s"
| "words_of _ = []"

text \<open>The bit length as eight bytes, the most significant first.\<close>

definition length_bytes :: "nat \<Rightarrow> string" where
  "length_bytes n = map (\<lambda>i. char_of (8 * int n div 256 ^ i)) [7, 6, 5, 4, 3, 2, 1, 0]"

definition sha_pad :: "string \<Rightarrow> string" where
  "sha_pad s = s @ CHR 0x80 # replicate ((119 - length s mod 64) mod 64) (CHR 0x00)
     @ length_bytes (length s)"

section \<open>Compression\<close>

definition rotr :: "nat \<Rightarrow> u32 \<Rightarrow> u32" where
  "rotr n w = drop_bit n w OR push_bit (32 - n) w"

definition small_sigma0 :: "u32 \<Rightarrow> u32" where
  "small_sigma0 x = rotr 7 x XOR rotr 18 x XOR drop_bit 3 x"

definition small_sigma1 :: "u32 \<Rightarrow> u32" where
  "small_sigma1 x = rotr 17 x XOR rotr 19 x XOR drop_bit 10 x"

definition big_sigma0 :: "u32 \<Rightarrow> u32" where
  "big_sigma0 x = rotr 2 x XOR rotr 13 x XOR rotr 22 x"

definition big_sigma1 :: "u32 \<Rightarrow> u32" where
  "big_sigma1 x = rotr 6 x XOR rotr 11 x XOR rotr 25 x"

text \<open>The schedule, newest word first: each new word depends on those 2, 7, 15 and 16 back.\<close>

fun extend_schedule :: "nat \<Rightarrow> u32 list \<Rightarrow> u32 list" where
  "extend_schedule 0 w = w"
| "extend_schedule (Suc n) w =
     extend_schedule n
       ((small_sigma1 (w ! 1) + w ! 6 + small_sigma0 (w ! 14) + w ! 15) # w)"

definition sha_schedule :: "u32 list \<Rightarrow> u32 list" where
  "sha_schedule block = rev (extend_schedule 48 (rev block))"

fun sha_round :: "u32 list \<Rightarrow> u32 \<times> u32 \<Rightarrow> u32 list" where
  "sha_round [a, b, c, d, e, f, g, h] (k, w) =
     (let t1 = h + big_sigma1 e + ((e AND f) XOR (NOT e AND g)) + k + w;
          t2 = big_sigma0 a + ((a AND b) XOR (a AND c) XOR (b AND c))
      in [t1 + t2, a, b, c, d + t1, e, f, g])"
| "sha_round st _ = st"

definition sha_block :: "u32 list \<Rightarrow> u32 list \<Rightarrow> u32 list" where
  "sha_block st block = map2 (+) st (foldl sha_round st (zip sha_k (sha_schedule block)))"

fun sha_blocks :: "nat \<Rightarrow> u32 list \<Rightarrow> u32 list \<Rightarrow> u32 list" where
  "sha_blocks 0 st ws = st"
| "sha_blocks (Suc n) st ws = sha_blocks n (sha_block st (take 16 ws)) (drop 16 ws)"

text \<open>\<open>sha256.Sum256\<close>\<close>

definition sha256 :: "string \<Rightarrow> string" where
  "sha256 s = (let p = sha_pad s
     in concat (map be_bytes (sha_blocks (length p div 64) sha_init (words_of p))))"

text \<open>\<open>hmac.New(sha256.New, key)\<close> over one message.\<close>

definition xor_byte :: "int \<Rightarrow> char \<Rightarrow> char" where
  "xor_byte n c = char_of (n XOR of_char c)"

definition hmac_sha256 :: "string \<Rightarrow> string \<Rightarrow> string" where
  "hmac_sha256 key msg =
     (let k0 = (if 64 < length key then sha256 key else key);
          k = k0 @ replicate (64 - length k0) (CHR 0x00)
      in sha256 (map (xor_byte 0x5c) k @ sha256 (map (xor_byte 0x36) k @ msg)))"

section \<open>Lengths\<close>

lemma length_be_bytes [simp]: "length (be_bytes w) = 4"
  by (simp add: be_bytes_def Let_def)

lemma length_sha_round [simp]: "length (sha_round st kw) = length st"
  by (induction st kw rule: sha_round.induct) (simp_all add: Let_def)

lemma length_sha_rounds [simp]: "length (foldl sha_round st kws) = length st"
  by (induction kws arbitrary: st) simp_all

lemma length_sha_block [simp]: "length (sha_block st block) = length st"
  by (simp add: sha_block_def)

lemma length_sha_blocks [simp]: "length (sha_blocks n st ws) = length st"
  by (induction n arbitrary: st ws) simp_all

lemma length_sha256 [simp]: "length (sha256 s) = 32"
proof -
  have "length (concat (map be_bytes ws)) = 4 * length ws" for ws
    by (induction ws) simp_all
  then show ?thesis by (simp add: sha256_def Let_def sha_init_def sha_primes_def)
qed

lemma length_hmac_sha256 [simp]: "length (hmac_sha256 k m) = 32"
  by (simp add: hmac_sha256_def Let_def)

lemma length_hex_sha256 [simp]: "length (hex_encode (sha256 s)) = 64"
  by simp

text \<open>The padded message is a whole number of blocks.\<close>

lemma length_sha_pad: "length (sha_pad s) mod 64 = 0"
proof -
  define r where "r = length s mod 64"
  have "r < 64" by (simp add: r_def)
  then have "(r + 1 + (119 - r) mod 64 + 8) mod 64 = 0"
    by (cases "r < 56") (auto simp: le_mod_geq mod_if)
  moreover have "length (sha_pad s) = length s + (1 + (119 - r) mod 64 + 8)"
    by (simp add: sha_pad_def length_bytes_def r_def)
  ultimately show ?thesis
    by (metis add.assoc mod_add_left_eq r_def)
qed

end
