(* ===== verification/S3_Sign.thy ===== *)
theory S3_Sign
  imports Go_Http Go_Path Go_Net Go_Sha256
begin

text \<open>
  Package \<open>s3\<close>, the signing engine of \<open>s3.go\<close>: the configuration and its checks, the URL of an
  object, the canonical request and its SigV4 signature. SHA-256 and HMAC are computed.

  The parsed URL of a request is passed to \<open>sign\<close> beside the request. \<open>ContentLength\<close>, which
  repeats the length of the body, is not kept. A client exists only after \<open>validate\<close>, so that the
  endpoint parses; \<open>None\<close> from \<open>objectURL\<close> stands for the crash on a client built otherwise.
\<close>

unbundle bit_operations_syntax

section \<open>Configuration\<close>

record s3_config =
  Endpoint :: string
  Region :: string
  Bucket :: string
  PathStyle :: bool
  AccessKeyID :: string
  SecretAccessKey :: string
  SessionToken :: string

definition loopbackHost :: "string \<Rightarrow> bool" where
  "loopbackHost host \<longleftrightarrow>
     host = ''localhost'' \<or> (case ParseIP host of None \<Rightarrow> False | Some ip \<Rightarrow> IsLoopback ip)"

definition bucket_char :: "char \<Rightarrow> bool" where
  "bucket_char c \<longleftrightarrow> CHR ''a'' \<le> c \<and> c \<le> CHR ''z'' \<or> CHR ''0'' \<le> c \<and> c \<le> CHR ''9''
     \<or> c = CHR ''-'' \<or> c = CHR ''.''"

definition validBucket :: "string \<Rightarrow> bool" where
  "validBucket bucket \<longleftrightarrow>
     \<not> (length bucket < 3 \<or> 63 < length bucket \<or> HasPrefix bucket ''-'' \<or> HasSuffix bucket ''-'')
     \<and> list_all bucket_char bucket"

definition s3_validate :: "s3_config \<Rightarrow> string option" where
  "s3_validate c =
     (if (case url_Parse (Endpoint c) of
            None \<Rightarrow> True
          | Some e \<Rightarrow>
              User e \<noteq> None \<or> RawQuery e \<noteq> [] \<or> Fragment e \<noteq> []
              \<or> (url_Scheme e \<noteq> ''https'' \<and> \<not> (url_Scheme e = ''http'' \<and> loopbackHost (Hostname e)))
              \<or> Host e = [] \<or> (url_Path e \<noteq> [] \<and> url_Path e \<noteq> ''/''))
      then Some ''s3: endpoint must be an https (or loopback http) URL with no credentials, query, fragment, or path''
      else if Region c = [] \<or> \<not> validBucket (Bucket c)
      then Some ''s3: region and a valid bucket name are required''
      else if AccessKeyID c = [] \<or> SecretAccessKey c = []
      then Some ''s3: access key ID and secret access key are required''
      else None)"

text \<open>\<open>NewClient\<close>; the HTTP client is a parameter of the calls.\<close>

definition s3_NewClient :: "s3_config \<Rightarrow> string + s3_config" where
  "s3_NewClient c = (case s3_validate c of Some e \<Rightarrow> Inl e | None \<Rightarrow> Inr c)"

definition validKey :: "string \<Rightarrow> bool" where
  "validKey key \<longleftrightarrow>
     \<not> (key = [] \<or> HasPrefix key ''/'' \<or> Contains key ''..'')
     \<and> list_all (\<lambda>part. part \<noteq> ''.'' \<and> part \<noteq> ''..'') (Split key CHR ''/'')"

section \<open>Canonical form\<close>

definition replace_plus :: "string \<Rightarrow> string" where
  "replace_plus s = concat (map (\<lambda>c. if c = CHR ''+'' then ''%20'' else [c]) s)"

definition rfc3986Escape :: "string \<Rightarrow> string" where
  "rfc3986Escape value = replace_plus (QueryEscape value)"

definition escapePathSegments :: "string \<Rightarrow> string" where
  "escapePathSegments p = Join (map rfc3986Escape (Split p CHR ''/'')) ''/''"

definition s3_objectURL :: "s3_config \<Rightarrow> string \<Rightarrow> url option" where
  "s3_objectURL c key =
     map_option (\<lambda>endpoint.
         (let u = (if PathStyle c
                   then endpoint\<lparr>url_Path := path_Join [''/'', url_Path endpoint, Bucket c, key]\<rparr>
                   else endpoint\<lparr>Host := Bucket c @ ''.'' @ Host endpoint, url_Path := CHR ''/'' # key\<rparr>)
          in u\<lparr>RawPath := escapePathSegments (url_Path u)\<rparr>))
       (url_Parse (Endpoint c))"

definition canonicalQueryString :: "(string, string list) go_map \<Rightarrow> string" where
  "canonicalQueryString vs =
     Join (concat (map (\<lambda>k. map (\<lambda>v. rfc3986Escape k @ ''='' @ rfc3986Escape v) (the (map_of vs k)))
       (sort (map fst vs)))) ''&''"

section \<open>The signature\<close>

definition hex_sha256 :: "string \<Rightarrow> string" where
  "hex_sha256 b = hex_encode (sha256 b)"

definition emptySHA256 :: string where
  "emptySHA256 = hex_sha256 []"

definition signed_names :: "s3_config \<Rightarrow> (string, string) go_map \<Rightarrow> string list" where
  "signed_names c h =
     sort ([''host'', ''x-amz-content-sha256'', ''x-amz-date'']
       @ (if SessionToken c \<noteq> [] then [''x-amz-security-token''] else [])
       @ (if header_Get h ''Range'' \<noteq> [] then [''range''] else [])
       @ (if header_Get h ''Content-Type'' \<noteq> [] then [''content-type''] else []))"

definition canonical_headers :: "url \<Rightarrow> (string, string) go_map \<Rightarrow> string list \<Rightarrow> string" where
  "canonical_headers u h names =
     concat (map (\<lambda>name. name @ '':''
       @ TrimSpace (if name = ''host'' then Host u else header_Get h name) @ [CHR 0x0A]) names)"

definition canonical_request :: "s3_config \<Rightarrow> string \<Rightarrow> url \<Rightarrow> http_request \<Rightarrow> string" where
  "canonical_request c payloadSHA u r =
     (let names = signed_names c (RequestHeader r) in
      Join [Method r, EscapedPath u, canonicalQueryString (url_Query u),
        canonical_headers u (RequestHeader r) names, Join names '';'', payloadSHA] [CHR 0x0A])"

definition credential_scope :: "s3_config \<Rightarrow> go_time \<Rightarrow> string" where
  "credential_scope c now = format_date now @ ''/'' @ Region c @ ''/s3/aws4_request''"

definition string_to_sign :: "s3_config \<Rightarrow> go_time \<Rightarrow> string \<Rightarrow> string" where
  "string_to_sign c now request =
     Join [''AWS4-HMAC-SHA256'', format_amz now, credential_scope c now, hex_sha256 request] [CHR 0x0A]"

definition signing_key :: "s3_config \<Rightarrow> go_time \<Rightarrow> string" where
  "signing_key c now =
     hmac_sha256 (hmac_sha256 (hmac_sha256 (hmac_sha256 (''AWS4'' @ SecretAccessKey c) (format_date now))
       (Region c)) ''s3'') ''aws4_request''"

text \<open>The \<open>Authorization\<close> of a request whose other headers are set.\<close>

definition s3_authorization :: "s3_config \<Rightarrow> go_time \<Rightarrow> string \<Rightarrow> url \<Rightarrow> http_request \<Rightarrow> string" where
  "s3_authorization c now payloadSHA u r =
     ''AWS4-HMAC-SHA256 Credential='' @ AccessKeyID c @ ''/'' @ credential_scope c now
     @ '', SignedHeaders='' @ Join (signed_names c (RequestHeader r)) '';''
     @ '', Signature='' @ hex_encode (hmac_sha256 (signing_key c now)
         (string_to_sign c now (canonical_request c payloadSHA u r)))"

definition s3_sign :: "s3_config \<Rightarrow> go_time \<Rightarrow> string \<Rightarrow> url \<Rightarrow> http_request \<Rightarrow> http_request" where
  "s3_sign c now payloadSHA u r =
     (let r1 = set_header ''X-Amz-Content-Sha256'' payloadSHA (set_header ''X-Amz-Date'' (format_amz now) r);
          r2 = (if SessionToken c \<noteq> [] then set_header ''X-Amz-Security-Token'' (SessionToken c) r1 else r1)
      in set_header ''Authorization'' (s3_authorization c now payloadSHA u r2) r2)"

text \<open>\<open>signedRequestWithContentType\<close>; \<open>signedRequest\<close> passes no content type. \<open>None\<close>: the URL is
  refused.\<close>

definition s3_signedRequest ::
  "s3_config \<Rightarrow> go_time \<Rightarrow> string \<Rightarrow> string \<Rightarrow> (string, string list) go_map \<Rightarrow> string \<Rightarrow> string option
   \<Rightarrow> string \<Rightarrow> http_request option" where
  "s3_signedRequest c now method key query payloadSHA body contentType =
     Option.bind (s3_objectURL c key) (\<lambda>location.
       let wire = url_String (location\<lparr>RawQuery := Values_Encode query\<rparr>) in
       Option.bind (request_url wire) (\<lambda>u.
       map_option (\<lambda>r. s3_sign c now payloadSHA u
           (if contentType \<noteq> [] then set_header ''Content-Type'' contentType r else r))
         (NewRequest method wire body)))"

section \<open>The canonical query\<close>

lemma replace_plus_append [simp]: "replace_plus (a @ b) = replace_plus a @ replace_plus b"
  by (simp add: replace_plus_def)

lemma replace_plus_Join: "replace_plus (Join ps sep) = Join (map replace_plus ps) (replace_plus sep)"
  by (induction ps sep rule: Join.induct) (simp_all add: replace_plus_def)

text \<open>C39: The canonical query string of SigV4 is the encoded query with every plus sign, which stands for
  a space there, written as \<open>%20\<close>.\<close>

theorem canonicalQueryString_of_Encode: "canonicalQueryString vs = replace_plus (Values_Encode vs)"
proof -
  have "replace_plus ''&'' = ''&''" "\<And>s. replace_plus (CHR ''='' # s) = CHR ''='' # replace_plus s"
    by (simp_all add: replace_plus_def)
  then show ?thesis
    by (simp add: canonicalQueryString_def Values_Encode_def replace_plus_Join map_concat rfc3986Escape_def comp_def)
qed

section \<open>Escaped paths\<close>

text \<open>The escaping byte by byte; the slash is kept in a path.\<close>

definition esc_byte :: "char \<Rightarrow> string" where
  "esc_byte c = (if unreserved c then [c] else percent c)"

lemma replace_plus_id: "CHR ''+'' \<notin> set s \<Longrightarrow> replace_plus s = s"
  by (induction s) (auto simp: replace_plus_def)

lemma rfc3986Escape_bytes: "rfc3986Escape s = concat (map esc_byte s)"
proof (induction s)
  case (Cons c s)
  have "replace_plus (if unreserved c then [c] else if c = CHR '' '' then ''+'' else percent c) = esc_byte c"
  proof (cases "unreserved c")
    case True
    then have "c \<noteq> CHR ''+''" by auto
    with True show ?thesis by (simp add: replace_plus_def esc_byte_def)
  next
    case False
    have "replace_plus (percent c) = percent c"
      by (rule replace_plus_id) (auto dest: percent_chars)
    moreover have "percent CHR '' '' = ''%20''" by code_simp
    ultimately show ?thesis using False by (auto simp: esc_byte_def replace_plus_def)
  qed
  with Cons show ?case by (simp add: rfc3986Escape_def QueryEscape_def)
qed (simp add: rfc3986Escape_def QueryEscape_def replace_plus_def)

lemma escapePathSegments_bytes:
  "escapePathSegments p = concat (map (\<lambda>c. if c = CHR ''/'' then [c] else esc_byte c) p)"
proof (induction p)
  case (Cons c p)
  obtain y ys where y: "Split p CHR ''/'' = y # ys"
    using Split_not_Nil by (cases "Split p CHR ''/''") blast
  with Cons show ?case
    by (cases ys) (auto simp: escapePathSegments_def rfc3986Escape_bytes)
qed (simp add: escapePathSegments_def rfc3986Escape_bytes)

lemma escapePathSegments_Cons [simp]:
  "escapePathSegments [] = []"
  "escapePathSegments (c # p) = (if c = CHR ''/'' then [c] else esc_byte c) @ escapePathSegments p"
  by (simp_all add: escapePathSegments_bytes)

lemma escaped_chars: "c \<in> set (escapePathSegments p) \<Longrightarrow> unreserved c \<or> c = CHR ''%'' \<or> c = CHR ''/''"
  by (induction p) (auto simp: esc_byte_def dest: percent_chars split: if_splits)

lemma unescape_percent: "url_unescape PathMode (percent c @ s) = map_option ((#) c) (url_unescape PathMode s)"
  by (simp add: percent_def)

lemma unescape_segments: "url_unescape PathMode (escapePathSegments p) = Some p"
proof (induction p)
  case (Cons c p)
  then show ?case by (cases "unreserved c \<or> c = CHR ''/''") (auto simp: esc_byte_def unescape_percent)
qed simp

lemma valid_segments: "validEncoded PathMode (escapePathSegments p)"
proof -
  have "c = CHR ''%'' \<or> \<not> shouldEscape PathMode c" if "c \<in> set (escapePathSegments p)" for c
    using escaped_chars [OF that] by (auto simp: unreserved_iff shouldEscape_def)
  then show ?thesis by (auto simp: validEncoded_def list_all_iff)
qed

text \<open>The path on the wire: also when it needs no escaping of its own and \<open>RawPath\<close> is dropped.\<close>

lemma EscapedPath_segments:
  assumes "HasPrefix (url_Path u) ''/''"
    and "RawPath u = escapePathSegments (url_Path u)
      \<or> RawPath u = [] \<and> escapePathSegments (url_Path u) = url_escape PathMode (url_Path u)"
  shows "EscapedPath u = escapePathSegments (url_Path u)"
proof -
  have "url_Path u \<noteq> ''*''" using assms(1) by (auto simp: HasPrefix_def)
  moreover have "escapePathSegments (url_Path u) \<noteq> []"
    using assms(1) by (auto simp: HasPrefix_def prefix_def)
  ultimately show ?thesis
    using assms(2) by (auto simp: EscapedPath_def valid_segments unescape_segments)
qed

section \<open>Signed requests\<close>

definition object_host :: "s3_config \<Rightarrow> string \<Rightarrow> string" where
  "object_host c host = (if PathStyle c then host else Bucket c @ ''.'' @ host)"

definition object_path :: "s3_config \<Rightarrow> string \<Rightarrow> string" where
  "object_path c key = (if PathStyle c then path_Join [''/'', [], Bucket c, key] else CHR ''/'' # key)"

lemma object_path_rooted: "HasPrefix (object_path c key) ''/''"
  by (simp add: object_path_def path_Join_def Clean_def is_abs_def HasPrefix_def Let_def Join_Cons)

lemma plain_object_host:
  assumes "validBucket (Bucket c)" "plain_host host"
  shows "plain_host (object_host c host)"
proof -
  have bc: "bucket_char x \<Longrightarrow> host_char x" for x
    by (auto simp: bucket_char_def host_char_def alnum_def less_eq_char_def Let_def)
  obtain n p where "host = n @ p" "n \<noteq> []" "list_all host_char n" "validOptionalPort p" "p \<noteq> '':''"
    using assms(2) by (auto simp: plain_host_def)
  moreover from this have "list_all host_char (Bucket c @ ''.'' @ n)"
    using assms(1) bc by (auto simp: validBucket_def list_all_iff host_char_def)
  ultimately have "plain_host (Bucket c @ ''.'' @ host)"
    unfolding plain_host_def by (intro exI [of _ "Bucket c @ ''.'' @ n"] exI [of _ p]) simp
  with assms(2) show ?thesis by (simp add: object_host_def)
qed

lemma Encode_wire: "list_all wire_char (Values_Encode vs)"
proof -
  have "list_all wire_char (setting kv)" for kv
    by (auto simp: setting_def list_all_iff wire_char_def dest: QueryEscape_set)
  then have "list_all wire_char (Join (map setting kvs) ''&'')" for kvs
    by (induction kvs rule: induct_list012) (simp_all add: wire_char_def)
  then show ?thesis by (simp add: Values_Encode_settings)
qed

lemma signed_names_set:
  "name \<in> set (signed_names c h) \<Longrightarrow> ToLower name \<noteq> ToLower ''Authorization''"
proof -
  have "list_all (\<lambda>n. ToLower n \<noteq> ToLower ''Authorization'') [''host'', ''x-amz-content-sha256'',
      ''x-amz-date'', ''x-amz-security-token'', ''range'', ''content-type'']" by code_simp
  then show "name \<in> set (signed_names c h) \<Longrightarrow> ToLower name \<noteq> ToLower ''Authorization''"
    by (auto simp: signed_names_def split: if_splits)
qed

text \<open>The \<open>Authorization\<close> header is not part of what it signs.\<close>

lemma s3_authorization_stable:
  "s3_authorization c now sha u (set_header ''Authorization'' a r) = s3_authorization c now sha u r"
proof -
  let ?h = "RequestHeader r"
  have "ToLower ''Range'' \<noteq> ToLower ''Authorization''" "ToLower ''Content-Type'' \<noteq> ToLower ''Authorization''"
    by code_simp+
  then have names: "signed_names c (header_Set ''Authorization'' a ?h) = signed_names c ?h"
    by (simp add: signed_names_def header_Get_Set_other)
  have "canonical_headers u (header_Set ''Authorization'' a ?h) (signed_names c ?h)
      = canonical_headers u ?h (signed_names c ?h)"
    by (auto simp: canonical_headers_def header_Get_Set_other dest!: signed_names_set
        intro!: arg_cong [of _ _ concat])
  with names show ?thesis by (simp add: s3_authorization_def canonical_request_def)
qed

text \<open>The URL of an object as it is sent.\<close>

definition wire_url :: "s3_config \<Rightarrow> string \<Rightarrow> string \<Rightarrow> string \<Rightarrow> (string, string list) go_map \<Rightarrow> string" where
  "wire_url c scheme host key query =
     scheme @ ''://'' @ object_host c host @ escapePathSegments (object_path c key)
     @ (if Values_Encode query = [] then [] else CHR ''?'' # Values_Encode query)"

definition plain_config :: "s3_config \<Rightarrow> string \<Rightarrow> string \<Rightarrow> bool" where
  "plain_config c scheme host \<longleftrightarrow> s3_validate c = None \<and> Endpoint c = scheme @ ''://'' @ host
     \<and> scheme \<in> {''https'', ''http''} \<and> plain_host host"

lemma plain_configD:
  assumes "plain_config c scheme host"
  shows "scheme \<noteq> []" "scheme \<in> {''https'', ''http''}" "plain_host (object_host c host)"
    "url_Parse (Endpoint c) = Some (empty_url\<lparr>url_Scheme := scheme, Host := host\<rparr>)"
proof -
  have "validBucket (Bucket c)"
    using assms by (simp add: plain_config_def s3_validate_def split: if_splits)
  then show "plain_host (object_host c host)"
    using assms plain_object_host by (simp add: plain_config_def)
  show s: "scheme \<in> {''https'', ''http''}" using assms by (simp add: plain_config_def)
  then show "scheme \<noteq> []" by auto
  show "url_Parse (Endpoint c) = Some (empty_url\<lparr>url_Scheme := scheme, Host := host\<rparr>)"
    using parse_plain [OF s, of host "[]" "[]" "[]"] assms
    by (simp add: plain_config_def url_escape_def empty_url_def)
qed

lemma segments_rooted: "HasPrefix (escapePathSegments (object_path c key)) ''/''"
  using object_path_rooted [of c key] by (auto simp: HasPrefix_def prefix_def)

lemma objectURL_wire:
  assumes "plain_config c scheme host"
  shows "\<exists>l. s3_objectURL c key = Some l
    \<and> url_String (l\<lparr>RawQuery := Values_Encode query\<rparr>) = wire_url c scheme host key query"
proof -
  define loc where "loc = empty_url\<lparr>url_Scheme := scheme, Host := object_host c host,
    url_Path := object_path c key, RawPath := escapePathSegments (object_path c key), RawQuery := Values_Encode query\<rparr>"
  have "EscapedPath loc = escapePathSegments (object_path c key)"
    using EscapedPath_segments [of loc] object_path_rooted by (simp add: loc_def empty_url_def)
  then have "url_String loc = wire_url c scheme host key query"
    using String_plain [OF plain_configD(1) [OF assms] plain_configD(3) [OF assms] _ loc_def] segments_rooted
    by (simp only: wire_url_def if_cancel)
  moreover have "map_option (\<lambda>l. l\<lparr>RawQuery := Values_Encode query\<rparr>) (s3_objectURL c key) = Some loc"
    by (simp add: s3_objectURL_def plain_configD [OF assms] loc_def object_host_def object_path_def
        empty_url_def Let_def)
  ultimately show ?thesis by auto
qed

lemma wire_url_parses:
  assumes "plain_config c scheme host"
  shows "\<exists>u. url_Parse (wire_url c scheme host key query) = Some u
    \<and> request_url (wire_url c scheme host key query) = Some u
    \<and> url_String u = wire_url c scheme host key query \<and> Host u = object_host c host
    \<and> EscapedPath u = escapePathSegments (object_path c key) \<and> RawQuery u = Values_Encode query"
proof -
  let ?h = "object_host c host" and ?path = "object_path c key" and ?q = "Values_Encode query"
  let ?p = "escapePathSegments ?path"
  note h = plain_configD(3) [OF assms]
  have chars: "list_all wire_char ?p" by (auto simp: list_all_iff wire_char_def dest: escaped_chars)
  define u where "u = empty_url\<lparr>url_Scheme := scheme, Host := ?h, url_Path := ?path,
      RawPath := (if ?p = url_escape PathMode ?path then [] else ?p), RawQuery := ?q\<rparr>"
  have parse: "url_Parse (wire_url c scheme host key query) = Some u"
    unfolding u_def wire_url_def
    by (rule parse_plain) (use plain_configD(2) [OF assms] h segments_rooted chars Encode_wire unescape_segments in auto)
  have esc: "EscapedPath u = ?p"
    using EscapedPath_segments [of u] object_path_rooted by (auto simp: u_def empty_url_def)
  have str: "url_String u = wire_url c scheme host key query"
    using String_plain [OF plain_configD(1) [OF assms] h _ u_def] segments_rooted esc
    by (simp only: wire_url_def if_cancel)
  have "request_url (wire_url c scheme host key query) = Some u"
    using parse plain_host_port [OF h] by (simp add: request_url_def u_def empty_url_def)
  with parse esc str show ?thesis by (auto simp: u_def empty_url_def)
qed

lemma s3_signedRequest_built:
  assumes "plain_config c scheme host" and "distinct (map fst query)" and "list_all (\<lambda>kvs. snd kvs \<noteq> []) query"
  shows "\<exists>r u. s3_signedRequest c now method key query payloadSHA body contentType = Some r
    \<and> Method r = method \<and> RequestBody r = body \<and> RequestURL r = wire_url c scheme host key query
    \<and> url_Parse (RequestURL r) = Some u
    \<and> Host u = object_host c host \<and> EscapedPath u = escapePathSegments (object_path c key)
    \<and> canonicalQueryString (url_Query u) = canonicalQueryString query
    \<and> header_Get (RequestHeader r) ''Authorization'' = s3_authorization c now payloadSHA u r"
proof -
  let ?wire = "wire_url c scheme host key query"
  from wire_url_parses [OF assms(1)] obtain u where u: "url_Parse ?wire = Some u" "request_url ?wire = Some u"
    "url_String u = ?wire" "Host u = object_host c host"
    "EscapedPath u = escapePathSegments (object_path c key)" "RawQuery u = Values_Encode query" by blast
  from objectURL_wire [OF assms(1)] obtain l where l: "s3_objectURL c key = Some l"
    "url_String (l\<lparr>RawQuery := Values_Encode query\<rparr>) = ?wire" by blast
  define r0 where "r0 = \<lparr>Method = method, RequestURL = ?wire, RequestHeader = [], RequestBody = body\<rparr>"
  define r where "r = s3_sign c now payloadSHA u
      (if contentType \<noteq> [] then set_header ''Content-Type'' contentType r0 else r0)"
  have build: "s3_signedRequest c now method key query payloadSHA body contentType = Some r"
    unfolding s3_signedRequest_def l(1) bind.bind_lunit Let_def l(2) u(2) NewRequest_def u(3) r_def r0_def
      option.map ..
  obtain r2 where r2: "r = set_header ''Authorization'' (s3_authorization c now payloadSHA u r2) r2"
    "Method r2 = method" "RequestBody r2 = body" "RequestURL r2 = ?wire"
    by (rule that [of "(let r1 = set_header ''X-Amz-Content-Sha256'' payloadSHA (set_header ''X-Amz-Date''
         (format_amz now) (if contentType \<noteq> [] then set_header ''Content-Type'' contentType r0 else r0))
       in if SessionToken c \<noteq> [] then set_header ''X-Amz-Security-Token'' (SessionToken c) r1 else r1)"])
      (simp_all add: r_def s3_sign_def r0_def Let_def)
  have "\<forall>(k, ws) \<in> set query. ws \<noteq> []" using assms(3) by (auto simp: list_all_iff)
  note Q = ParseQuery_Encode [OF assms(2) this]
  have "canonicalQueryString (url_Query u) = canonicalQueryString query"
    unfolding canonicalQueryString_def url_Query_def u(6) Q
    by (intro arg_cong2 [where f = Join] arg_cong [where f = concat] map_cong)
      (auto simp: comp_def sorted_sort_id map_of_map_restrict)
  then show ?thesis
    using build u r2 by (intro exI [of _ r] exI [of _ u]) (simp add: s3_authorization_stable)
qed


definition demo_s3 :: s3_config where
  "demo_s3 = \<lparr>Endpoint = ''https://s3.test:9000'', Region = ''r'', Bucket = ''media'', PathStyle = True,
     AccessKeyID = ''id'', SecretAccessKey = ''key'', SessionToken = []\<rparr>"

lemma demo_plain: "plain_config demo_s3 ''https'' ''s3.test:9000''"
proof -
  have "list_all host_char ''s3.test''" "validOptionalPort '':9000''" by code_simp+
  then have "plain_host ''s3.test:9000''"
    unfolding plain_host_def by (intro exI [of _ "''s3.test''"] exI [of _ "'':9000''"]) simp
  moreover have "s3_validate demo_s3 = None" by code_simp
  ultimately show ?thesis by (simp add: plain_config_def demo_s3_def)
qed


section \<open>Which object a key names\<close>

text \<open>The escaping loses nothing: two paths are sent alike only when they are the same.\<close>

lemma escapePathSegments_inject: "escapePathSegments a = escapePathSegments b \<longleftrightarrow> a = b"
  using unescape_segments by (metis option.inject)

lemma Split_snoc: "Split (s @ [c]) c = Split s c @ [[]]"
  by (induction s) (auto split: list.split)

lemma clean_parts_snoc: "clean_parts rooted st (ps @ [[]]) = clean_parts rooted st ps"
  by (induction rooted st ps rule: clean_parts.induct) (auto split: list.split)

lemma Clean_slash: "p \<noteq> [] \<Longrightarrow> Clean (p @ ''/'') = Clean p"
  by (cases p) (simp_all add: Clean_def Split_snoc [of "_ # _", simplified] clean_parts_snoc is_abs_def HasPrefix_def)

text \<open>With path-style addressing a key and the same key with a slash behind it, both valid, name the
  same object: what is read, written or deleted under one is that of the other.\<close>

theorem path_style_keys_collide:
  assumes "PathStyle c" and "validKey key"
  shows "validKey (key @ ''/'') \<and> s3_objectURL c (key @ ''/'') = s3_objectURL c key"
proof
  have key: "key \<noteq> []" "\<not> HasPrefix key ''/''" "\<not> sublist ''..'' key"
    "list_all (\<lambda>part. part \<noteq> ''.'' \<and> part \<noteq> ''..'') (Split key CHR ''/'')"
    using assms(2) by (auto simp: validKey_def Contains_def)
  have "\<not> sublist ''..'' (key @ ''/'')"
    using key(3) by (auto simp: sublist_append suffix_def prefix_Cons dest: sublist_length_le)
  moreover have "HasPrefix (key @ ''/'') ''/'' \<longleftrightarrow> HasPrefix key ''/''"
    using key(1) by (cases key) (simp_all add: HasPrefix_def)
  ultimately show "validKey (key @ ''/'')"
    using key by (simp add: validKey_def Contains_def Split_snoc)
  have Join: "Join (xs @ [key @ ''/'']) ''/'' = Join (xs @ [key]) ''/'' @ ''/''" for xs
    by (induction xs rule: induct_list012) simp_all
  have "path_Join [''/'', p, b, key @ ''/''] = path_Join [''/'', p, b, key]" for p b
  proof -
    let ?xs = "filter (\<lambda>p. p \<noteq> []) [''/'', p, b]"
    have pj: "path_Join [''/'', p, b, k] = Clean (Join (?xs @ [k]) ''/'')" if "k \<noteq> []" for k
      using that by (simp add: path_Join_def)
    have "Join (?xs @ [key]) ''/'' \<noteq> []" by simp
    note slash = Clean_slash [OF this]
    have "key @ ''/'' \<noteq> []" by simp
    show ?thesis unfolding pj [OF \<open>key @ ''/'' \<noteq> []\<close>] pj [OF key(1)] Join by (rule slash)
  qed
  then show "s3_objectURL c (key @ ''/'') = s3_objectURL c key"
    using assms(1) by (simp add: s3_objectURL_def)
qed

theorem path_style_keys_collide_witness:
  "s3_objectURL demo_s3 ''dir/'' = s3_objectURL demo_s3 ''dir''"
proof -
  have "PathStyle demo_s3" "validKey ''dir''" by code_simp+
  from path_style_keys_collide [OF this] show ?thesis by simp
qed

end
