(* ===== verification/S3_Client.thy ===== *)
theory S3_Client
  imports S3_Sign
begin

text \<open>
  Package \<open>s3\<close>, the calls of \<open>s3.go\<close> on one object or a listing. The environment of a client is a
  record on a world: the HTTP server, the clock, the wait of a retry and \<open>encoding/xml\<close> on the two
  answers that are decoded. A response is returned with its whole body, which the caller reads.
  An error's text is its fixed part, its arguments not expanded.
\<close>

section \<open>Environment and errors\<close>

record s3_object =
  Key :: string
  LastModified :: go_time
  Size :: int

text \<open>
  \<open>Sleep d\<close> waits for \<open>d\<close> and a jitter; it says whether the context ended first. \<open>ParseListing\<close>
  gives \<open>IsTruncated\<close> and \<open>Contents\<close>, \<open>ParseInitiate\<close> the \<open>UploadId\<close>, empty when absent.
\<close>

record ('w, 'e) s3_env =
  Http :: "('w, 'e) http_server"
  Now :: "'w \<Rightarrow> go_time"
  Sleep :: "go_duration \<Rightarrow> 'w \<Rightarrow> bool \<times> 'w"
  ParseListing :: "string \<Rightarrow> (bool \<times> s3_object list) option"
  ParseInitiate :: "string \<Rightarrow> string option"

datatype 'e s3_error =
    S3Text string
  | S3Url
  | S3Transport 'e
  | S3Body 'e
  | S3Status string int
  | S3Reader "'e option"
  | S3Context
  | S3Wrap string "'e s3_error"
  | S3Join "'e s3_error" "'e s3_error"
  | S3Panic string

definition bad_key :: "'e s3_error" where
  "bad_key = S3Text ''s3: key must be a non-empty bucket-relative path''"

text \<open>Sign and send; \<open>late\<close> sets headers after signing.\<close>

definition s3_do ::
  "('w, 'e) s3_env \<Rightarrow> s3_config \<Rightarrow> string \<Rightarrow> string \<Rightarrow> (string, string list) go_map \<Rightarrow> string
   \<Rightarrow> string option \<Rightarrow> string \<Rightarrow> (http_request \<Rightarrow> http_request) \<Rightarrow> 'w
   \<Rightarrow> ('e s3_error + 'e http_response) \<times> 'w" where
  "s3_do env c method key query payloadSHA body contentType late w =
     (case s3_signedRequest c (Now env w) method key query payloadSHA body contentType of
        None \<Rightarrow> (Inl S3Url, w)
      | Some request \<Rightarrow>
          (case Http env w (late request) of
             (Inl e, w') \<Rightarrow> (Inl (S3Transport e), w')
           | (Inr response, w') \<Rightarrow> (Inr response, w')))"

abbreviation s3_call where
  "s3_call env c method key query payloadSHA body \<equiv> s3_do env c method key query payloadSHA body [] id"

definition success_status :: "int \<Rightarrow> bool" where
  "success_status s \<longleftrightarrow> \<not> (s < 200 \<or> 300 \<le> s)"

section \<open>The calls\<close>

definition s3_Get ::
  "('w, 'e) s3_env \<Rightarrow> s3_config \<Rightarrow> string \<Rightarrow> string \<Rightarrow> 'w \<Rightarrow> ('e s3_error + 'e http_response) \<times> 'w" where
  "s3_Get env c key rangeHeader w =
     (if \<not> validKey key then (Inl bad_key, w)
      else (case s3_do env c ''GET'' key [] emptySHA256 None []
          (if rangeHeader \<noteq> [] then set_header ''Range'' rangeHeader else id) w of
          (Inl e, w') \<Rightarrow> (Inl e, w')
        | (Inr response, w') \<Rightarrow>
            if StatusCode response \<noteq> 200 \<and> StatusCode response \<noteq> 206
            then (Inl (S3Status ''GET'' (StatusCode response)), w')
            else (Inr response, w')))"

record list_result =
  Objects :: "s3_object list"
  IsTruncated :: bool
  NextStartAfter :: string

definition s3_List ::
  "('w, 'e) s3_env \<Rightarrow> s3_config \<Rightarrow> string \<Rightarrow> string \<Rightarrow> int \<Rightarrow> 'w \<Rightarrow> ('e s3_error + list_result) \<times> 'w" where
  "s3_List env c pre startAfter maxKeys w =
     (if TrimSpace pre = [] \<or> HasPrefix pre ''/''
      then (Inl (S3Text ''s3: list prefix must be a non-empty bucket-relative path''), w)
      else if maxKeys < 1 \<or> 1000 < maxKeys
      then (Inl (S3Text ''s3: list max keys must be between 1 and 1000''), w)
      else (case s3_call env c ''GET'' []
          ([(''list-type'', [''2'']), (''prefix'', [pre]), (''max-keys'', [show_int maxKeys])]
           @ (if startAfter \<noteq> [] then [(''start-after'', [startAfter])] else []))
          emptySHA256 None w of
          (Inl e, w') \<Rightarrow> (Inl e, w')
        | (Inr response, w') \<Rightarrow>
            (case read_limited 1048576 response of
               Inl e \<Rightarrow> (Inl (S3Body e), w')
             | Inr body \<Rightarrow>
                 if StatusCode response \<noteq> 200 then (Inl (S3Status ''LIST'' (StatusCode response)), w')
                 else (case ParseListing env body of
                     None \<Rightarrow> (Inl (S3Text ''s3: LIST %s: malformed response''), w')
                   | Some (truncated, objects) \<Rightarrow>
                       (Inr \<lparr>Objects = objects, IsTruncated = truncated,
                          NextStartAfter = (if truncated \<and> objects \<noteq> [] then Key (last objects) else [])\<rparr>, w')))))"

definition s3_Delete ::
  "('w, 'e) s3_env \<Rightarrow> s3_config \<Rightarrow> string \<Rightarrow> 'w \<Rightarrow> 'e s3_error option \<times> 'w" where
  "s3_Delete env c key w =
     (if \<not> validKey key then (Some bad_key, w)
      else (case s3_call env c ''DELETE'' key [] emptySHA256 None w of
          (Inl e, w') \<Rightarrow> (Some e, w')
        | (Inr response, w') \<Rightarrow>
            if StatusCode response \<noteq> 200 \<and> StatusCode response \<noteq> 204 \<and> StatusCode response \<noteq> 404
            then (Some (S3Status ''DELETE'' (StatusCode response)), w')
            else (None, w')))"

definition s3_Put ::
  "('w, 'e) s3_env \<Rightarrow> s3_config \<Rightarrow> string \<Rightarrow> string \<Rightarrow> string \<Rightarrow> 'w \<Rightarrow> 'e s3_error option \<times> 'w" where
  "s3_Put env c key body contentType w =
     (if \<not> validKey key then (Some bad_key, w)
      else if TrimSpace contentType = [] then (Some (S3Text ''s3: put requires a content type''), w)
      else (case s3_do env c ''PUT'' key [] (hex_sha256 body) (Some body) contentType id w of
          (Inl e, w') \<Rightarrow> (Some e, w')
        | (Inr response, w') \<Rightarrow>
            if \<not> success_status (StatusCode response)
            then (Some (S3Status ''PUT'' (StatusCode response)), w')
            else (None, w')))"

record identity =
  IdentitySHA256 :: string
  IdentityBytes :: int

definition s3_Inspect ::
  "('w, 'e) s3_env \<Rightarrow> s3_config \<Rightarrow> string \<Rightarrow> 'w \<Rightarrow> ('e s3_error + identity) \<times> 'w" where
  "s3_Inspect env c key w =
     (case s3_Get env c key [] w of
        (Inl e, w') \<Rightarrow> (Inl e, w')
      | (Inr response, w') \<Rightarrow>
          (case read_all response of
             Inl e \<Rightarrow> (Inl (S3Wrap ''s3: inspect %s: %w'' (S3Body e)), w')
           | Inr content \<Rightarrow>
               if length content < 1 then (Inl (S3Text ''s3: inspect %s: object is empty''), w')
               else (Inr \<lparr>IdentitySHA256 = hex_sha256 content, IdentityBytes = int (length content)\<rparr>, w')))"

section \<open>What a call sends\<close>

text \<open>With a plain configuration a call always sends its one request, which names its object.\<close>

lemma s3_do_sent:
  assumes "plain_config c scheme host" "distinct (map fst query)" "list_all (\<lambda>kvs. snd kvs \<noteq> []) query"
    and "s3_do env c method key query sha body contentType late w = (res, w')"
  obtains request answer where "Http env w (late request) = (answer, w')" "Method request = method"
    "RequestBody request = body" "RequestURL request = wire_url c scheme host key query"
    "res = (case answer of Inl e \<Rightarrow> Inl (S3Transport e) | Inr response \<Rightarrow> Inr response)"
proof -
  from s3_signedRequest_built [OF assms(1-3)] obtain request
    where r: "s3_signedRequest c (Now env w) method key query sha body contentType = Some request"
      "Method request = method" "RequestBody request = body"
      "RequestURL request = wire_url c scheme host key query" by blast
  obtain answer w1 where a: "Http env w (late request) = (answer, w1)" by (rule prod.exhaust)
  show thesis
    by (rule that [OF _ r(2-4), of answer]) (use assms(4) a r(1) in \<open>auto simp: s3_do_def split: sum.splits\<close>)
qed

lemma s3_signedRequest_fields:
  assumes "s3_signedRequest c now method key query sha body contentType = Some r"
  shows "Method r = method \<and> RequestBody r = body"
  using assms
  by (auto simp: s3_signedRequest_def s3_sign_def NewRequest_def Let_def bind_eq_Some_conv)

lemma s3_do_Inr:
  assumes "s3_do env c method key query sha body contentType late w = (Inr response, w')"
    and late: "\<And>r. Method (late r) = Method r \<and> RequestBody (late r) = RequestBody r"
  shows "\<exists>request. Http env w request = (Inr response, w') \<and> Method request = method \<and> RequestBody request = body"
proof -
  from assms(1) obtain r where r: "s3_signedRequest c (Now env w) method key query sha body contentType = Some r"
    "Http env w (late r) = (Inr response, w')"
    by (auto simp: s3_do_def split: option.splits prod.splits sum.splits)
  with s3_signedRequest_fields [OF r(1)] late show ?thesis by (intro exI [of _ "late r"]) simp
qed

lemma s3_Get_Inr:
  assumes "s3_Get env c key rangeHeader w = (Inr response, w')"
  shows "validKey key \<and> (StatusCode response = 200 \<or> StatusCode response = 206)
    \<and> (\<exists>request. Http env w request = (Inr response, w') \<and> Method request = ''GET'')"
proof -
  let ?late = "if rangeHeader \<noteq> [] then set_header ''Range'' rangeHeader else id"
  from assms have "validKey key" and st: "StatusCode response = 200 \<or> StatusCode response = 206"
    and d: "s3_do env c ''GET'' key [] emptySHA256 None [] ?late w = (Inr response, w')"
    by (auto simp: s3_Get_def split: if_splits prod.splits sum.splits)
  have "Method (?late r) = Method r \<and> RequestBody (?late r) = RequestBody r" for r by simp
  with s3_do_Inr [OF d] have "\<exists>request. Http env w request = (Inr response, w') \<and> Method request = ''GET''"
    by blast
  with \<open>validKey key\<close> st show ?thesis by blast
qed

lemma s3_Inspect_Inr:
  assumes "s3_Inspect env c key w = (Inr i, w')"
  shows "\<exists>request response. Http env w request = (Inr response, w') \<and> Method request = ''GET''
    \<and> (StatusCode response = 200 \<or> StatusCode response = 206) \<and> BodyError response = None
    \<and> IdentitySHA256 i = hex_sha256 (Body response) \<and> IdentityBytes i = int (length (Body response))
    \<and> Body response \<noteq> []"
proof -
  from assms obtain response where g: "s3_Get env c key [] w = (Inr response, w')"
    and b: "BodyError response = None" "Body response \<noteq> []"
      "IdentitySHA256 i = hex_sha256 (Body response)" "IdentityBytes i = int (length (Body response))"
    by (auto simp: s3_Inspect_def read_all_def split: prod.splits sum.splits if_splits option.splits)
  from s3_Get_Inr [OF g] b show ?thesis by blast
qed

end
