(* ===== verification/S3_Multipart.thy ===== *)
theory S3_Multipart
  imports S3_Client Go_Json "HOL-Library.Signed_Division"
begin

text \<open>
  Package \<open>s3\<close>, \<open>multipart.go\<close>: \<open>PutStream\<close> and the multipart upload under it. A reader is the
  bytes it gives and what ends them. The two package variables, which \<open>PutStream\<close> reads, are a
  record. The wire XML of \<open>CompleteMultipartUpload\<close> is written out; a panic is an error of its own
  that no caller handles.
\<close>

section \<open>Readers, parts and their XML\<close>

text \<open>\<open>io.EOF\<close>, \<open>io.ErrUnexpectedEOF\<close> or any other error.\<close>

datatype 'e read_end = EndOfFile | UnexpectedEOF | ReadFails 'e

record 'e s3_reader =
  Content :: string
  Ending :: "'e read_end"

fun read_error :: "'e read_end \<Rightarrow> 'e option" where
  "read_error (ReadFails e) = Some e"
| "read_error _ = None"

record multipart_vars =
  MultipartThreshold :: int
  multipartPartSize :: nat

definition default_vars :: multipart_vars where
  "default_vars = \<lparr>MultipartThreshold = 8388608, multipartPartSize = 8388608\<rparr>"

definition maxMultipartParts :: int where "maxMultipartParts = 10000"

definition multipartPartRetries :: "go_duration list" where
  "multipartPartRetries = [0, 2 * second, 5 * second, 10 * second]"

record completed_part =
  PartNumber :: nat
  ETag :: string

text \<open>\<open>xml.EscapeText\<close>: a rune outside the characters of XML becomes the replacement.\<close>

definition xml_ascii :: "char \<Rightarrow> string" where
  "xml_ascii c =
     (if c = CHR 0x22 then ''&#34;'' else if c = CHR 0x27 then ''&#39;''
      else if c = CHR ''&'' then ''&amp;'' else if c = CHR ''<'' then ''&lt;''
      else if c = CHR ''>'' then ''&gt;'' else if c = CHR 0x09 then ''&#x9;''
      else if c = CHR 0x0A then ''&#xA;'' else if c = CHR 0x0D then ''&#xD;''
      else if of_byte c < 0x20 then replacement else [c])"

definition xml_nonchar :: "string \<Rightarrow> bool" where
  "xml_nonchar s \<longleftrightarrow> take 2 s = [CHR 0xEF, CHR 0xBF] \<and> take 1 (drop 2 s) \<in> {[CHR 0xBE], [CHR 0xBF]}"

function xml_text :: "string \<Rightarrow> string" where
  "xml_text [] = []"
| "xml_text (c # s) =
     (if of_byte c < (0x80 :: nat) then xml_ascii c @ xml_text s
      else if rune_width (c # s) = 0 then replacement @ xml_text s
      else (if xml_nonchar (c # s) then replacement else c # take (rune_width (c # s) - 1) s)
        @ xml_text (drop (rune_width (c # s) - 1) s))"
  by pat_completeness auto
termination by (relation "measure length") simp_all

definition complete_xml :: "completed_part list \<Rightarrow> string" where
  "complete_xml parts =
     ''<CompleteMultipartUpload>''
     @ concat (map (\<lambda>p. ''<Part><PartNumber>'' @ show_nat (PartNumber p) @ ''</PartNumber><ETag>''
         @ xml_text (ETag p) @ ''</ETag></Part>'') parts)
     @ ''</CompleteMultipartUpload>''"

section \<open>The requests of an upload\<close>

definition createMultipartUpload ::
  "('w, 'e) s3_env \<Rightarrow> s3_config \<Rightarrow> string \<Rightarrow> 'w \<Rightarrow> ('e s3_error + string) \<times> 'w" where
  "createMultipartUpload env c key w =
     (case s3_call env c ''POST'' key [(''uploads'', [[]])] emptySHA256 None w of
        (Inl e, w') \<Rightarrow> (Inl e, w')
      | (Inr response, w') \<Rightarrow>
          (case read_limited 1048576 response of
             Inl e \<Rightarrow> (Inl (S3Body e), w')
           | Inr body \<Rightarrow>
               if \<not> success_status (StatusCode response)
               then (Inl (S3Status ''s3: create multipart upload returned status %d'' (StatusCode response)), w')
               else (case ParseInitiate env body of
                   None \<Rightarrow> (Inl (S3Text ''s3: create multipart upload response is invalid''), w')
                 | Some uploadID \<Rightarrow>
                     if uploadID = [] then (Inl (S3Text ''s3: create multipart upload response is invalid''), w')
                     else (Inr uploadID, w'))))"

definition uploadPart ::
  "('w, 'e) s3_env \<Rightarrow> s3_config \<Rightarrow> string \<Rightarrow> string \<Rightarrow> nat \<Rightarrow> string \<Rightarrow> 'w \<Rightarrow> ('e s3_error + string) \<times> 'w" where
  "uploadPart env c key uploadID partNumber content w =
     (case s3_call env c ''PUT'' key [(''partNumber'', [show_nat partNumber]), (''uploadId'', [uploadID])]
         (hex_sha256 content) (Some content) w of
        (Inl e, w') \<Rightarrow> (Inl e, w')
      | (Inr response, w') \<Rightarrow>
          if \<not> success_status (StatusCode response)
          then (Inl (S3Status ''s3: put multipart part returned status %d'' (StatusCode response)), w')
          else if header_Get (ResponseHeader response) ''ETag'' = []
          then (Inl (S3Text ''s3: put multipart part response is missing an ETag''), w')
          else (Inr (header_Get (ResponseHeader response) ''ETag''), w'))"

text \<open>
  An error of the HTTP client, and one of a URL that does not parse, is an \<open>*url.Error\<close>, which is a
  \<open>net.Error\<close>. The texts of the others, whose arguments are numbers, hold none of the
  fragments that are looked for.
\<close>

fun isTransientMultipartError :: "'e s3_error \<Rightarrow> bool" where
  "isTransientMultipartError (S3Transport e) = True"
| "isTransientMultipartError S3Url = True"
| "isTransientMultipartError _ = False"

text \<open>\<open>attempt\<close> counts the attempts before; the delays left are a suffix of the list.\<close>

fun retry_part ::
  "('w, 'e) s3_env \<Rightarrow> s3_config \<Rightarrow> string \<Rightarrow> string \<Rightarrow> nat \<Rightarrow> string \<Rightarrow> nat \<Rightarrow> go_duration list
   \<Rightarrow> 'e s3_error option \<Rightarrow> 'w \<Rightarrow> ('e s3_error + string) \<times> 'w" where
  "retry_part env c key uploadID n content attempt [] lastErr w =
     (case lastErr of None \<Rightarrow> Inr [] | Some e \<Rightarrow> Inl e, w)"
| "retry_part env c key uploadID n content attempt (delay # delays) lastErr w =
     (case (if 0 < attempt then Sleep env delay w else (False, w)) of
        (True, w1) \<Rightarrow> (Inl S3Context, w1)
      | (False, w1) \<Rightarrow>
          (case uploadPart env c key uploadID n content w1 of
             (Inr etag, w2) \<Rightarrow> (Inr etag, w2)
           | (Inl e, w2) \<Rightarrow>
               if \<not> isTransientMultipartError e then (Inl e, w2)
               else retry_part env c key uploadID n content (Suc attempt) delays (Some e) w2))"

definition uploadPartWithRetry ::
  "('w, 'e) s3_env \<Rightarrow> s3_config \<Rightarrow> string \<Rightarrow> string \<Rightarrow> nat \<Rightarrow> string \<Rightarrow> 'w \<Rightarrow> ('e s3_error + string) \<times> 'w" where
  "uploadPartWithRetry env c key uploadID n content w =
     retry_part env c key uploadID n content 0 multipartPartRetries None w"

text \<open>
  The loop of \<open>uploadParts\<close>: \<open>io.ReadFull\<close> fills the buffer or meets the end of the reader; an
  unexpected end counts as an end. With an empty buffer it reads nothing and sees no end.
\<close>

function upload_from ::
  "('w, 'e) s3_env \<Rightarrow> s3_config \<Rightarrow> nat \<Rightarrow> string \<Rightarrow> string \<Rightarrow> nat \<Rightarrow> string \<Rightarrow> 'e read_end
   \<Rightarrow> completed_part list \<Rightarrow> 'w \<Rightarrow> ('e s3_error + completed_part list) \<times> 'w" where
  "upload_from env c sz key uploadID n content ending parts w =
     (let part = take sz content; short = length part < sz in
      if short \<and> read_error ending \<noteq> None
      then (Inl (S3Wrap ''s3: read multipart part %d: %w'' (S3Reader (read_error ending))), w)
      else if part = [] then (Inr parts, w)
      else (case uploadPartWithRetry env c key uploadID n part w of
          (Inl e, w') \<Rightarrow> (Inl (S3Wrap ''s3: upload multipart part %d: %w'' e), w')
        | (Inr etag, w') \<Rightarrow>
            (let parts' = parts @ [\<lparr>PartNumber = n, ETag = etag\<rparr>] in
             if short then (Inr parts', w')
             else upload_from env c sz key uploadID (Suc n) (drop sz content) ending parts' w')))"
  by pat_completeness auto
termination by (relation "measure (\<lambda>(env, c, sz, key, uploadID, n, content, ending, parts, w). length content)") auto

declare upload_from.simps [simp del]

definition uploadParts ::
  "('w, 'e) s3_env \<Rightarrow> s3_config \<Rightarrow> multipart_vars \<Rightarrow> string \<Rightarrow> string \<Rightarrow> 'e s3_reader \<Rightarrow> int \<Rightarrow> 'w
   \<Rightarrow> ('e s3_error + completed_part list) \<times> 'w" where
  "uploadParts env c vars key uploadID body totalBytes w =
     (let sz = multipartPartSize vars in
      if sz = 0 then (Inl (S3Panic ''integer divide by zero''), w)
      else
        (let partCount = wrap64 (wrap64 (totalBytes + int sz) - 1) sdiv int sz in
         if maxMultipartParts < partCount
         then (Inl (S3Text ''s3: multipart upload requires %d parts, over the %d limit''), w)
         else if partCount < 0 then (Inl (S3Panic ''makeslice: cap out of range''), w)
         else (case upload_from env c sz key uploadID 1 (Content body) (Ending body) [] w of
             (Inl e, w') \<Rightarrow> (Inl e, w')
           | (Inr parts, w') \<Rightarrow>
               if parts = [] then (Inl (S3Text ''s3: multipart upload produced no parts''), w')
               else (Inr parts, w'))))"

definition completeMultipartUpload ::
  "('w, 'e) s3_env \<Rightarrow> s3_config \<Rightarrow> string \<Rightarrow> string \<Rightarrow> completed_part list \<Rightarrow> 'w \<Rightarrow> 'e s3_error option \<times> 'w" where
  "completeMultipartUpload env c key uploadID parts w =
     (case s3_call env c ''POST'' key [(''uploadId'', [uploadID])] (hex_sha256 (complete_xml parts))
         (Some (complete_xml parts)) w of
        (Inl e, w') \<Rightarrow> (Some e, w')
      | (Inr response, w') \<Rightarrow>
          if \<not> success_status (StatusCode response)
          then (Some (S3Status ''s3: complete multipart upload returned status %d'' (StatusCode response)), w')
          else (None, w'))"

definition abortMultipartUpload ::
  "('w, 'e) s3_env \<Rightarrow> s3_config \<Rightarrow> string \<Rightarrow> string \<Rightarrow> 'w \<Rightarrow> 'e s3_error option \<times> 'w" where
  "abortMultipartUpload env c key uploadID w =
     (case s3_call env c ''DELETE'' key [(''uploadId'', [uploadID])] emptySHA256 None w of
        (Inl e, w') \<Rightarrow> (Some e, w')
      | (Inr response, w') \<Rightarrow>
          if \<not> success_status (StatusCode response)
          then (Some (S3Status ''s3: abort multipart upload returned status %d'' (StatusCode response)), w')
          else (None, w'))"

section \<open>Uploading a stream\<close>

fun panicked :: "'e s3_error \<Rightarrow> bool" where
  "panicked (S3Panic p) = True"
| "panicked _ = False"

definition putMultipart ::
  "('w, 'e) s3_env \<Rightarrow> s3_config \<Rightarrow> multipart_vars \<Rightarrow> string \<Rightarrow> 'e s3_reader \<Rightarrow> int \<Rightarrow> 'w
   \<Rightarrow> 'e s3_error option \<times> 'w" where
  "putMultipart env c vars key body totalBytes w =
     (case createMultipartUpload env c key w of
        (Inl e, w1) \<Rightarrow> (Some (S3Wrap ''s3: create multipart upload: %w'' e), w1)
      | (Inr uploadID, w1) \<Rightarrow>
          (case uploadParts env c vars key uploadID body totalBytes w1 of
             (Inl e, w2) \<Rightarrow>
               if panicked e then (Some e, w2)
               else (case abortMultipartUpload env c key uploadID w2 of
                  (Some a, w3) \<Rightarrow> (Some (S3Join e
                    (S3Wrap ''s3: abort multipart upload after failed part: %w'' a)), w3)
                | (None, w3) \<Rightarrow> (Some e, w3))
           | (Inr parts, w2) \<Rightarrow>
               (case completeMultipartUpload env c key uploadID parts w2 of
                  (None, w3) \<Rightarrow> (None, w3)
                | (Some e, w3) \<Rightarrow>
                    (case abortMultipartUpload env c key uploadID w3 of
                       (Some a, w4) \<Rightarrow> (Some (S3Join e
                         (S3Wrap ''s3: abort multipart upload after failed complete: %w'' a)), w4)
                     | (None, w4) \<Rightarrow> (Some (S3Wrap ''s3: complete multipart upload: %w'' e), w4)))))"

text \<open>\<open>io.ReadAll(io.LimitReader(body, n))\<close>\<close>

definition read_reader :: "nat \<Rightarrow> 'e s3_reader \<Rightarrow> 'e s3_error + string" where
  "read_reader n body =
     (if n \<le> length (Content body) then Inr (take n (Content body))
      else (case Ending body of
          EndOfFile \<Rightarrow> Inr (Content body)
        | UnexpectedEOF \<Rightarrow> Inl (S3Reader None)
        | ReadFails e \<Rightarrow> Inl (S3Reader (Some e))))"

definition PutStream ::
  "('w, 'e) s3_env \<Rightarrow> s3_config \<Rightarrow> multipart_vars \<Rightarrow> string \<Rightarrow> 'e s3_reader \<Rightarrow> int \<Rightarrow> string \<Rightarrow> 'w
   \<Rightarrow> 'e s3_error option \<times> 'w" where
  "PutStream env c vars key body declared sha256Hex w =
     (if \<not> validKey key then (Some bad_key, w)
      else if declared < 1 then (Some (S3Text ''s3: put stream requires a positive byte count''), w)
      else if length sha256Hex \<noteq> 64
      then (Some (S3Text ''s3: put stream requires the exact sha256 of body''), w)
      else
        (case (if declared \<le> MultipartThreshold vars then
                 (case read_reader (nat (declared + 1)) body of
                    Inl e \<Rightarrow> (Some (S3Wrap ''s3: read put stream body: %w'' e), w)
                  | Inr content \<Rightarrow>
                      if int (length content) \<noteq> declared
                      then (Some (S3Text ''s3: put stream body did not match the declared size''), w)
                      else s3_Put env c key content ''application/octet-stream'' w)
               else putMultipart env c vars key body declared w) of
           (Some e, w1) \<Rightarrow> (Some e, w1)
         | (None, w1) \<Rightarrow>
             (case s3_Inspect env c key w1 of
                (Inl e, w2) \<Rightarrow> (Some (S3Text ''s3: put stream object identity differs after upload''), w2)
              | (Inr verified, w2) \<Rightarrow>
                  if IdentitySHA256 verified \<noteq> sha256Hex \<or> IdentityBytes verified \<noteq> declared
                  then (Some (S3Text ''s3: put stream object identity differs after upload''), w2)
                  else (None, w2))))"

section \<open>One part\<close>

text \<open>Some attempt of the part was accepted.\<close>

definition part_accepted ::
  "('w, 'e) s3_env \<Rightarrow> s3_config \<Rightarrow> string \<Rightarrow> string \<Rightarrow> completed_part \<Rightarrow> string \<Rightarrow> bool" where
  "part_accepted env c key uploadID p chunk \<longleftrightarrow>
     (\<exists>w w'. uploadPart env c key uploadID (PartNumber p) chunk w = (Inr (ETag p), w'))"

lemma retry_part_Inr:
  "retry_part env c key uploadID n content attempt delays lastErr w = (Inr etag, w') \<Longrightarrow>
     delays \<noteq> [] \<or> lastErr \<noteq> None \<Longrightarrow>
     \<exists>w1. uploadPart env c key uploadID n content w1 = (Inr etag, w')"
proof (induction delays arbitrary: attempt lastErr w)
  case (Cons delay delays)
  obtain stop w1 where s: "(if 0 < attempt then Sleep env delay w else (False, w)) = (stop, w1)"
    by (rule prod.exhaust)
  obtain r w2 where u: "uploadPart env c key uploadID n content w1 = (r, w2)" by (rule prod.exhaust)
  with Cons s show ?case
    by (cases r) (auto split: bool.splits if_splits)
qed (auto split: option.splits)

lemma uploadPartWithRetry_Inr:
  assumes "uploadPartWithRetry env c key uploadID n content w = (Inr etag, w')"
  shows "part_accepted env c key uploadID \<lparr>PartNumber = n, ETag = etag\<rparr> content"
  using retry_part_Inr [of env c key uploadID n content 0 multipartPartRetries None w etag w'] assms
  by (auto simp: uploadPartWithRetry_def multipartPartRetries_def part_accepted_def)

section \<open>The parts\<close>

text \<open>Non-empty chunks that fill the buffer but for the last.\<close>

definition chunked :: "nat \<Rightarrow> string list \<Rightarrow> bool" where
  "chunked sz chunks \<longleftrightarrow> list_all (\<lambda>ch. ch \<noteq> [] \<and> length ch \<le> sz) chunks
     \<and> list_all (\<lambda>ch. length ch = sz) (butlast chunks)"

lemma chunked_Cons: "length ch = sz \<Longrightarrow> ch \<noteq> [] \<Longrightarrow> chunked sz chunks \<Longrightarrow> chunked sz (ch # chunks)"
  by (simp add: chunked_def)

lemma upload_from_Inr:
  assumes "upload_from env c sz key uploadID n content ending parts w = (Inr parts', w')" "0 < sz"
  shows "\<exists>chunks new. parts' = parts @ new \<and> concat chunks = content \<and> chunked sz chunks
    \<and> read_error ending = None \<and> map PartNumber new = [n..<n + length chunks]
    \<and> list_all2 (part_accepted env c key uploadID) new chunks"
  using assms
proof (induction env c sz key uploadID n content ending parts w rule: upload_from.induct)
  case (1 env c sz key uploadID n content ending parts w)
  let ?part = "take sz content"
  have err: "\<not> (length ?part < sz \<and> read_error ending \<noteq> None)"
  proof
    assume "length ?part < sz \<and> read_error ending \<noteq> None"
    with "1.prems"(1) show False
      unfolding upload_from.simps [of env c sz key uploadID n content ending parts w] Let_def by simp
  qed
  show ?case
  proof (cases "?part = []")
    case True
    then have "content = []" using "1.prems"(2) by simp
    moreover have "parts' = parts" "read_error ending = None"
      using "1.prems" err True by (subst (asm) upload_from.simps, auto simp: Let_def)+
    ultimately show ?thesis by (intro exI [of _ "[]"]) (simp add: chunked_def)
  next
    case False
    obtain res w1 where u: "uploadPartWithRetry env c key uploadID n ?part w = (res, w1)" by (rule prod.exhaust)
    then obtain etag where res: "res = Inr etag"
      using "1.prems"(1) err False by (subst (asm) upload_from.simps) (auto simp: Let_def split: sum.splits)
    note acc = uploadPartWithRetry_Inr [OF u [unfolded res]]
    let ?p = "\<lparr>PartNumber = n, ETag = etag\<rparr>"
    show ?thesis
    proof (cases "length ?part < sz")
      case short: True
      then have "?part = content" by simp
      moreover have "parts' = parts @ [?p]" "read_error ending = None"
        using "1.prems"(1) err False u res short by (subst (asm) upload_from.simps, auto simp: Let_def)+
      ultimately show ?thesis
        using acc False short
        by (intro exI [of _ "[content]"] exI [of _ "[?p]"]) (auto simp: chunked_def)
    next
      case full: False
      have rest: "upload_from env c sz key uploadID (Suc n) (drop sz content) ending (parts @ [?p]) w1 = (Inr parts', w')"
        using "1.prems"(1) err False u res full by (subst (asm) upload_from.simps) (simp add: Let_def)
      from "1.IH" [OF refl refl err False u [symmetric] res refl full rest "1.prems"(2)]
      obtain chunks new where ih: "parts' = (parts @ [?p]) @ new" "concat chunks = drop sz content"
        "chunked sz chunks" "read_error ending = None" "map PartNumber new = [Suc n..<Suc n + length chunks]"
        "list_all2 (part_accepted env c key uploadID) new chunks" by blast
      have "chunked sz (?part # chunks)"
        using full False ih(3) by (intro chunked_Cons) auto
      moreover have "[n..<n + length (?part # chunks)] = n # [Suc n..<Suc n + length chunks]"
        by (simp add: upt_conv_Cons del: upt_Suc)
      ultimately show ?thesis
        using ih acc by (intro exI [of _ "?part # chunks"] exI [of _ "?p # new"]) (simp del: upt_Suc)
    qed
  qed
qed

lemma uploadParts_Inr:
  assumes "uploadParts env c vars key uploadID body totalBytes w = (Inr parts, w')"
  shows "parts \<noteq> [] \<and> 0 < multipartPartSize vars
    \<and> upload_from env c (multipartPartSize vars) key uploadID 1 (Content body) (Ending body) [] w = (Inr parts, w')"
  using assms by (auto simp: uploadParts_def Let_def split: if_splits prod.splits sum.splits)

section \<open>A store for the witnesses\<close>

text \<open>It counts the requests, accepts every method but one and answers with one body.\<close>

definition demo_response :: "string \<Rightarrow> string \<Rightarrow> string http_response" where
  "demo_response refused method =
     \<lparr>StatusCode = (if method = refused then 500 else 200), ResponseHeader = [(''Etag'', ''tag'')],
      Body = ''id'', BodyError = None\<rparr>"

definition demo_env :: "string \<Rightarrow> (nat, string) s3_env" where
  "demo_env refused =
     \<lparr>Http = (\<lambda>w r. (Inr (demo_response refused (Method r)), Suc w)), Now = (\<lambda>w. 0),
      Sleep = (\<lambda>d w. (False, w)), ParseListing = (\<lambda>s. None), ParseInitiate = Some\<rparr>"

lemma demo_env_simps [simp]: "ParseInitiate (demo_env refused) = Some" "Sleep (demo_env refused) d w = (False, w)"
  by (simp_all add: demo_env_def)

lemma demo_call:
  assumes "distinct (map fst query)" "list_all (\<lambda>kvs. snd kvs \<noteq> []) query"
  shows "s3_do (demo_env refused) demo_s3 method key query sha body contentType id w
    = (Inr (demo_response refused method), Suc w)"
proof -
  obtain res w' where d: "s3_do (demo_env refused) demo_s3 method key query sha body contentType id w = (res, w')"
    by (rule prod.exhaust)
  with s3_do_sent [OF demo_plain assms d] show ?thesis
    by (auto simp: demo_env_def)
qed

lemma demo_upload:
  "uploadPart (demo_env refused) demo_s3 key uploadID n content w =
     (if refused = ''PUT'' then Inl (S3Status ''s3: put multipart part returned status %d'' 500)
      else Inr ''tag'', Suc w)"
proof -
  have "header_Get [(''Etag'', ''tag'')] ''ETag'' = ''tag''" by code_simp
  then show ?thesis by (simp add: uploadPart_def demo_call demo_response_def success_status_def)
qed

lemma demo_create:
  "refused \<noteq> ''POST'' \<Longrightarrow> createMultipartUpload (demo_env refused) demo_s3 key w = (Inr ''id'', Suc w)"
  by (simp add: createMultipartUpload_def demo_call demo_response_def success_status_def read_limited_def
      read_all_def)

definition demo_vars :: multipart_vars where
  "demo_vars = \<lparr>MultipartThreshold = 2, multipartPartSize = 2\<rparr>"

lemma demo_part_count: "wrap64 (wrap64 5 - 1) sdiv 2 = 2"
  by code_simp

lemma demo_parts:
  "uploadParts (demo_env []) demo_s3 demo_vars key ''id'' \<lparr>Content = ''abc'', Ending = EndOfFile\<rparr> 3 w =
     (Inr [\<lparr>PartNumber = 1, ETag = ''tag''\<rparr>, \<lparr>PartNumber = 2, ETag = ''tag''\<rparr>], w + 2)"
  by (simp add: uploadParts_def demo_vars_def demo_part_count maxMultipartParts_def upload_from.simps
      uploadPartWithRetry_def multipartPartRetries_def demo_upload)

lemma demo_parts_refused:
  "\<exists>e. uploadParts (demo_env ''PUT'') demo_s3 demo_vars key ''id'' \<lparr>Content = ''abc'', Ending = EndOfFile\<rparr> 3 w =
     (Inl (S3Wrap ''s3: upload multipart part %d: %w'' e), Suc w)"
  by (simp add: uploadParts_def demo_vars_def demo_part_count maxMultipartParts_def upload_from.simps
      uploadPartWithRetry_def multipartPartRetries_def demo_upload)

lemma demo_multipart:
  "putMultipart (demo_env []) demo_s3 demo_vars ''k'' \<lparr>Content = ''abc'', Ending = EndOfFile\<rparr> 3 0 = (None, 4)"
  by (simp add: putMultipart_def demo_create demo_parts completeMultipartUpload_def demo_call demo_response_def
      success_status_def)

lemma demo_stream:
  "PutStream (demo_env []) demo_s3 demo_vars ''k'' \<lparr>Content = ''ab'', Ending = EndOfFile\<rparr> 2 (hex_sha256 ''id'') 0
     = (None, 2)"
proof -
  have "validKey ''k''" by code_simp
  moreover have "TrimSpace ''application/octet-stream'' \<noteq> []" by code_simp
  ultimately show ?thesis
    by (simp add: PutStream_def demo_vars_def read_reader_def s3_Put_def demo_call demo_response_def
        success_status_def s3_Inspect_def s3_Get_def read_all_def hex_sha256_def length_hex_sha256)
qed

section \<open>What an upload guarantees\<close>

text \<open>C22: When a multipart upload succeeds, the store was asked to assemble exactly the stream: the parts
  named in the final request are numbered from one without a gap, each was accepted with the
  entity tag named for it, and their contents, joined in order, are everything the reader gave;
  no part is empty and all but the last have the part size.\<close>

theorem putMultipart_assembles:
  assumes "putMultipart env c vars key body totalBytes w = (None, w')"
  shows "\<exists>uploadID w1 w2 chunks parts.
    createMultipartUpload env c key w = (Inr uploadID, w1)
    \<and> completeMultipartUpload env c key uploadID parts w2 = (None, w')
    \<and> concat chunks = Content body \<and> chunks \<noteq> [] \<and> chunked (multipartPartSize vars) chunks
    \<and> map PartNumber parts = [1..<1 + length chunks]
    \<and> list_all2 (part_accepted env c key uploadID) parts chunks"
proof -
  from assms obtain uploadID w1 parts w2 where create: "createMultipartUpload env c key w = (Inr uploadID, w1)"
    and up: "uploadParts env c vars key uploadID body totalBytes w1 = (Inr parts, w2)"
    and compl: "completeMultipartUpload env c key uploadID parts w2 = (None, w')"
    by (auto simp: putMultipart_def split: prod.splits sum.splits option.splits if_splits)
  note u = uploadParts_Inr [OF up]
  from upload_from_Inr [OF conjunct2 [OF conjunct2 [OF u]] conjunct1 [OF conjunct2 [OF u]]]
  obtain chunks where ch: "concat chunks = Content body" "chunked (multipartPartSize vars) chunks"
    "map PartNumber parts = [1..<1 + length chunks]"
    "list_all2 (part_accepted env c key uploadID) parts chunks" by auto
  moreover have "chunks \<noteq> []" using ch(4) u by auto
  ultimately show ?thesis using create compl by blast
qed

theorem putMultipart_assembles_witness:
  "\<exists>chunks. concat chunks = ''abc'' \<and> chunked 2 chunks"
  using putMultipart_assembles [OF demo_multipart] by (auto simp: demo_vars_def)

text \<open>C28: A multipart upload that fails after it was created ends with an abort: the last request sent is a
  \<open>DELETE\<close> of exactly that upload, for every error short of a panic.\<close>

theorem putMultipart_aborts:
  assumes "plain_config c scheme host" and "createMultipartUpload env c key w = (Inr uploadID, w1)"
    and "putMultipart env c vars key body totalBytes w = (Some e, w')" and "\<not> panicked e"
  shows "\<exists>w2 request answer. Http env w2 request = (answer, w') \<and> Method request = ''DELETE''
    \<and> RequestURL request = wire_url c scheme host key [(''uploadId'', [uploadID])]"
proof -
  from assms(2-4) obtain w2 a where "abortMultipartUpload env c key uploadID w2 = (a, w')"
    by (auto simp: putMultipart_def split: prod.splits sum.splits option.splits if_splits)
  then obtain res where "s3_call env c ''DELETE'' key [(''uploadId'', [uploadID])] emptySHA256 None w2 = (res, w')"
    by (auto simp: abortMultipartUpload_def split: prod.splits sum.splits if_splits)
  then show ?thesis by (rule s3_do_sent [OF assms(1), rotated 2]) auto
qed

theorem putMultipart_aborts_witness:
  "\<exists>w2 request answer. Http (demo_env ''PUT'') w2 request = (answer, 3) \<and> Method request = ''DELETE''"
proof -
  obtain e where "putMultipart (demo_env ''PUT'') demo_s3 demo_vars ''k'' \<lparr>Content = ''abc'', Ending = EndOfFile\<rparr> 3 0
      = (Some (S3Wrap ''s3: upload multipart part %d: %w'' e), 3)"
    using demo_parts_refused [of "''k''" 1]
    by (auto simp: putMultipart_def demo_create abortMultipartUpload_def demo_call demo_response_def
        success_status_def)
  from putMultipart_aborts [OF demo_plain demo_create this] show ?thesis by auto
qed



text \<open>A stream that breaks off with \<open>io.ErrUnexpectedEOF\<close>, as the body of a truncated response does, is
  uploaded and completed as if it had ended there.\<close>

theorem putMultipart_broken_stream:
  "putMultipart env c vars key \<lparr>Content = content, Ending = UnexpectedEOF\<rparr> totalBytes w
   = putMultipart env c vars key \<lparr>Content = content, Ending = EndOfFile\<rparr> totalBytes w"
proof -
  have "upload_from env c sz key uploadID n content UnexpectedEOF parts w =
      upload_from env c sz key uploadID n content EndOfFile parts w" for sz uploadID n content parts w
  proof (induction "length content" arbitrary: content n parts w rule: less_induct)
    case less
    then show ?case
      unfolding upload_from.simps [of env c sz key uploadID n content _ parts w]
      by (cases "take sz content = []") (auto simp: Let_def split: prod.split sum.split)
  qed
  then have same: "uploadParts env c vars key uploadID \<lparr>Content = content, Ending = UnexpectedEOF\<rparr> totalBytes w
      = uploadParts env c vars key uploadID \<lparr>Content = content, Ending = EndOfFile\<rparr> totalBytes w" for uploadID w
    by (simp add: uploadParts_def Let_def)
  show ?thesis unfolding putMultipart_def same ..
qed

section \<open>Retrying\<close>

text \<open>An environment that records the requests.\<close>

definition recorded :: "('w, 'e) s3_env \<Rightarrow> ('w \<times> http_request list, 'e) s3_env" where
  "recorded env =
     \<lparr>Http = (\<lambda>(w, log) r. case Http env w r of (a, w') \<Rightarrow> (a, (w', log @ [r]))),
      Now = (\<lambda>(w, log). Now env w),
      Sleep = (\<lambda>d (w, log). case Sleep env d w of (b, w') \<Rightarrow> (b, (w', log))),
      ParseListing = ParseListing env, ParseInitiate = ParseInitiate env\<rparr>"

definition part_request :: "string \<Rightarrow> http_request \<Rightarrow> bool" where
  "part_request content r \<longleftrightarrow> Method r = ''PUT'' \<and> RequestBody r = Some content"

lemma recorded_uploadPart:
  assumes "uploadPart (recorded env) c key uploadID n content (w, log) = (res, (w', log'))"
  shows "\<exists>new. log' = log @ new \<and> length new \<le> 1 \<and> list_all (part_request content) new"
proof -
  let ?q = "[(''partNumber'', [show_nat n]), (''uploadId'', [uploadID])]"
  obtain d wd where d: "s3_call (recorded env) c ''PUT'' key ?q (hex_sha256 content) (Some content) (w, log) = (d, wd)"
    by (rule prod.exhaust)
  have "wd = (w', log')" using assms d by (auto simp: uploadPart_def split: sum.splits if_splits)
  with d show ?thesis
    by (auto simp: s3_do_def recorded_def part_request_def split: option.splits prod.splits sum.splits
        dest!: s3_signedRequest_fields)
qed

lemma recorded_retry_part:
  "retry_part (recorded env) c key uploadID n content attempt delays lastErr (w, log) = (res, (w', log')) \<Longrightarrow>
     \<exists>new. log' = log @ new \<and> length new \<le> length delays \<and> list_all (part_request content) new"
proof (induction delays arbitrary: attempt lastErr w log)
  case (Cons delay delays)
  obtain stop w1 log1 where s: "(if 0 < attempt then Sleep (recorded env) delay (w, log) else (False, (w, log)))
      = (stop, (w1, log1))" by (metis surj_pair)
  then have log1: "log1 = log" by (auto simp: recorded_def split: prod.splits if_splits)
  show ?case
  proof (cases stop)
    case True
    with Cons.prems s log1 show ?thesis by auto
  next
    case False
    obtain r w2 log2 where u: "uploadPart (recorded env) c key uploadID n content (w1, log1) = (r, (w2, log2))"
      by (metis surj_pair)
    from recorded_uploadPart [OF u] obtain new where new: "log2 = log @ new" "length new \<le> 1"
      "list_all (part_request content) new" by (auto simp: log1)
    consider "log' = log2" | lastErr' where "retry_part (recorded env) c key uploadID n content (Suc attempt)
        delays lastErr' (w2, log2) = (res, (w', log'))"
      using Cons.prems s u False by (auto split: sum.splits if_splits)
    then show ?thesis
    proof cases
      case 1
      with new show ?thesis by auto
    next
      case 2
      from Cons.IH [OF 2] new show ?thesis by fastforce
    qed
  qed
qed (auto split: option.splits)

text \<open>A part is tried at most four times, whatever the server answers, and every try sends the same
  content.\<close>

theorem uploadPartWithRetry_bounded:
  assumes "uploadPartWithRetry (recorded env) c key uploadID n content (w, []) = (res, (w', log))"
  shows "length log \<le> 4 \<and> list_all (part_request content) log"
  using recorded_retry_part [OF assms [unfolded uploadPartWithRetry_def]]
  by (simp add: multipartPartRetries_def)

theorem uploadPartWithRetry_bounded_witness:
  "length (snd (snd (uploadPartWithRetry (recorded (demo_env [])) demo_s3 ''k'' ''id'' 2 ''a'' (0, [])))) \<le> 4"
proof -
  obtain res w' log where
    run: "uploadPartWithRetry (recorded (demo_env [])) demo_s3 ''k'' ''id'' 2 ''a'' (0, []) = (res, (w', log))"
    by (metis surj_pair)
  from uploadPartWithRetry_bounded [OF run] show ?thesis by (simp add: run)
qed

end
