(* ===== verification/Email.thy ===== *)
theory Email
  imports Go_Json Go_Http Go_Net
begin

text \<open>
  Package \<open>email\<close>: one message through Cloudflare's Email Sending API (\<open>client.go\<close>), what an error
  proves about its delivery (\<open>delivery.go\<close>) and the token file (\<open>secretfile.go\<close>).

  The server is a parameter, and so are the clock, the random bytes, \<open>http.ParseTime\<close> and the file
  system. A transport error is the tree of wrapped errors that \<open>errors.As\<close> searches. An error's text
  is the source's format string; the parts the code computes are kept as arguments.
\<close>

section \<open>Evidence\<close>

text \<open>A transport error: its kind, and the error it wraps.\<close>

datatype net_error =
    DNSError
  | OpError string "net_error option"
  | WrapsError net_error
  | OtherError

fun error_chain :: "net_error \<Rightarrow> net_error list" where
  "error_chain DNSError = [DNSError]"
| "error_chain (OpError op inner) = OpError op inner # (case inner of None \<Rightarrow> [] | Some e \<Rightarrow> error_chain e)"
| "error_chain (WrapsError e) = WrapsError e # error_chain e"
| "error_chain OtherError = [OtherError]"

fun is_op :: "net_error \<Rightarrow> bool" where
  "is_op (OpError _ _) = True"
| "is_op _ = False"

definition isUnsubmittedTransportError :: "net_error \<Rightarrow> bool" where
  "isUnsubmittedTransportError err \<longleftrightarrow>
     DNSError \<in> set (error_chain err)
     \<or> (case find is_op (error_chain err) of Some (OpError op _) \<Rightarrow> op = ''dial'' | _ \<Rightarrow> False)"

datatype mail_error =
    MailText string
  | MailWrap string mail_error
  | MailTransport net_error
  | MailBody net_error
  | MailRandom
  | RateLimitError int go_duration
  | MailGateway int string
  | MailRejected string string
  | MailNoVerdict int string
  | RecipientError (Bounced: "string list") (Suppressed: "string list") (Unaccepted: "string list")
  | UnsubmittedError mail_error

text \<open>\<open>Unsubmitted\<close> of a non-nil error, and the two classifications, through every wrapper.\<close>

definition Unsubmitted :: "mail_error \<Rightarrow> mail_error" where
  "Unsubmitted err = UnsubmittedError err"

fun IsUnsubmitted :: "mail_error \<Rightarrow> bool" where
  "IsUnsubmitted (UnsubmittedError e) = True"
| "IsUnsubmitted (MailWrap f e) = IsUnsubmitted e"
| "IsUnsubmitted _ = False"

fun IsRateLimited :: "mail_error \<Rightarrow> bool" where
  "IsRateLimited (RateLimitError status after) = True"
| "IsRateLimited (UnsubmittedError e) = IsRateLimited e"
| "IsRateLimited (MailWrap f e) = IsRateLimited e"
| "IsRateLimited _ = False"

text \<open>\<open>parseTime\<close> is \<open>http.ParseTime\<close>; \<open>now\<close> the clock \<open>time.Until\<close> reads.\<close>

definition retryAfter :: "(string \<Rightarrow> go_time option) \<Rightarrow> go_time \<Rightarrow> string \<Rightarrow> go_duration" where
  "retryAfter parseTime now header =
     (let maximum = 24 * hour in
      if header = [] then 0
      else case ParseUint64 header of
        Some seconds \<Rightarrow> if maximum div second < int seconds then maximum else int seconds * second
      | None \<Rightarrow>
          (case parseTime header of
             None \<Rightarrow> 0
           | Some t \<Rightarrow>
               (let delay = time_Sub t now in
                if delay < 0 then 0 else if maximum < delay then maximum else delay)))"

section \<open>The answer of the API\<close>

record cf_message =
  Code :: string
  CFMessage :: string

record cf_result =
  Delivered :: "string list"
  Queued :: "string list"
  PermanentBounces :: "string list"
  SuppressedRecipients :: "string list"
  CFMessageID :: string

record cf_response =
  Success :: "bool option"
  Errors :: "cf_message list"
  Messages :: "cf_message list"
  CFResult :: "cf_result option"

definition empty_message :: cf_message where
  "empty_message = \<lparr>Code = [], CFMessage = []\<rparr>"

definition empty_cf_result :: cf_result where
  "empty_cf_result = \<lparr>Delivered = [], Queued = [], PermanentBounces = [], SuppressedRecipients = [],
     CFMessageID = []\<rparr>"

definition empty_response :: cf_response where
  "empty_response = \<lparr>Success = None, Errors = [], Messages = [], CFResult = None\<rparr>"

text \<open>A \<open>json.Number\<close> takes a number, or a string that spells one.\<close>

definition set_number :: "(string \<Rightarrow> 'a \<Rightarrow> 'a) \<Rightarrow> 'a setter" where
  "set_number upd j x =
     (case j of
        JNull \<Rightarrow> (x, True)
      | JNum l \<Rightarrow> (upd l x, True)
      | JStr s \<Rightarrow> if num_literal s then (upd s x, True) else (x, False)
      | _ \<Rightarrow> (x, False))"

definition set_message :: "cf_message setter" where
  "set_message = set_struct False
     [(''code'', set_number (\<lambda>v. Code_update (\<lambda>_. v))),
      (''message'', set_string (\<lambda>v. CFMessage_update (\<lambda>_. v)))]"

definition set_cf_result :: "cf_result setter" where
  "set_cf_result = set_struct False
     [(''delivered'', set_strings (\<lambda>v. Delivered_update (\<lambda>_. v))),
      (''queued'', set_strings (\<lambda>v. Queued_update (\<lambda>_. v))),
      (''permanent_bounces'', set_strings (\<lambda>v. PermanentBounces_update (\<lambda>_. v))),
      (''suppressed_recipients'', set_strings (\<lambda>v. SuppressedRecipients_update (\<lambda>_. v))),
      (''message_id'', set_string (\<lambda>v. CFMessageID_update (\<lambda>_. v)))]"

definition set_response :: "cf_response setter" where
  "set_response = set_struct False
     [(''success'', set_pointer (set_bool (\<lambda>v _. v)) False Success (\<lambda>v. Success_update (\<lambda>_. v))),
      (''errors'', set_slice set_message empty_message (\<lambda>v. Errors_update (\<lambda>_. v))),
      (''messages'', set_slice set_message empty_message (\<lambda>v. Messages_update (\<lambda>_. v))),
      (''result'', set_pointer set_cf_result empty_cf_result CFResult (\<lambda>v. CFResult_update (\<lambda>_. v)))]"

definition firstCloudflareMessage :: "cf_response \<Rightarrow> string \<times> string" where
  "firstCloudflareMessage r =
     (case Errors r of
        entry # _ \<Rightarrow> (CFMessage entry, Code entry)
      | [] \<Rightarrow> (case Messages r of entry # _ \<Rightarrow> (CFMessage entry, Code entry) | [] \<Rightarrow> ([], [])))"

definition verifyAllRecipientsAccepted :: "string list \<Rightarrow> cf_result option \<Rightarrow> mail_error option" where
  "verifyAllRecipientsAccepted requested result =
     (let accepted = (case result of None \<Rightarrow> [] | Some r \<Rightarrow> Delivered r @ Queued r);
          bounced = (case result of None \<Rightarrow> [] | Some r \<Rightarrow> PermanentBounces r);
          suppressed = (case result of None \<Rightarrow> [] | Some r \<Rightarrow> SuppressedRecipients r);
          bouncedOut = filter (\<lambda>r. r \<in> set bounced) requested;
          suppressedOut = filter (\<lambda>r. r \<notin> set bounced \<and> r \<in> set suppressed) requested;
          unacceptedOut = filter (\<lambda>r. r \<notin> set bounced \<and> r \<notin> set suppressed \<and> r \<notin> set accepted) requested
      in if bouncedOut = [] \<and> suppressedOut = [] \<and> unacceptedOut = [] then None
         else Some (RecipientError bouncedOut suppressedOut unacceptedOut))"

definition ellipsis :: string where
  "ellipsis = [CHR 0xE2, CHR 0x80, CHR 0xA6]"

definition truncateForError :: "string \<Rightarrow> string" where
  "truncateForError body =
     (let t = TrimSpace body in if 500 < length t then take 500 t @ ellipsis else t)"

section \<open>The message\<close>

text \<open>\<open>time.RFC1123Z\<close> of an instant in UTC.\<close>

definition format_rfc1123z :: "go_time \<Rightarrow> string" where
  "format_rfc1123z t =
     (let days = second_of t div 86400; s = second_of t mod 86400 in
      case civil days of (y, m, d) \<Rightarrow>
        take 3 (drop (3 * nat ((days + 4) mod 7)) ''SunMonTueWedThuFriSat'')
        @ '', '' @ pad_int 2 d @ '' ''
        @ take 3 (drop (3 * nat (m - 1)) ''JanFebMarAprMayJunJulAugSepOctNovDec'')
        @ '' '' @ pad_int 4 y @ '' '' @ pad_int 2 (s div 3600) @ '':'' @ pad_int 2 (s div 60 mod 60)
        @ '':'' @ pad_int 2 (s mod 60) @ '' +0000'')"

abbreviation CRLF :: string where "CRLF \<equiv> [CHR 0x0D, CHR 0x0A]"

definition buildRawMessage ::
  "go_time \<Rightarrow> string \<Rightarrow> string list \<Rightarrow> string \<Rightarrow> string \<Rightarrow> string \<Rightarrow> string" where
  "buildRawMessage now from to' subject body messageID =
     ''From: '' @ from @ CRLF
     @ ''To: '' @ Join to' '', '' @ CRLF
     @ ''Subject: '' @ subject @ CRLF
     @ ''Message-ID: <'' @ messageID @ ''>'' @ CRLF
     @ ''Date: '' @ format_rfc1123z now @ CRLF
     @ ''MIME-Version: 1.0'' @ CRLF
     @ ''Content-Type: text/plain; charset=utf-8'' @ CRLF
     @ ''Content-Transfer-Encoding: 8bit'' @ CRLF
     @ CRLF
     @ body"

text \<open>\<open>random\<close> is what \<open>rand.Read\<close> gives, if it does.\<close>

definition generateMessageID :: "string option \<Rightarrow> string \<Rightarrow> string option" where
  "generateMessageID random from = map_option (\<lambda>raw. hex_encode raw @ ''@'' @ after_last CHR ''@'' from) random"

section \<open>The client\<close>

record mail_config =
  AccountID :: string
  APIToken :: string
  From :: string

record mail_client =
  accountID :: string
  apiToken :: string
  mail_from :: string
  apiBase :: string

definition mail_New :: "mail_config \<Rightarrow> mail_error + mail_client" where
  "mail_New cfg =
     (if AccountID cfg = [] then Inl (MailText ''email: Cloudflare account id is required'')
      else if APIToken cfg = [] then Inl (MailText ''email: Cloudflare API token is required'')
      else if From cfg = [] \<or> \<not> Contains (From cfg) ''@'' \<or> ContainsAny (From cfg) CRLF
      then Inl (MailText ''email: a valid from address is required'')
      else Inr \<lparr>accountID = AccountID cfg, apiToken = APIToken cfg, mail_from = From cfg,
        apiBase = ''https://api.cloudflare.com/client/v4''\<rparr>)"

text \<open>What the environment gives a send: the server, the clock and \<open>http.ParseTime\<close>.\<close>

record 'w mail_env =
  Post :: "('w, net_error) http_server"
  MailNow :: "'w \<Rightarrow> go_time"
  MailParseTime :: "string \<Rightarrow> go_time option"

definition mail_payload :: "string \<Rightarrow> string list \<Rightarrow> string \<Rightarrow> string" where
  "mail_payload from to' raw =
     print_json (json_map [(''from'', JStr from), (''recipients'', JArr (map JStr to')), (''mime_message'', JStr raw)])"

text \<open>The judgement of a response: the error, if it is not a confirmed acceptance.\<close>

definition judge_answer :: "string list \<Rightarrow> int \<Rightarrow> string \<Rightarrow> cf_response \<Rightarrow> mail_error option" where
  "judge_answer to' status rawBody parsed =
     (if Success parsed = Some False then
        (case firstCloudflareMessage parsed of (message, code) \<Rightarrow>
          (let text' = (if message = [] then
               ''http '' @ show_int status @ (if rawBody \<noteq> [] then '': '' @ truncateForError rawBody else [])
             else message)
           in Some (Unsubmitted (MailRejected code text'))))
      else if status = 200 \<and> Success parsed = Some True
      then verifyAllRecipientsAccepted to' (CFResult parsed)
      else Some (MailNoVerdict status (truncateForError rawBody)))"

definition judge_response ::
  "(string \<Rightarrow> go_time option) \<Rightarrow> go_time \<Rightarrow> string list \<Rightarrow> net_error http_response \<Rightarrow> mail_error option" where
  "judge_response parseTime now to' resp =
     (if StatusCode resp = 429
      then Some (Unsubmitted (RateLimitError 429
        (retryAfter parseTime now (header_Get (ResponseHeader resp) ''Retry-After''))))
      else if 500 \<le> StatusCode resp
      then Some (MailGateway (StatusCode resp) (truncateForError (take 1048576 (Body resp))))
      else (case read_limited 1048576 resp of
          Inl e \<Rightarrow> Some (MailWrap ''email: read response: %w'' (MailBody e))
        | Inr rawBody \<Rightarrow>
            (case Unmarshal_into set_response rawBody empty_response of
               (_, False) \<Rightarrow> Some (MailText ''email: decode response: %w'')
             | (parsed, True) \<Rightarrow> judge_answer to' (StatusCode resp) rawBody parsed)))"

definition SendWithMessageID ::
  "'w mail_env \<Rightarrow> mail_client \<Rightarrow> string list \<Rightarrow> string \<Rightarrow> string \<Rightarrow> string \<Rightarrow> 'w \<Rightarrow> (mail_error + string) \<times> 'w" where
  "SendWithMessageID env c to' subject body messageID w =
     (if messageID = [] \<or> ContainsAny messageID (CRLF @ ''<>'')
      then (Inl (MailText ''email: invalid Message-ID''), w)
      else if to' = [] \<or> subject = [] \<or> body = []
      then (Inl (MailText ''email: to, subject, and body are all required''), w)
      else if ContainsAny subject CRLF
      then (Inl (MailText ''email: subject contains invalid characters''), w)
      else if \<not> list_all (\<lambda>addr. addr \<noteq> [] \<and> \<not> ContainsAny addr CRLF) to'
      then (Inl (MailText ''email: recipient address is invalid''), w)
      else
        (let payload = mail_payload (mail_from c) to'
               (buildRawMessage (MailNow env w) (mail_from c) to' subject body messageID) in
         case NewRequest ''POST'' (apiBase c @ ''/accounts/'' @ accountID c @ ''/email/sending/send_raw'')
             (Some payload) of
           None \<Rightarrow> (Inl (MailText ''email: build request: %w''), w)
         | Some req \<Rightarrow>
             (case Post env w (set_header ''Content-Type'' ''application/json''
                 (set_header ''Authorization'' (''Bearer '' @ apiToken c) req)) of
                (Inl err, w') \<Rightarrow>
                  (Inl (if isUnsubmittedTransportError err
                    then Unsubmitted (MailWrap ''email: request failed: %w'' (MailTransport err))
                    else MailWrap ''email: request failed: %w'' (MailTransport err)), w')
              | (Inr resp, w') \<Rightarrow>
                  (case judge_response (MailParseTime env) (MailNow env w') to' resp of
                     Some err \<Rightarrow> (Inl err, w')
                   | None \<Rightarrow> (Inr messageID, w')))))"

definition Send ::
  "'w mail_env \<Rightarrow> string option \<Rightarrow> mail_client \<Rightarrow> string list \<Rightarrow> string \<Rightarrow> string \<Rightarrow> 'w
   \<Rightarrow> (mail_error + string) \<times> 'w" where
  "Send env random c to' subject body w =
     (case generateMessageID random (mail_from c) of
        None \<Rightarrow> (Inl (Unsubmitted MailRandom), w)
      | Some id' \<Rightarrow> SendWithMessageID env c to' subject body id' w)"

section \<open>The token file\<close>

text \<open>What \<open>os.Lstat\<close> and \<open>os.ReadFile\<close> say of a path, each at its own time: whether it is a regular
  file and its permission bits, and its bytes.\<close>

definition LoadTokenFile ::
  "(string \<Rightarrow> (bool \<times> nat) option) \<Rightarrow> (string \<Rightarrow> string option) \<Rightarrow> string \<Rightarrow> string + string" where
  "LoadTokenFile lstat readFile path =
     (if path = [] then Inl ''email: secret file path is required''
      else case lstat path of
        None \<Rightarrow> Inl ''email: inspect secret file: %w''
      | Some (regular, perm) \<Rightarrow>
          if \<not> regular then Inl ''email: secret file %s is not a regular file''
          else if perm \<noteq> 384 then Inl ''email: secret file %s mode is %04o, want 0600''
          else (case readFile path of
              None \<Rightarrow> Inl ''email: read secret file: %w''
            | Some raw \<Rightarrow>
                (let value = TrimRight raw CRLF in
                 if value = [] \<or> ContainsAny value CRLF
                 then Inl ''email: secret file %s must contain exactly one non-empty line''
                 else Inr value)))"

section \<open>Acceptance\<close>

text \<open>The request of a message that passed the checks.\<close>

definition mail_checked :: "string \<Rightarrow> string list \<Rightarrow> string \<Rightarrow> string \<Rightarrow> bool" where
  "mail_checked messageID to' subject body \<longleftrightarrow>
     messageID \<noteq> [] \<and> \<not> ContainsAny messageID (CRLF @ ''<>'') \<and> to' \<noteq> [] \<and> subject \<noteq> [] \<and> body \<noteq> []
     \<and> \<not> ContainsAny subject CRLF \<and> list_all (\<lambda>addr. addr \<noteq> [] \<and> \<not> ContainsAny addr CRLF) to'"

lemma SendWithMessageID_cases:
  assumes "SendWithMessageID env c to' subject body messageID w = (res, w')"
  obtains (refused) t where "res = Inl (MailText t)" "w' = w"
  | (sent) req answer where "mail_checked messageID to' subject body" "Method req = ''POST''"
      "RequestBody req = Some (mail_payload (mail_from c) to'
         (buildRawMessage (MailNow env w) (mail_from c) to' subject body messageID))"
      "Post env w req = (answer, w')"
      "res = (case answer of
         Inl err \<Rightarrow> Inl (if isUnsubmittedTransportError err
           then Unsubmitted (MailWrap ''email: request failed: %w'' (MailTransport err))
           else MailWrap ''email: request failed: %w'' (MailTransport err))
       | Inr resp \<Rightarrow> (case judge_response (MailParseTime env) (MailNow env w') to' resp of
           Some err \<Rightarrow> Inl err | None \<Rightarrow> Inr messageID))"
proof (cases "mail_checked messageID to' subject body")
  case False
  then obtain t where "res = Inl (MailText t)" "w' = w"
    using assms by (auto simp: SendWithMessageID_def mail_checked_def split: if_splits)
  then show thesis by (rule refused)
next
  case True
  let ?payload = "mail_payload (mail_from c) to'
      (buildRawMessage (MailNow env w) (mail_from c) to' subject body messageID)"
  let ?new = "NewRequest ''POST'' (apiBase c @ ''/accounts/'' @ accountID c @ ''/email/sending/send_raw'') (Some ?payload)"
  have run: "SendWithMessageID env c to' subject body messageID w =
      (case ?new of
         None \<Rightarrow> (Inl (MailText ''email: build request: %w''), w)
       | Some req \<Rightarrow>
           (case Post env w (set_header ''Content-Type'' ''application/json''
               (set_header ''Authorization'' (''Bearer '' @ apiToken c) req)) of
              (Inl err, w') \<Rightarrow>
                (Inl (if isUnsubmittedTransportError err
                  then Unsubmitted (MailWrap ''email: request failed: %w'' (MailTransport err))
                  else MailWrap ''email: request failed: %w'' (MailTransport err)), w')
            | (Inr resp, w') \<Rightarrow>
                (case judge_response (MailParseTime env) (MailNow env w') to' resp of
                   Some err \<Rightarrow> (Inl err, w')
                 | None \<Rightarrow> (Inr messageID, w'))))"
    using True by (simp add: SendWithMessageID_def mail_checked_def)
  show thesis
  proof (cases ?new)
    case None
    with run assms refused show thesis by simp
  next
    case (Some req)
    let ?req = "set_header ''Content-Type'' ''application/json''
        (set_header ''Authorization'' (''Bearer '' @ apiToken c) req)"
    obtain answer w1 where a: "Post env w ?req = (answer, w1)" by (rule prod.exhaust)
    have "w1 = w'" using run assms Some a by (auto split: sum.splits option.splits)
    with run assms Some a NewRequest_simps [OF Some] True show thesis
      by (intro sent [of ?req answer]) (auto split: sum.splits option.splits)
  qed
qed

lemma verifyAllRecipientsAccepted_None:
  "verifyAllRecipientsAccepted to' result = None \<longleftrightarrow>
     list_all (\<lambda>a. case result of None \<Rightarrow> False
       | Some r \<Rightarrow> (a \<in> set (Delivered r) \<or> a \<in> set (Queued r))
           \<and> a \<notin> set (PermanentBounces r) \<and> a \<notin> set (SuppressedRecipients r)) to'"
  by (auto simp: verifyAllRecipientsAccepted_def Let_def filter_empty_conv list_all_iff split: option.splits)

lemma judge_answer_None:
  "judge_answer to' status raw parsed = None \<longleftrightarrow>
     status = 200 \<and> Success parsed = Some True \<and> verifyAllRecipientsAccepted to' (CFResult parsed) = None"
  by (auto simp: judge_answer_def Let_def split: prod.splits)

lemma judge_response_None:
  assumes "judge_response parseTime now to' resp = None"
  shows "\<exists>raw parsed. read_limited 1048576 resp = Inr raw
    \<and> Unmarshal_into set_response raw empty_response = (parsed, True)
    \<and> judge_answer to' (StatusCode resp) raw parsed = None"
  using assms
  by (auto simp: judge_response_def split: if_splits sum.splits prod.splits bool.splits)

text \<open>A client and an API that gives one answer, for the witnesses.\<close>

definition demo_config :: mail_config where
  "demo_config = \<lparr>AccountID = ''acc'', APIToken = ''tok'', From = ''x@y''\<rparr>"

definition demo_mailer :: mail_client where
  "demo_mailer = \<lparr>accountID = ''acc'', apiToken = ''tok'', mail_from = ''x@y'',
     apiBase = ''https://api.cloudflare.com/client/v4''\<rparr>"

definition demo_body :: string where
  "demo_body = ''{'' @ json_string ''success'' @ '':true,'' @ json_string ''result'' @ '':{''
     @ json_string ''queued'' @ '':['' @ json_string ''a@b'' @ '']}}''"

definition demo_api :: "int \<Rightarrow> nat mail_env" where
  "demo_api status = \<lparr>Post = (\<lambda>w req. (Inr \<lparr>StatusCode = status, ResponseHeader = [], Body = demo_body,
     BodyError = None\<rparr>, Suc w)), MailNow = (\<lambda>w. 0), MailParseTime = (\<lambda>s. None)\<rparr>"

lemma demo_mail_New: "mail_New demo_config = Inr demo_mailer"
  by code_simp

lemma demo_send:
  "SendWithMessageID (demo_api status) demo_mailer [''a@b''] ''s'' ''t'' ''i'' w =
     (case judge_response (\<lambda>s. None) 0 [''a@b''] \<lparr>StatusCode = status, ResponseHeader = [], Body = demo_body,
        BodyError = None\<rparr> of Some err \<Rightarrow> Inl err | None \<Rightarrow> Inr ''i'', Suc w)"
proof -
  have "request_url (''https://api.cloudflare.com/client/v4'' @ ''/accounts/'' @ ''acc'' @ ''/email/sending/send_raw'')
      \<noteq> None" by code_simp
  then obtain u where u: "request_url (''https://api.cloudflare.com/client/v4'' @ ''/accounts/'' @ ''acc''
      @ ''/email/sending/send_raw'') = Some u" by blast
  have "\<not> ContainsAny ''i'' (CRLF @ ''<>'')" "\<not> ContainsAny ''s'' CRLF" "\<not> ContainsAny ''a@b'' CRLF"
    by (simp_all add: ContainsAny_def)
  with u show ?thesis
    by (simp add: SendWithMessageID_def demo_mailer_def demo_api_def NewRequest_def split: option.split)
qed

lemma demo_accepted:
  "SendWithMessageID (demo_api 200) demo_mailer [''a@b''] ''s'' ''t'' ''i'' 0 = (Inr ''i'', 1)"
proof -
  let ?r = "empty_response\<lparr>Success := Some True, CFResult := Some (empty_cf_result\<lparr>Queued := [''a@b'']\<rparr>)\<rparr>"
  have "length demo_body = 44" by code_simp
  moreover have "Unmarshal_into set_response demo_body empty_response = (?r, True)" by code_simp
  moreover have "judge_answer [''a@b''] 200 demo_body ?r = None" by code_simp
  ultimately show ?thesis
    by (simp add: demo_send judge_response_def read_limited_def read_all_def)
qed

lemma demo_limited:
  "SendWithMessageID (demo_api 429) demo_mailer [''a@b''] ''s'' ''t'' ''i'' 0
     = (Inl (Unsubmitted (RateLimitError 429 0)), 1)"
  by (simp add: demo_send judge_response_def retryAfter_def header_Get_def)

text \<open>C19: A send is reported as accepted only on proof: the one request was answered with status 200 and a
  body that parses, with an explicit success and a result that lists every requested recipient
  as delivered or queued and none of them as bounced or suppressed.\<close>

theorem SendWithMessageID_accepted:
  assumes "SendWithMessageID env c to' subject body messageID w = (Inr id', w')"
  shows "id' = messageID \<and> (\<exists>req resp raw parsed result. Post env w req = (Inr resp, w')
    \<and> Method req = ''POST'' \<and> StatusCode resp = 200 \<and> read_limited 1048576 resp = Inr raw
    \<and> Unmarshal_into set_response raw empty_response = (parsed, True)
    \<and> Success parsed = Some True \<and> CFResult parsed = Some result
    \<and> list_all (\<lambda>a. (a \<in> set (Delivered result) \<or> a \<in> set (Queued result))
        \<and> a \<notin> set (PermanentBounces result) \<and> a \<notin> set (SuppressedRecipients result)) to')"
  using assms
proof (cases rule: SendWithMessageID_cases)
  case (sent req answer)
  from sent(5) obtain resp where answer: "answer = Inr resp" "id' = messageID"
    and j: "judge_response (MailParseTime env) (MailNow env w') to' resp = None"
    by (auto split: sum.splits option.splits)
  from judge_response_None [OF j] obtain raw parsed where p: "read_limited 1048576 resp = Inr raw"
    "Unmarshal_into set_response raw empty_response = (parsed, True)"
    "StatusCode resp = 200" "Success parsed = Some True"
    and v: "verifyAllRecipientsAccepted to' (CFResult parsed) = None" by (auto simp: judge_answer_None)
  have "to' \<noteq> []" using sent(1) by (simp add: mail_checked_def)
  with v obtain result where "CFResult parsed = Some result"
    by (cases "CFResult parsed"; cases to') (auto simp: verifyAllRecipientsAccepted_None)
  with v p sent answer show ?thesis
    by (intro conjI exI [of _ req] exI [of _ resp] exI [of _ raw] exI [of _ parsed] exI [of _ result])
      (simp_all add: verifyAllRecipientsAccepted_None)
qed simp

theorem SendWithMessageID_accepted_witness:
  "\<exists>req resp raw parsed result. Post (demo_api 200) 0 req = (Inr resp, 1)
    \<and> Unmarshal_into set_response raw empty_response = (parsed, True) \<and> CFResult parsed = Some result
    \<and> (''a@b'' \<in> set (Delivered result) \<or> ''a@b'' \<in> set (Queued result))"
  using SendWithMessageID_accepted [OF demo_accepted] unfolding list.pred_inject by blast

text \<open>C25: A failure marked as unsubmitted rests on one of three pieces of evidence: the transport failed
  to dial or to resolve before the request went out, the answer was a 429, or its parsed body
  below status 500 says success false. A lost or unreadable answer, a gateway error and a
  missing verdict are never marked.\<close>

theorem SendWithMessageID_unsubmitted:
  assumes "SendWithMessageID env c to' subject body messageID w = (Inl err, w')" and "IsUnsubmitted err"
  shows "\<exists>req. (\<exists>e. Post env w req = (Inl e, w') \<and> isUnsubmittedTransportError e)
    \<or> (\<exists>resp. Post env w req = (Inr resp, w')
        \<and> (StatusCode resp = 429
           \<or> StatusCode resp < 500 \<and> (\<exists>raw parsed. read_limited 1048576 resp = Inr raw
               \<and> Unmarshal_into set_response raw empty_response = (parsed, True) \<and> Success parsed = Some False)))"
  using assms(1)
proof (cases rule: SendWithMessageID_cases)
  case refused
  with assms(2) show ?thesis by simp
next
  case (sent req answer)
  show ?thesis
  proof (cases answer)
    case (Inl e)
    with sent assms(2) have "isUnsubmittedTransportError e" by (auto split: if_splits)
    with sent Inl show ?thesis by blast
  next
    case (Inr resp)
    with sent(5) have j: "judge_response (MailParseTime env) (MailNow env w') to' resp = Some err"
      by (auto split: option.splits)
    have "\<not> IsUnsubmitted err'" if "verifyAllRecipientsAccepted to' r = Some err'" for r err'
      using that by (auto simp: verifyAllRecipientsAccepted_def Let_def split: if_splits)
    with j assms(2) have "StatusCode resp = 429 \<or> StatusCode resp < 500 \<and> (\<exists>raw parsed.
        read_limited 1048576 resp = Inr raw \<and> Unmarshal_into set_response raw empty_response = (parsed, True)
        \<and> Success parsed = Some False)"
      by (auto simp: judge_response_def judge_answer_def Unsubmitted_def Let_def
          split: if_splits sum.splits prod.splits bool.splits)
    with sent(4) Inr show ?thesis by blast
  qed
qed

theorem SendWithMessageID_unsubmitted_witness:
  "\<exists>req resp. Post (demo_api 429) 0 req = (Inr resp, 1) \<and> StatusCode resp = 429"
  using SendWithMessageID_unsubmitted [OF demo_limited] by (auto simp: Unsubmitted_def demo_api_def)

section \<open>The header block\<close>

definition mail_header_names :: "string list" where
  "mail_header_names = [''From'', ''To'', ''Subject'', ''Message-ID'', ''Date'', ''MIME-Version'', ''Content-Type'',
     ''Content-Transfer-Encoding'']"

lemma ContainsAny_append [simp]: "ContainsAny (a @ b) cs \<longleftrightarrow> ContainsAny a cs \<or> ContainsAny b cs"
  by (auto simp: ContainsAny_def)

lemma ContainsAny_Nil [simp]: "\<not> ContainsAny [] cs"
  by (simp add: ContainsAny_def)

lemma ContainsAny_subset: "set a \<subseteq> set b \<Longrightarrow> \<not> ContainsAny b cs \<Longrightarrow> \<not> ContainsAny a cs"
  by (auto simp: ContainsAny_def)

lemma ContainsAny_Join: "\<not> ContainsAny sep cs \<Longrightarrow> list_all (\<lambda>a. \<not> ContainsAny a cs) xs \<Longrightarrow> \<not> ContainsAny (Join xs sep) cs"
  by (induction xs sep rule: Join.induct) simp_all

lemma digits_plain: "\<not> ContainsAny (show_nat n) CRLF"
  by (auto simp: ContainsAny_def is_digit_iff dest: show_nat_set)

lemma pad_int_plain [simp]: "\<not> ContainsAny (pad_int n i) CRLF"
proof -
  have "\<not> ContainsAny (replicate k CHR ''0'') CRLF" for k by (auto simp: ContainsAny_def)
  then show ?thesis using digits_plain by (simp add: pad_int_def Let_def) (auto simp: ContainsAny_def)
qed

lemma date_plain: "\<not> ContainsAny (format_rfc1123z t) CRLF"
proof -
  have "\<not> ContainsAny (take 3 (drop k ''SunMonTueWedThuFriSat'')) CRLF"
    "\<not> ContainsAny (take 3 (drop k ''JanFebMarAprMayJunJulAugSepOctNovDec'')) CRLF" for k
    by (rule ContainsAny_subset, rule subset_trans [OF set_take_subset set_drop_subset],
        simp add: ContainsAny_def)+
  moreover have "\<not> ContainsAny '', '' CRLF" "\<not> ContainsAny '' '' CRLF" "\<not> ContainsAny '':'' CRLF"
    "\<not> ContainsAny '' +0000'' CRLF" by (simp_all add: ContainsAny_def)
  ultimately show ?thesis
    unfolding format_rfc1123z_def Let_def case_prod_unfold by (simp only: ContainsAny_append pad_int_plain) simp
qed

text \<open>C32: What is sent is one message and nothing else can be put in its header: either the call is
  refused and sends nothing, or the message is the eight headers, in their order and free of
  carriage returns and line feeds, an empty line and the body.\<close>

theorem SendWithMessageID_headers:
  assumes "mail_New cfg = Inr c" and "SendWithMessageID env c to' subject body messageID w = (res, w')"
  shows "(w' = w \<and> (\<exists>t. res = Inl (MailText t)))
    \<or> (\<exists>req answer headers. Post env w req = (answer, w')
        \<and> RequestBody req = Some (mail_payload (From cfg) to' (Join headers CRLF @ CRLF @ CRLF @ body))
        \<and> map (takeWhile (\<lambda>ch. ch \<noteq> CHR '':'')) headers = mail_header_names
        \<and> list_all (\<lambda>h. \<not> ContainsAny h CRLF) headers)"
  using assms(2)
proof (cases rule: SendWithMessageID_cases)
  case (sent req answer)
  let ?headers = "[''From: '' @ mail_from c, ''To: '' @ Join to' '', '', ''Subject: '' @ subject,
    ''Message-ID: <'' @ messageID @ ''>'', ''Date: '' @ format_rfc1123z (MailNow env w), ''MIME-Version: 1.0'',
    ''Content-Type: text/plain; charset=utf-8'', ''Content-Transfer-Encoding: 8bit'']"
  have frm: "mail_from c = From cfg" "\<not> ContainsAny (From cfg) CRLF"
    using assms(1) by (auto simp: mail_New_def split: if_splits)
  have "list_all (\<lambda>a. \<not> ContainsAny a CRLF) to'" using sent(1) by (simp add: mail_checked_def list_all_iff)
  then have "\<not> ContainsAny (Join to' '', '') CRLF" by (intro ContainsAny_Join) (simp add: ContainsAny_def)
  moreover have "\<not> ContainsAny messageID CRLF" using sent(1) by (auto simp: mail_checked_def ContainsAny_def)
  moreover have "\<not> ContainsAny subject CRLF" using sent(1) by (simp add: mail_checked_def)
  ultimately have plain: "list_all (\<lambda>h. \<not> ContainsAny h CRLF) ?headers"
    using frm date_plain [of "MailNow env w"] by (simp add: ContainsAny_def)
  have "buildRawMessage (MailNow env w) (mail_from c) to' subject body messageID
      = Join ?headers CRLF @ CRLF @ CRLF @ body"
    by (simp add: buildRawMessage_def)
  with sent(3) frm have "RequestBody req = Some (mail_payload (From cfg) to' (Join ?headers CRLF @ CRLF @ CRLF @ body))"
    by simp
  moreover have "map (takeWhile (\<lambda>ch. ch \<noteq> CHR '':'')) ?headers = mail_header_names"
    by (simp add: mail_header_names_def)
  ultimately show ?thesis using plain sent(4) by blast
qed simp

theorem SendWithMessageID_headers_witness:
  "\<exists>req answer headers. Post (demo_api 200) 0 req = (answer, 1)
    \<and> RequestBody req = Some (mail_payload ''x@y'' [''a@b''] (Join headers CRLF @ CRLF @ CRLF @ ''t''))
    \<and> length headers = 8"
proof -
  have "length headers = 8" if "map (takeWhile (\<lambda>ch. ch \<noteq> CHR '':'')) headers = mail_header_names" for headers
    using arg_cong [OF that, of length] by (simp add: mail_header_names_def)
  with SendWithMessageID_headers [OF demo_mail_New demo_accepted] show ?thesis
    by (auto simp: demo_config_def)
qed


section \<open>Smaller facts\<close>

text \<open>A hint to wait is never negative and never longer than a day.\<close>

lemma retryAfter_bounds: "0 \<le> retryAfter parseTime now header \<and> retryAfter parseTime now header \<le> 24 * hour"
  by (auto simp: retryAfter_def Let_def hour_def minute_def second_def split: option.split)

text \<open>A sender with a display name passes the check of \<open>New\<close>, but no \<open>Send\<close> of the client gets past the
  check of its own message id, which ends in the bracket of the address: every call is refused
  before anything is sent.\<close>

theorem display_name_never_sends:
  assumes "mail_New cfg = Inr c" and "HasSuffix (From cfg) ''>''"
  shows "Send env (Some random) c to' subject body w = (Inl (MailText ''email: invalid Message-ID''), w)"
proof -
  from assms(2) obtain name where from': "From cfg = name @ ''>''" by (auto simp: HasSuffix_def suffix_def)
  have "mail_from c = From cfg" using assms(1) by (auto simp: mail_New_def split: if_splits)
  then have "CHR ''>'' \<in> set (after_last CHR ''@'' (mail_from c))"
    by (simp add: from' after_last_def)
  then have "ContainsAny (hex_encode random @ ''@'' @ after_last CHR ''@'' (mail_from c)) (CRLF @ ''<>'')"
    by (auto simp: ContainsAny_def)
  then show ?thesis by (simp add: Send_def generateMessageID_def SendWithMessageID_def)
qed

theorem display_name_never_sends_witness:
  "Send (demo_api 200) (Some ''r'') \<lparr>accountID = ''acc'', apiToken = ''tok'', mail_from = ''X <x@y>'',
     apiBase = ''https://api.cloudflare.com/client/v4''\<rparr> [''a@b''] ''s'' ''t'' 0
   = (Inl (MailText ''email: invalid Message-ID''), 0)"
proof -
  have "mail_New \<lparr>AccountID = ''acc'', APIToken = ''tok'', From = ''X <x@y>''\<rparr> =
      Inr \<lparr>accountID = ''acc'', apiToken = ''tok'', mail_from = ''X <x@y>'',
        apiBase = ''https://api.cloudflare.com/client/v4''\<rparr>" by code_simp
  moreover have "HasSuffix (From \<lparr>AccountID = ''acc'', APIToken = ''tok'', From = ''X <x@y>''\<rparr>) ''>''"
    by (simp add: HasSuffix_def suffix_def)
  ultimately show ?thesis by (rule display_name_never_sends)
qed

text \<open>A token that was loaded is one non-empty line of a private regular file.\<close>

lemma LoadTokenFile_Inr:
  assumes "LoadTokenFile lstat readFile path = Inr token"
  shows "lstat path = Some (True, 384) \<and> token \<noteq> [] \<and> \<not> ContainsAny token CRLF
    \<and> (\<exists>raw. readFile path = Some raw \<and> token = TrimRight raw CRLF)"
  using assms
  by (auto simp: LoadTokenFile_def Let_def split: if_splits option.splits prod.splits)

section \<open>The texts of the typed errors\<close>

text \<open>\<open>%v\<close> of a slice of strings.\<close>

definition fmt_strings :: "string list \<Rightarrow> string" where
  "fmt_strings ss = ''['' @ Join ss '' '' @ '']''"

definition RecipientError_Error :: "string list \<Rightarrow> string list \<Rightarrow> string list \<Rightarrow> string" where
  "RecipientError_Error bounced suppressed unaccepted =
     ''email: provider '' @ Join
       ((if bounced \<noteq> [] then [''bounced '' @ fmt_strings bounced] else [])
        @ (if suppressed \<noteq> [] then [''suppressed '' @ fmt_strings suppressed] else [])
        @ (if unaccepted \<noteq> [] then [''never accounted for '' @ fmt_strings unaccepted] else [])) '' and ''"

text \<open>No code of the package sets a method, so it is empty where the status is.\<close>

definition RateLimitError_Error :: "int \<Rightarrow> string \<Rightarrow> string" where
  "RateLimitError_Error status method =
     (if status \<noteq> 0 then ''fastmail: rate limited (http '' @ show_int status @ '')'' else ''fastmail: '' @ method @ '' rate limited'')"

lemma RecipientError_Error_cases:
  "RecipientError_Error [''a''] [] [''b'', ''c''] = ''email: provider bounced [a] and never accounted for [b c]''"
  "RecipientError_Error [] [''a''] [] = ''email: provider suppressed [a]''"
  by (simp_all add: RecipientError_Error_def fmt_strings_def)

end
