(* ===== verification/Auth_Types.thy ===== *)
theory Auth_Types
  imports Go_Errors Go_Http Go_Net
begin

text \<open>
  Package \<open>auth\<close>: its errors (\<open>errors.go\<close>), configuration (\<open>config.go\<close>), the values of \<open>types.go\<close>
  and the cookies (\<open>cookies.go\<close>). The confidential client secret, the HTTP client and the clock of
  a configuration are parts of the environment of the calls that use them.

  A request is its URL, the cookies \<open>net/http\<close> reads from it and its \<open>Accept\<close> header. What is
  written to a response is collected: the cookies in order, then one outcome.
\<close>

section \<open>errors.go\<close>

datatype auth_code =
    AInvalidConfig | AInvalidProvider | AInvalidState | AMissingPKCE | AInvalidToken
  | AInvalidSignature | AWrongIssuer | AWrongAudience | ATokenExpired | ATokenNotYetValid
  | ATokenIssuedInFuture | AJWKSUnavailable | AIssuerUnavailable | AInvalidResponse | ASecretUnavailable

text \<open>The package's \<open>*Error\<close> carries a code; an \<open>*OAuthError\<close> its status, code and description.
  \<open>APanic\<close> is a run that ends in a nil dereference.\<close>

datatype auth_tag = ACode auth_code | AOAuth int string string | APanic

type_synonym auth_error = "auth_tag go_error"

definition auth_errorf :: "auth_code \<Rightarrow> string \<Rightarrow> auth_error" where
  "auth_errorf c format = coded (ACode c) format"

definition OAuthError :: "int \<Rightarrow> string \<Rightarrow> string \<Rightarrow> auth_error" where
  "OAuthError status code description = Coded (AOAuth status code description) None"

definition auth_IsCode :: "auth_error option \<Rightarrow> auth_code \<Rightarrow> bool" where
  "auth_IsCode err k = (case err of None \<Rightarrow> False | Some e \<Rightarrow> chain_has_code e (ACode k))"

interpretation auth_err: coded_errors auth_errorf auth_IsCode
  by unfold_locales (simp_all add: auth_IsCode_def auth_errorf_def coded_def)

lemma auth_IsCode_errorf [simp]: "auth_IsCode (Some (auth_errorf c m)) k \<longleftrightarrow> c = k"
  by (rule auth_err.is_code_mk)

lemma auth_IsCode_OAuth [simp]: "\<not> auth_IsCode (Some (OAuthError s c d)) k"
  by (simp add: auth_IsCode_def OAuthError_def)

section \<open>types.go\<close>

record transaction =
  Verifier :: string
  Challenge :: string
  State :: string
  RedirectPath :: string
  Provider :: string
  CallbackURI :: string
  ExpiresAt :: go_time

record tokens =
  AccessToken :: string
  RefreshToken :: string

record principal =
  Subject :: string
  UserID :: string
  PrincipalEmail :: string
  PrincipalName :: string
  Image :: string
  Roles :: "string list"
  Audiences :: "string list"

section \<open>config.go\<close>

record auth_config =
  Issuer :: string
  IssuerInternal :: string
  AuthClientID :: string
  Resource :: string
  CallbackPath :: string
  CookiePrefix :: string
  SessionCookieDomain :: string
  Providers :: "string list"
  GatedPaths :: "string list"
  LoginPath :: string
  LogoutPath :: string
  LogoutRedirect :: string
  AccessTokenMaxAge :: go_duration
  RefreshTokenMaxAge :: go_duration
  TransactionMaxAge :: go_duration
  ClockSkew :: go_duration
  JWKSCacheTTL :: go_duration

definition http_scheme :: "string \<Rightarrow> bool" where
  "http_scheme s \<longleftrightarrow> s = ''https'' \<or> s = ''http''"

definition normalizeIssuer :: "string \<Rightarrow> auth_error + string" where
  "normalizeIssuer raw =
     (case url_Parse raw of
        None \<Rightarrow> Inl (auth_errorf AInvalidConfig ''must be an absolute HTTP URL'')
      | Some parsed \<Rightarrow>
          if Host parsed = [] \<or> User parsed \<noteq> None \<or> \<not> http_scheme (url_Scheme parsed)
          then Inl (auth_errorf AInvalidConfig ''must be an absolute HTTP URL'')
          else if RawQuery parsed \<noteq> [] \<or> Fragment parsed \<noteq> [] \<or> (url_Path parsed \<noteq> [] \<and> url_Path parsed \<noteq> ''/'')
          then Inl (auth_errorf AInvalidConfig ''must not contain a path, query, or fragment'')
          else Inr (TrimSuffix (url_String (parsed\<lparr>url_Path := []\<rparr>)) ''/''))"

definition validAbsolutePath :: "string \<Rightarrow> bool" where
  "validAbsolutePath path \<longleftrightarrow>
     \<not> (Contains path [CHR 0x5C] \<or> Contains (ToLower path) ''%2f'' \<or> Contains (ToLower path) ''%5c'')
     \<and> (case url_Parse path of
          None \<Rightarrow> False
        | Some parsed \<Rightarrow> HasPrefix path ''/'' \<and> \<not> HasPrefix path ''//'' \<and> \<not> IsAbs parsed \<and> Host parsed = [])"

definition validLocalRoute :: "string \<Rightarrow> bool" where
  "validLocalRoute path \<longleftrightarrow>
     (case url_Parse path of
        None \<Rightarrow> False
      | Some parsed \<Rightarrow> RawQuery parsed = [] \<and> Fragment parsed = [] \<and> validAbsolutePath path)"

definition validGatedPath :: "string \<Rightarrow> bool" where
  "validGatedPath path \<longleftrightarrow>
     (if HasSuffix path ''/*'' then validLocalRoute (TrimSuffix path ''*'') else validLocalRoute path)"

definition validResource :: "string \<Rightarrow> bool" where
  "validResource raw \<longleftrightarrow>
     (case url_Parse raw of
        None \<Rightarrow> False
      | Some parsed \<Rightarrow> Host parsed \<noteq> [] \<and> http_scheme (url_Scheme parsed) \<and> User parsed = None \<and> Fragment parsed = [])"

text \<open>\<open>Cookie.Valid\<close>: the name is a token; the domain a domain name or an IPv4 address.\<close>

definition token_char :: "char \<Rightarrow> bool" where
  "token_char c \<longleftrightarrow> alnum c \<or> c \<in> set ([CHR 0x27, CHR 0x60] @ ''!#$%&*+-.^_|~'')"

definition valid_cookie_name :: "string \<Rightarrow> bool" where
  "valid_cookie_name name \<longleftrightarrow> name \<noteq> [] \<and> list_all token_char name"

definition cookie_domain_part :: "string \<Rightarrow> bool" where
  "cookie_domain_part p \<longleftrightarrow> list_all (\<lambda>c. alnum c \<or> c = CHR ''-'') p \<and> length p \<le> 63
     \<and> (p \<noteq> [] \<longrightarrow> hd p \<noteq> CHR ''-'' \<and> last p \<noteq> CHR ''-'')"

definition valid_cookie_domain :: "string \<Rightarrow> bool" where
  "valid_cookie_domain d \<longleftrightarrow>
     (let s = (if HasPrefix d ''.'' then tl d else d); ps = Split s CHR ''.'' in
      d \<noteq> [] \<and> length d \<le> 255 \<and> list_all cookie_domain_part ps \<and> list_all (\<lambda>p. p \<noteq> []) (butlast ps)
      \<and> list_ex is_letter s)
     \<or> ParseIP d \<noteq> None \<and> CHR '':'' \<notin> set d"

definition default_to :: "go_duration \<Rightarrow> go_duration \<Rightarrow> go_duration" where
  "default_to d v = (if v \<le> 0 then d else v)"

definition default_path :: "string \<Rightarrow> string \<Rightarrow> string" where
  "default_path d v = (if v = [] then d else v)"

definition auth_New :: "auth_config \<Rightarrow> auth_error + auth_config" where
  "auth_New config =
     (let bad = (\<lambda>format. auth_errorf AInvalidConfig format) in
      case normalizeIssuer (Issuer config) of
        Inl e \<Rightarrow> Inl (bad ''issuer: %v'')
      | Inr issuer \<Rightarrow>
          (case (if IssuerInternal config = [] then Inr issuer else normalizeIssuer (IssuerInternal config)) of
             Inl e \<Rightarrow> Inl (bad ''internal issuer: %v'')
           | Inr internal \<Rightarrow>
               rbind (guard (\<not> (TrimSpace (AuthClientID config) = [] \<or> \<not> validResource (Resource config)))
                 (bad ''client ID and resource are required'')) (\<lambda>_.
               let callback = default_path ''/api/auth/callback'' (CallbackPath config) in
               rbind (guard (validLocalRoute callback) (bad ''callback path must be an absolute local path'')) (\<lambda>_.
               rbind (guard (\<not> (TrimSpace (CookiePrefix config) = [] \<or> \<not> valid_cookie_name (CookiePrefix config @ ''_at'')))
                 (bad ''cookie prefix is required'')) (\<lambda>_.
               rbind (guard (\<not> (SessionCookieDomain config \<noteq> [] \<and> \<not> valid_cookie_domain (SessionCookieDomain config)))
                 (bad ''session cookie domain is invalid'')) (\<lambda>_.
               rbind (guard (Providers config \<noteq> []) (bad ''at least one provider is required'')) (\<lambda>_.
               let login = default_path ''/login'' (LoginPath config);
                   logout = default_path ''/logout'' (LogoutPath config);
                   after = default_path ''/'' (LogoutRedirect config)
               in
               rbind (guard (validLocalRoute login \<and> validLocalRoute logout \<and> validAbsolutePath after)
                 (bad ''login, logout, and logout redirect paths must be local'')) (\<lambda>_.
               rbind (guard (list_all validGatedPath (GatedPaths config)) (bad ''gated path is invalid'')) (\<lambda>_.
               Inr (config\<lparr>Issuer := issuer, IssuerInternal := internal, CallbackPath := callback,
                 LoginPath := login, LogoutPath := logout, LogoutRedirect := after,
                 AccessTokenMaxAge := default_to (15 * minute) (AccessTokenMaxAge config),
                 RefreshTokenMaxAge := default_to (30 * 24 * hour) (RefreshTokenMaxAge config),
                 TransactionMaxAge := default_to (10 * minute) (TransactionMaxAge config),
                 ClockSkew := default_to minute (ClockSkew config),
                 JWKSCacheTTL := default_to (10 * minute) (JWKSCacheTTL config)\<rparr>))))))))))"

section \<open>cookies.go\<close>

record http_in =
  InURL :: url
  InCookies :: "(string \<times> string) list"
  InAccept :: string

record cookie =
  CookieName :: string
  CookieValue :: string
  CookiePath :: string
  CookieDomain :: string
  MaxAge :: int
  HttpOnly :: bool
  Secure :: bool
  SameSiteLax :: bool

text \<open>\<open>http.SetCookie\<close> drops the bytes a value or a path may not hold and the leading dot of a domain;
  the quotes it puts around a value with a space or a comma are taken off again on reading.\<close>

definition cookie_value_byte :: "char \<Rightarrow> bool" where
  "cookie_value_byte c \<longleftrightarrow> 0x20 \<le> of_byte c \<and> of_byte c < 0x7F \<and> c \<notin> set ([CHR 0x22, CHR 0x5C] @ '';'')"

definition cookie_path_byte :: "char \<Rightarrow> bool" where
  "cookie_path_byte c \<longleftrightarrow> 0x20 \<le> of_byte c \<and> of_byte c < 0x7F \<and> c \<noteq> CHR '';''"

definition wire_domain :: "string \<Rightarrow> string" where
  "wire_domain d = (if HasPrefix d ''.'' then tl d else d)"

definition cookieName :: "auth_config \<Rightarrow> string \<Rightarrow> string" where
  "cookieName c suffx = CookiePrefix c @ ''_'' @ suffx"

definition setCookie :: "string \<Rightarrow> string \<Rightarrow> string \<Rightarrow> go_duration \<Rightarrow> string \<Rightarrow> cookie" where
  "setCookie name v path maxAge domain =
     \<lparr>CookieName = name, CookieValue = filter cookie_value_byte v, CookiePath = filter cookie_path_byte path,
      CookieDomain = wire_domain domain, MaxAge = maxAge div second, HttpOnly = True, Secure = True, SameSiteLax = True\<rparr>"

definition clearCookie :: "string \<Rightarrow> string \<Rightarrow> string \<Rightarrow> cookie" where
  "clearCookie name path domain =
     \<lparr>CookieName = name, CookieValue = [], CookiePath = filter cookie_path_byte path,
      CookieDomain = wire_domain domain, MaxAge = -1, HttpOnly = True, Secure = True, SameSiteLax = True\<rparr>"

definition readCookie :: "http_in \<Rightarrow> string \<Rightarrow> string" where
  "readCookie request name = (case map_of (InCookies request) name of Some v \<Rightarrow> v | None \<Rightarrow> [])"

definition safeRedirect :: "string \<Rightarrow> string" where
  "safeRedirect path = (if validAbsolutePath path then path else ''/'')"

definition SetTransactionCookies :: "auth_config \<Rightarrow> transaction \<Rightarrow> cookie list" where
  "SetTransactionCookies c t =
     [setCookie (cookieName c ''pkce'') (Verifier t) (CallbackPath c) (TransactionMaxAge c) [],
      setCookie (cookieName c ''callback'') (CallbackURI t) (CallbackPath c) (TransactionMaxAge c) [],
      setCookie (cookieName c ''expires'') (show_int (ExpiresAt t div second)) (CallbackPath c)
        (TransactionMaxAge c) [],
      setCookie (cookieName c ''state'') (State t) ''/'' (TransactionMaxAge c) [],
      setCookie (cookieName c ''redirect'') (RedirectPath t) ''/'' (TransactionMaxAge c) [],
      setCookie (cookieName c ''provider'') (Provider t) ''/'' (TransactionMaxAge c) []]"

text \<open>What the cookies hold, before the clock is read.\<close>

definition transaction_cookies :: "auth_config \<Rightarrow> http_in \<Rightarrow> auth_error + transaction" where
  "transaction_cookies c request =
     (let verifier = readCookie request (cookieName c ''pkce'');
          state = readCookie request (cookieName c ''state'');
          callbackURI = readCookie request (cookieName c ''callback'')
      in
      rbind (guard (verifier \<noteq> []) (auth_errorf AMissingPKCE ''PKCE verifier cookie is missing'')) (\<lambda>_.
      rbind (guard (state \<noteq> []) (auth_errorf AInvalidState ''state cookie is missing'')) (\<lambda>_.
      rbind (guard (case url_Parse callbackURI of
          None \<Rightarrow> False
        | Some u \<Rightarrow> Host u \<noteq> [] \<and> http_scheme (url_Scheme u) \<and> url_Path u = CallbackPath c
            \<and> RawQuery u = [] \<and> Fragment u = [] \<and> User u = None)
        (auth_errorf AInvalidState ''callback transaction is missing or invalid'')) (\<lambda>_.
      case ParseInt64 (readCookie request (cookieName c ''expires'')) of
        None \<Rightarrow> Inl (auth_errorf AInvalidState ''authorization transaction expiry is missing'')
      | Some unix \<Rightarrow>
          Inr \<lparr>Verifier = verifier, Challenge = [], State = state,
            RedirectPath = safeRedirect (readCookie request (cookieName c ''redirect'')),
            Provider = readCookie request (cookieName c ''provider''), CallbackURI = callbackURI,
            ExpiresAt = time_from_Unix unix\<rparr>))))"

definition TransactionFromRequest ::
  "('w \<Rightarrow> go_time \<times> 'w) \<Rightarrow> auth_config \<Rightarrow> http_in \<Rightarrow> 'w \<Rightarrow> (auth_error + transaction) \<times> 'w" where
  "TransactionFromRequest clock c request w =
     (case transaction_cookies c request of
        Inl e \<Rightarrow> (Inl e, w)
      | Inr t \<Rightarrow>
          (case clock w of (now, w1) \<Rightarrow>
             ((if ExpiresAt t < now then Inl (auth_errorf AInvalidState ''authorization transaction is expired'')
               else Inr t), w1)))"

definition SetSessionCookies :: "auth_config \<Rightarrow> tokens \<Rightarrow> cookie list" where
  "SetSessionCookies c t =
     [setCookie (cookieName c ''at'') (AccessToken t) ''/'' (AccessTokenMaxAge c) (SessionCookieDomain c),
      setCookie (cookieName c ''rt'') (RefreshToken t) ''/'' (RefreshTokenMaxAge c) (SessionCookieDomain c)]"

definition SessionTokens :: "auth_config \<Rightarrow> http_in \<Rightarrow> string \<times> string" where
  "SessionTokens c request = (readCookie request (cookieName c ''at''), readCookie request (cookieName c ''rt''))"

definition ClearSessionCookies :: "auth_config \<Rightarrow> cookie list" where
  "ClearSessionCookies c =
     [clearCookie (cookieName c ''at'') ''/'' (SessionCookieDomain c),
      clearCookie (cookieName c ''rt'') ''/'' (SessionCookieDomain c)]"

definition ClearTransactionCookies :: "auth_config \<Rightarrow> cookie list" where
  "ClearTransactionCookies c =
     [clearCookie (cookieName c ''pkce'') (CallbackPath c) [],
      clearCookie (cookieName c ''callback'') (CallbackPath c) [],
      clearCookie (cookieName c ''expires'') (CallbackPath c) [],
      clearCookie (cookieName c ''state'') ''/'' [],
      clearCookie (cookieName c ''redirect'') ''/'' [],
      clearCookie (cookieName c ''provider'') ''/'' []]"

end
