(* ===== verification/Auth_Verify.thy ===== *)
theory Auth_Verify
  imports Auth_Types Go_Json Go_Sha256
begin

text \<open>
  Package \<open>auth\<close>: the signing keys (\<open>jwks.go\<close>) and the verification of access tokens (\<open>verify.go\<close>).

  What a client meets outside is an environment over a world: the HTTP client with the server behind
  it, the clock, the source of the client secret, the random bytes and \<open>ecdsa.Verify\<close>, of which
  nothing is assumed. The state of a client is its key cache; the mutex of the cache makes every
  lookup one step of a sequence of them.
\<close>

section \<open>Environment and state\<close>

type_synonym ec_point = "int \<times> int"

record ('w, 'e) auth_env =
  Server :: "('w, 'e) http_server"
  Now :: "'w \<Rightarrow> go_time \<times> 'w"
  ClientSecret :: "('w \<Rightarrow> ('e + string) \<times> 'w) option"
  RandomBytes :: "'w \<Rightarrow> ('e + string) \<times> 'w"
  ecdsa_Verify :: "ec_point \<Rightarrow> string \<Rightarrow> int \<times> int \<Rightarrow> bool"

record jwks_cache =
  Keys :: "(string, ec_point) go_map"
  FetchedAt :: go_time

definition empty_cache :: jwks_cache where
  "empty_cache = \<lparr>Keys = [], FetchedAt = zero_time\<rparr>"

record 'w auth_state =
  Cache :: jwks_cache
  World :: 'w

definition on_world :: "('w \<Rightarrow> 'a \<times> 'w) \<Rightarrow> 'w auth_state \<Rightarrow> 'a \<times> 'w auth_state" where
  "on_world f s = (case f (World s) of (a, w) \<Rightarrow> (a, s\<lparr>World := w\<rparr>))"

text \<open>An operation that may fail, and the one after it.\<close>

definition and_then :: "('s \<Rightarrow> ('e + 'a) \<times> 's) \<Rightarrow> ('a \<Rightarrow> 's \<Rightarrow> ('e + 'b) \<times> 's) \<Rightarrow> 's \<Rightarrow> ('e + 'b) \<times> 's" where
  "and_then m f s = (case m s of (Inl e, s') \<Rightarrow> (Inl e, s') | (Inr a, s') \<Rightarrow> f a s')"

lemma and_then_Inr_iff [go_result]:
  "and_then m f s = (Inr b, s') \<longleftrightarrow> (\<exists>a s1. m s = (Inr a, s1) \<and> f a s1 = (Inr b, s'))"
  by (auto simp: and_then_def split: prod.splits sum.splits)

lemma on_world_eq: "on_world f s = (a, s') \<longleftrightarrow> (\<exists>w. f (World s) = (a, w) \<and> s' = s\<lparr>World := w\<rparr>)"
  by (auto simp: on_world_def split: prod.splits)

lemma on_world_Cache: "on_world f s = (a, s') \<Longrightarrow> Cache s' = Cache s"
  by (auto simp: on_world_eq)

section \<open>jwks.go\<close>

definition maxJWKSBytes :: nat where "maxJWKSBytes = 1048576"

record jwk =
  KeyType :: string
  Curve :: string
  Alg :: string
  Use :: string
  KeyID :: string
  CoordX :: string
  CoordY :: string

definition empty_jwk :: jwk where
  "empty_jwk = \<lparr>KeyType = [], Curve = [], Alg = [], Use = [], KeyID = [], CoordX = [], CoordY = []\<rparr>"

definition set_jwk :: "jwk setter" where
  "set_jwk = set_struct False
    [(''kty'', set_string (\<lambda>v. KeyType_update (\<lambda>_. v))),
     (''crv'', set_string (\<lambda>v. Curve_update (\<lambda>_. v))),
     (''alg'', set_string (\<lambda>v. Alg_update (\<lambda>_. v))),
     (''use'', set_string (\<lambda>v. Use_update (\<lambda>_. v))),
     (''kid'', set_string (\<lambda>v. KeyID_update (\<lambda>_. v))),
     (''x'', set_string (\<lambda>v. CoordX_update (\<lambda>_. v))),
     (''y'', set_string (\<lambda>v. CoordY_update (\<lambda>_. v)))]"

definition set_jwks :: "jwk list setter" where
  "set_jwks = set_struct False [(''keys'', set_slice set_jwk empty_jwk (\<lambda>v _. v))]"

text \<open>\<open>big.Int.SetBytes\<close>: the most significant byte first.\<close>

definition SetBytes :: "string \<Rightarrow> int" where
  "SetBytes s = foldl (\<lambda>n c. 256 * n + of_char c) 0 s"

text \<open>\<open>elliptic.P256().IsOnCurve\<close>\<close>

definition p256_p :: int where
  "p256_p = 2 ^ 256 - 2 ^ 224 + 2 ^ 192 + 2 ^ 96 - 1"

definition p256_b :: int where
  "p256_b = 0x5ac635d8aa3a93e7b3ebbd55769886bc651d06b0cc53b0f63bce3c3e27d2604b"

definition on_p256 :: "ec_point \<Rightarrow> bool" where
  "on_p256 q = (case q of (x, y) \<Rightarrow>
     0 \<le> x \<and> x < p256_p \<and> 0 \<le> y \<and> y < p256_p
     \<and> (y * y) mod p256_p = (x * x * x - 3 * x + p256_b) mod p256_p)"

definition parseP256Key :: "jwk \<Rightarrow> string + ec_point" where
  "parseP256Key v =
     (case RawURLEncoding_decode (CoordX v) of
        None \<Rightarrow> Inl ''decode x coordinate: %w''
      | Some xBytes \<Rightarrow>
          (case RawURLEncoding_decode (CoordY v) of
             None \<Rightarrow> Inl ''decode y coordinate: %w''
           | Some yBytes \<Rightarrow>
               (let q = (SetBytes xBytes, SetBytes yBytes) in
                if xBytes = [] \<or> yBytes = [] \<or> \<not> on_p256 q then Inl ''coordinates are not on P-256''
                else Inr q)))"

definition signing_jwk :: "jwk \<Rightarrow> bool" where
  "signing_jwk v \<longleftrightarrow> KeyType v = ''EC'' \<and> Curve v = ''P-256'' \<and> Alg v = ''ES256''
     \<and> (Use v = [] \<or> Use v = ''sig'') \<and> KeyID v \<noteq> []"

text \<open>The loop over the document; of two keys with one id the later is kept.\<close>

definition collect_keys :: "jwk list \<Rightarrow> string + (string, ec_point) go_map" where
  "collect_keys vs =
     rbind (rmap (\<lambda>v. rbind (parseP256Key v) (\<lambda>q. Inr (KeyID v, q))) (filter signing_jwk vs)) (\<lambda>ks.
       if ks = [] then Inl ''JWKS contains no ES256 signing keys'' else Inr (rev ks))"

definition fetchJWKS :: "('w, 'e) auth_env \<Rightarrow> auth_config \<Rightarrow> 'w \<Rightarrow> (string + (string, ec_point) go_map) \<times> 'w" where
  "fetchJWKS env c w =
     (case NewRequest ''GET'' (IssuerInternal c @ ''/.well-known/jwks.json'') None of
        None \<Rightarrow> (Inl ''request'', w)
      | Some request \<Rightarrow>
          (case Server env w request of
             (Inl e, w1) \<Rightarrow> (Inl ''transport'', w1)
           | (Inr response, w1) \<Rightarrow>
               if StatusCode response \<noteq> 200 then (Inl ''JWKS endpoint returned %d'', w1)
               else (case Decode_into set_jwks (take maxJWKSBytes (Body response)) [] of
                   (_, False) \<Rightarrow> (Inl ''decode JWKS: %w'', w1)
                 | (ks, True) \<Rightarrow> (collect_keys ks, w1))))"

definition signingKey ::
  "('w, 'e) auth_env \<Rightarrow> auth_config \<Rightarrow> string \<Rightarrow> 'w auth_state \<Rightarrow> (auth_error + ec_point) \<times> 'w auth_state" where
  "signingKey env c kid s =
     (case on_world (Now env) s of (now, s1) \<Rightarrow>
        (let present = map_of (Keys (Cache s1)) kid in
         if present \<noteq> None \<and> time_Sub now (FetchedAt (Cache s1)) \<le> JWKSCacheTTL c then (Inr (the present), s1)
         else (case on_world (fetchJWKS env c) s1 of
             (Inr ks, s2) \<Rightarrow>
               ((case map_of ks kid of
                   Some key \<Rightarrow> Inr key
                 | None \<Rightarrow> Inl (auth_errorf AInvalidSignature ''token key ID is not published'')),
                s2\<lparr>Cache := \<lparr>Keys = ks, FetchedAt = now\<rparr>\<rparr>)
           | (Inl e, s2) \<Rightarrow>
               ((case present of
                   Some key \<Rightarrow> Inr key
                 | None \<Rightarrow> Inl (auth_errorf AJWKSUnavailable ''fetch signing keys: %v'')), s2))))"

section \<open>verify.go\<close>

text \<open>\<open>userSubjectPattern\<close>: the match is the id behind \<open>user:\<close>, an uppercase ULID or an RFC 9562 UUID
  of version 1 to 8.\<close>

definition char_in :: "char \<Rightarrow> char \<Rightarrow> char \<Rightarrow> bool" where
  "char_in lo hi c \<longleftrightarrow> (of_byte lo :: nat) \<le> of_byte c \<and> (of_byte c :: nat) \<le> of_byte hi"

definition ulid_char :: "char \<Rightarrow> bool" where
  "ulid_char c \<longleftrightarrow> char_in CHR ''0'' CHR ''9'' c \<or> char_in CHR ''A'' CHR ''H'' c \<or> c \<in> set ''JKMNPQRST''
     \<or> char_in CHR ''V'' CHR ''Z'' c"

definition is_ulid :: "string \<Rightarrow> bool" where
  "is_ulid s \<longleftrightarrow> length s = 26 \<and> char_in CHR ''0'' CHR ''7'' (hd s) \<and> list_all ulid_char (tl s)"

definition hex_run :: "nat \<Rightarrow> string \<Rightarrow> bool" where
  "hex_run n s \<longleftrightarrow> length s = n \<and> list_all (\<lambda>c. hex_val c \<noteq> None) s"

definition is_uuid :: "string \<Rightarrow> bool" where
  "is_uuid s \<longleftrightarrow>
     (case Split s CHR ''-'' of
        [a, b, v, r, n] \<Rightarrow> hex_run 8 a \<and> hex_run 4 b \<and> hex_run 4 v \<and> char_in CHR ''1'' CHR ''8'' (hd v)
          \<and> hex_run 4 r \<and> hd r \<in> set ''89abAB'' \<and> hex_run 12 n
      | _ \<Rightarrow> False)"

definition user_subject :: "string \<Rightarrow> string option" where
  "user_subject s =
     (let uid = drop 5 s in if HasPrefix s ''user:'' \<and> (is_ulid uid \<or> is_uuid uid) then Some uid else None)"

record jwt_header =
  Algorithm :: string
  HeaderKeyID :: string
  HeaderType :: string

definition set_header_json :: "jwt_header setter" where
  "set_header_json = set_struct False
    [(''alg'', set_string (\<lambda>v. Algorithm_update (\<lambda>_. v))),
     (''kid'', set_string (\<lambda>v. HeaderKeyID_update (\<lambda>_. v))),
     (''typ'', set_string (\<lambda>v. HeaderType_update (\<lambda>_. v)))]"

record claim_properties =
  PropUserID :: string
  PropEmail :: string
  PropName :: string
  PropImage :: string

record token_claims =
  ClaimIssuer :: string
  ClaimSubject :: string
  ClaimAudience :: "string list"
  Mode :: string
  ClaimType :: string
  ClaimRoles :: "string list"
  IssuedAt :: "int option"
  NotBefore :: "int option"
  ExpiresAtClaim :: "int option"
  Properties :: claim_properties

definition empty_claims :: token_claims where
  "empty_claims = \<lparr>ClaimIssuer = [], ClaimSubject = [], ClaimAudience = [], Mode = [], ClaimType = [],
     ClaimRoles = [], IssuedAt = None, NotBefore = None, ExpiresAtClaim = None,
     Properties = \<lparr>PropUserID = [], PropEmail = [], PropName = [], PropImage = []\<rparr>\<rparr>"

text \<open>\<open>audienceClaim.UnmarshalJSON\<close>: a string, \<open>null\<close> (which leaves the empty string) or an array.\<close>

definition set_audience :: "(string list \<Rightarrow> 'a \<Rightarrow> 'a) \<Rightarrow> 'a setter" where
  "set_audience upd j x =
     (case set_string (\<lambda>v _. v) j [] of
        (single, True) \<Rightarrow> (upd [single] x, True)
      | (_, False) \<Rightarrow>
          (case set_strings (\<lambda>v _. v) j [] of
             (many, True) \<Rightarrow> (upd many x, True)
           | (_, False) \<Rightarrow> (x, False)))"

definition set_time_claim :: "(token_claims \<Rightarrow> int option) \<Rightarrow> (int option \<Rightarrow> token_claims \<Rightarrow> token_claims) \<Rightarrow> token_claims setter" where
  "set_time_claim get upd = set_pointer (set_int64 (\<lambda>v _. v)) 0 get upd"

definition set_properties :: "claim_properties setter" where
  "set_properties = set_struct False
    [(''userId'', set_string (\<lambda>v. PropUserID_update (\<lambda>_. v))),
     (''email'', set_string (\<lambda>v. PropEmail_update (\<lambda>_. v))),
     (''name'', set_string (\<lambda>v. PropName_update (\<lambda>_. v))),
     (''image'', set_string (\<lambda>v. PropImage_update (\<lambda>_. v)))]"

definition set_claims :: "token_claims setter" where
  "set_claims = set_struct False
    [(''iss'', set_string (\<lambda>v. ClaimIssuer_update (\<lambda>_. v))),
     (''sub'', set_string (\<lambda>v. ClaimSubject_update (\<lambda>_. v))),
     (''aud'', set_audience (\<lambda>v. ClaimAudience_update (\<lambda>_. v))),
     (''mode'', set_string (\<lambda>v. Mode_update (\<lambda>_. v))),
     (''type'', set_string (\<lambda>v. ClaimType_update (\<lambda>_. v))),
     (''roles'', set_strings (\<lambda>v. ClaimRoles_update (\<lambda>_. v))),
     (''iat'', set_time_claim IssuedAt (\<lambda>v. IssuedAt_update (\<lambda>_. v))),
     (''nbf'', set_time_claim NotBefore (\<lambda>v. NotBefore_update (\<lambda>_. v))),
     (''exp'', set_time_claim ExpiresAtClaim (\<lambda>v. ExpiresAtClaim_update (\<lambda>_. v))),
     (''properties'', (\<lambda>j x. case set_properties j (Properties x) of (p, ok) \<Rightarrow> (x\<lparr>Properties := p\<rparr>, ok)))]"

definition verifyES256 :: "('w, 'e) auth_env \<Rightarrow> ec_point \<Rightarrow> string \<Rightarrow> string \<Rightarrow> bool" where
  "verifyES256 env key signingInput encodedSignature \<longleftrightarrow>
     (case RawURLEncoding_decode encodedSignature of
        None \<Rightarrow> False
      | Some sig \<Rightarrow> length sig = 64
          \<and> ecdsa_Verify env key (sha256 signingInput) (SetBytes (take 32 sig), SetBytes (drop 32 sig)))"

text \<open>The clock is read once, after the checks that need no clock.\<close>

definition claims_timely :: "auth_config \<Rightarrow> go_time \<Rightarrow> token_claims \<Rightarrow> auth_error + unit" where
  "claims_timely c now claims =
     rbind (guard (\<not> time_Add (time_from_Unix (the (ExpiresAtClaim claims))) (ClockSkew c) < now)
       (auth_errorf ATokenExpired ''access token is expired'')) (\<lambda>_.
     rbind (guard (case NotBefore claims of None \<Rightarrow> True | Some t \<Rightarrow> \<not> time_Add now (ClockSkew c) < time_from_Unix t)
       (auth_errorf ATokenNotYetValid ''access token is not active'')) (\<lambda>_.
     guard (\<not> time_Add now (ClockSkew c) < time_from_Unix (the (IssuedAt claims)))
       (auth_errorf ATokenIssuedInFuture ''access token was issued in the future'')))"

definition claims_identity :: "token_claims \<Rightarrow> auth_error + principal" where
  "claims_identity claims =
     (if user_subject (ClaimSubject claims) \<noteq> Some (PropUserID (Properties claims)) \<or> PropEmail (Properties claims) = []
      then Inl (auth_errorf AInvalidToken ''access token identity claims are inconsistent'')
      else Inr \<lparr>Subject = ClaimSubject claims, UserID = PropUserID (Properties claims),
        PrincipalEmail = PropEmail (Properties claims), PrincipalName = PropName (Properties claims),
        Image = PropImage (Properties claims), Roles = ClaimRoles claims, Audiences = ClaimAudience claims\<rparr>)"

definition validateClaims ::
  "('w, 'e) auth_env \<Rightarrow> auth_config \<Rightarrow> token_claims \<Rightarrow> 'w auth_state \<Rightarrow> (auth_error + principal) \<times> 'w auth_state" where
  "validateClaims env c claims s =
     (if ClaimIssuer claims \<noteq> Issuer c then (Inl (auth_errorf AWrongIssuer ''access token issuer does not match''), s)
      else if Resource c \<notin> set (ClaimAudience claims)
      then (Inl (auth_errorf AWrongAudience ''access token audience does not match''), s)
      else if Mode claims \<noteq> ''access'' \<or> ClaimType claims \<noteq> ''user'' \<or> ExpiresAtClaim claims = None \<or> IssuedAt claims = None
      then (Inl (auth_errorf AInvalidToken ''required access token claims are missing''), s)
      else (case on_world (Now env) s of (now, s1) \<Rightarrow>
          (rbind (claims_timely c now claims) (\<lambda>_. claims_identity claims), s1)))"

text \<open>The segments of a token: header, payload and signature, still encoded.\<close>

definition token_parts :: "string \<Rightarrow> auth_error + string \<times> string \<times> string" where
  "token_parts token =
     (case Split token CHR ''.'' of
        [h, p, sig] \<Rightarrow> Inr (h, p, sig)
      | _ \<Rightarrow> Inl (auth_errorf AInvalidToken ''JWT must contain three segments''))"

definition token_key_id :: "string \<Rightarrow> auth_error + string" where
  "token_key_id h =
     (case RawURLEncoding_decode h of
        None \<Rightarrow> Inl (auth_errorf AInvalidToken ''decode JWT header: %v'')
      | Some bytes \<Rightarrow>
          (case Unmarshal_into set_header_json bytes \<lparr>Algorithm = [], HeaderKeyID = [], HeaderType = []\<rparr> of
             (header, ok) \<Rightarrow>
               if \<not> ok \<or> Algorithm header \<noteq> ''ES256'' \<or> HeaderKeyID header = []
               then Inl (auth_errorf AInvalidToken ''JWT header is not an ES256 keyed signature'')
               else Inr (HeaderKeyID header)))"

definition token_claims_of :: "string \<Rightarrow> auth_error + token_claims" where
  "token_claims_of p =
     (case RawURLEncoding_decode p of
        None \<Rightarrow> Inl (auth_errorf AInvalidToken ''decode JWT payload: %v'')
      | Some bytes \<Rightarrow>
          (case Unmarshal_into set_claims bytes empty_claims of
             (claims, True) \<Rightarrow> Inr claims
           | (_, False) \<Rightarrow> Inl (auth_errorf AInvalidToken ''decode JWT claims: %v'')))"

definition Verify ::
  "('w, 'e) auth_env \<Rightarrow> auth_config \<Rightarrow> string \<Rightarrow> 'w auth_state \<Rightarrow> (auth_error + principal) \<times> 'w auth_state" where
  "Verify env c token =
     and_then (Pair (token_parts token)) (\<lambda>(h, p, sig).
     and_then (Pair (token_key_id h)) (\<lambda>kid.
     and_then (signingKey env c kid) (\<lambda>key.
     and_then (Pair (guard (verifyES256 env key (h @ ''.'' @ p) sig)
       (auth_errorf AInvalidSignature ''verify JWT signature: %v''))) (\<lambda>_.
     and_then (Pair (token_claims_of p)) (\<lambda>claims.
     validateClaims env c claims)))))"

section \<open>The key cache\<close>

definition cache_ok :: "jwks_cache \<Rightarrow> bool" where
  "cache_ok k \<longleftrightarrow> list_all (\<lambda>(kid, q). kid \<noteq> [] \<and> on_p256 q) (Keys k)"

lemma cache_ok_empty [simp]: "cache_ok empty_cache"
  by (simp add: cache_ok_def empty_cache_def)

lemma cache_ok_lookup: "cache_ok k \<Longrightarrow> map_of (Keys k) kid = Some q \<Longrightarrow> kid \<noteq> [] \<and> on_p256 q"
  by (auto simp: cache_ok_def list_all_iff dest!: map_of_SomeD)

lemma parseP256Key_on_curve: "parseP256Key v = Inr q \<Longrightarrow> on_p256 q"
  by (auto simp: parseP256Key_def Let_def split: option.splits if_splits)

lemma collect_keys_ok:
  assumes "collect_keys vs = Inr ks"
  shows "cache_ok \<lparr>Keys = ks, FetchedAt = t\<rparr>" "ks \<noteq> []"
proof -
  let ?key = "\<lambda>v. rbind (parseP256Key v) (\<lambda>q. Inr (KeyID v, q)) :: string + _"
  obtain rs where rs: "rmap ?key (filter signing_jwk vs) = Inr rs" and ks: "ks = rev rs" "rs \<noteq> []"
    using assms by (auto simp: collect_keys_def rbind_Inr_iff split: if_splits)
  have "fst r \<noteq> [] \<and> on_p256 (snd r)" if "r \<in> set rs" for r
  proof -
    from rmap_Inr_set [OF rs that] obtain v where "v \<in> set (filter signing_jwk vs)" "?key v = Inr r"
      by blast
    then show ?thesis by (auto simp: go_result signing_jwk_def dest: parseP256Key_on_curve)
  qed
  then show "cache_ok \<lparr>Keys = ks, FetchedAt = t\<rparr>"
    using ks by (fastforce simp: cache_ok_def list_all_iff)
  show "ks \<noteq> []" using ks by simp
qed

lemma fetchJWKS_ok: "fetchJWKS env c w = (Inr ks, w') \<Longrightarrow> cache_ok \<lparr>Keys = ks, FetchedAt = t\<rparr>"
  by (auto simp: fetchJWKS_def collect_keys_ok split: option.splits prod.splits sum.splits if_splits bool.splits)

text \<open>What a lookup does: it serves the cached key, replaces the cache by a fetched document and looks
  there, or falls back to the cache.\<close>

lemma signingKey_cases:
  assumes "signingKey env c kid s = (r, s')"
  obtains (cached) now key where "Now env (World s) = (now, World s')" "Cache s' = Cache s"
      "map_of (Keys (Cache s)) kid = Some key" "r = Inr key"
      "time_Sub now (FetchedAt (Cache s)) \<le> JWKSCacheTTL c"
  | (fetched) now w ks where "Now env (World s) = (now, w)" "fetchJWKS env c w = (Inr ks, World s')"
      "Cache s' = \<lparr>Keys = ks, FetchedAt = now\<rparr>"
      "r = (case map_of ks kid of Some key \<Rightarrow> Inr key
         | None \<Rightarrow> Inl (auth_errorf AInvalidSignature ''token key ID is not published''))"
  | (failed) now w e where "Now env (World s) = (now, w)" "fetchJWKS env c w = (Inl e, World s')"
      "Cache s' = Cache s"
      "r = (case map_of (Keys (Cache s)) kid of Some key \<Rightarrow> Inr key
         | None \<Rightarrow> Inl (auth_errorf AJWKSUnavailable ''fetch signing keys: %v''))"
proof -
  obtain now w where now: "Now env (World s) = (now, w)" by (rule prod.exhaust)
  obtain fr w2 where fr: "fetchJWKS env c w = (fr, w2)" by (rule prod.exhaust)
  show thesis
  proof (cases "map_of (Keys (Cache s)) kid \<noteq> None \<and> time_Sub now (FetchedAt (Cache s)) \<le> JWKSCacheTTL c")
    case True
    then obtain key where "map_of (Keys (Cache s)) kid = Some key" by auto
    with True assms now show thesis
      by (intro cached) (auto simp: signingKey_def on_world_def)
  next
    case False
    with assms now fr show thesis
      by (cases fr) (rule failed fetched, auto simp: signingKey_def on_world_def Let_def)+
  qed
qed

lemma signingKey_Inr:
  assumes "signingKey env c kid s = (Inr key, s')" and "cache_ok (Cache s)"
  shows "map_of (Keys (Cache s')) kid = Some key" "kid \<noteq> []" "on_p256 key"
proof -
  have keep: "cache_ok (Cache s')"
    using assms(1) by (cases rule: signingKey_cases) (use assms(2) fetchJWKS_ok in metis)+
  show "map_of (Keys (Cache s')) kid = Some key"
    using assms(1) by (cases rule: signingKey_cases) (simp_all split: option.splits)
  with keep show "kid \<noteq> []" "on_p256 key" by (auto dest: cache_ok_lookup)
qed

lemma signingKey_cache_ok: "signingKey env c kid s = (r, s') \<Longrightarrow> cache_ok (Cache s) \<Longrightarrow> cache_ok (Cache s')"
  by (erule signingKey_cases) (simp_all add: fetchJWKS_ok)

section \<open>Times\<close>

text \<open>Seconds that are clearly inside the range of a \<open>Time\<close>.\<close>

definition sane_seconds :: "int \<Rightarrow> bool" where
  "sane_seconds t \<longleftrightarrow> - (2 ^ 62) < t \<and> t < 2 ^ 62"

lemma time_from_Unix_sane: "sane_seconds t \<Longrightarrow> time_from_Unix t = t * second"
  by (simp add: time_from_Unix_def wrap64_def sane_seconds_def zero_time_def algebra_simps)

lemma time_Add_sane:
  assumes "sane_seconds (t div second)" "0 \<le> d" "d \<le> max_duration"
  shows "time_Add t d = t + d"
proof -
  let ?n = "t + d - zero_time"
  have "t div second < 2 ^ 62" "- (2 ^ 62) < t div second" using assms(1) by (simp_all add: sane_seconds_def)
  then have "?n div second < 2 ^ 63" "- (2 ^ 63) \<le> ?n div second"
    using assms(2,3) by (simp_all add: second_def zero_time_def max_duration_def)
  then have "time_Add t d = zero_time + (?n div second * second + ?n mod second)"
    unfolding time_Add_def saturate64_def by simp
  then show ?thesis by (simp only: div_mult_mod_eq)
qed

definition sane_claims :: "token_claims \<Rightarrow> bool" where
  "sane_claims claims \<longleftrightarrow> pred_option sane_seconds (ExpiresAtClaim claims) \<and> pred_option sane_seconds (IssuedAt claims)
     \<and> pred_option sane_seconds (NotBefore claims)"

lemma claims_timely_sane:
  assumes "sane_claims claims" "ExpiresAtClaim claims = Some e" "IssuedAt claims = Some i"
    and "sane_seconds (now div second)" "0 \<le> ClockSkew c" "ClockSkew c \<le> max_duration"
  shows "claims_timely c now claims = Inr () \<longleftrightarrow> now \<le> e * second + ClockSkew c
     \<and> i * second \<le> now + ClockSkew c \<and> pred_option (\<lambda>n. n * second \<le> now + ClockSkew c) (NotBefore claims)"
proof -
  have e: "time_Add (time_from_Unix e) (ClockSkew c) = e * second + ClockSkew c"
    using assms by (subst time_Add_sane) (simp_all add: time_from_Unix_sane sane_claims_def second_def)
  have n: "time_Add now (ClockSkew c) = now + ClockSkew c"
    using assms by (simp add: time_Add_sane)
  have i: "time_from_Unix i = i * second" using assms by (simp add: time_from_Unix_sane sane_claims_def)
  have b: "time_from_Unix t = t * second" if "NotBefore claims = Some t" for t
    using assms that by (simp add: time_from_Unix_sane sane_claims_def)
  show ?thesis
    unfolding claims_timely_def assms(2,3) option.sel e n i rbind_Inr_iff guard_Inr_iff
    by (cases "NotBefore claims") (auto simp: b)
qed

section \<open>What a verified token says\<close>

lemma validateClaims_Inr:
  assumes "validateClaims env c claims s = (Inr p, s')"
  obtains now where "Now env (World s) = (now, World s')" "Cache s' = Cache s"
    "claims_timely c now claims = Inr ()" "claims_identity claims = Inr p"
    "ClaimIssuer claims = Issuer c" "Resource c \<in> set (ClaimAudience claims)" "Mode claims = ''access''"
    "ClaimType claims = ''user''" "ExpiresAtClaim claims \<noteq> None" "IssuedAt claims \<noteq> None"
proof -
  obtain now w where now: "Now env (World s) = (now, w)" by (rule prod.exhaust)
  with assms have "rbind (claims_timely c now claims) (\<lambda>_. claims_identity claims) = Inr p" "s' = s\<lparr>World := w\<rparr>"
    by (auto simp: validateClaims_def on_world_def split: if_splits)
  with now assms that show thesis
    by (auto simp: validateClaims_def rbind_Inr_iff split: if_splits)
qed

text \<open>A token accepted under \<open>claims\<close>: its parts, and the key that signed it.\<close>

definition token_accepted ::
  "('w, 'e) auth_env \<Rightarrow> auth_config \<Rightarrow> string \<Rightarrow> ec_point \<Rightarrow> string \<Rightarrow> token_claims \<Rightarrow> go_time \<Rightarrow> bool" where
  "token_accepted env c token key kid claims now \<longleftrightarrow>
     (\<exists>h p sig. token = h @ ''.'' @ p @ ''.'' @ sig \<and> token_key_id h = Inr kid
        \<and> verifyES256 env key (h @ ''.'' @ p) sig \<and> token_claims_of p = Inr claims)
     \<and> ClaimIssuer claims = Issuer c \<and> Resource c \<in> set (ClaimAudience claims)
     \<and> Mode claims = ''access'' \<and> ClaimType claims = ''user''
     \<and> ExpiresAtClaim claims \<noteq> None \<and> IssuedAt claims \<noteq> None \<and> claims_timely c now claims = Inr ()"

lemma token_parts_Inr: "token_parts token = Inr (h, p, sig) \<Longrightarrow> token = h @ ''.'' @ p @ ''.'' @ sig"
proof -
  assume "token_parts token = Inr (h, p, sig)"
  then have "Split token CHR ''.'' = [h, p, sig]"
    by (auto simp: token_parts_def split: list.splits)
  then show ?thesis using Join_Split [of token "CHR ''.''"] by simp
qed

lemma claims_identity_Inr:
  "claims_identity claims = Inr p \<longleftrightarrow>
     user_subject (ClaimSubject claims) = Some (PropUserID (Properties claims)) \<and> PropEmail (Properties claims) \<noteq> []
     \<and> p = \<lparr>Subject = ClaimSubject claims, UserID = PropUserID (Properties claims),
        PrincipalEmail = PropEmail (Properties claims), PrincipalName = PropName (Properties claims),
        Image = PropImage (Properties claims), Roles = ClaimRoles claims, Audiences = ClaimAudience claims\<rparr>"
  by (auto simp: claims_identity_def)

lemma Verify_cache_ok: "Verify env c token s = (r, s') \<Longrightarrow> cache_ok (Cache s) \<Longrightarrow> cache_ok (Cache s')"
  by (auto simp: Verify_def and_then_def validateClaims_def on_world_def
      split: prod.splits sum.splits if_splits dest: signingKey_cache_ok)

lemma Verify_accepts:
  assumes "Verify env c token s = (Inr p, s')" and "cache_ok (Cache s)"
  obtains key kid claims now w where "token_accepted env c token key kid claims now"
    "map_of (Keys (Cache s')) kid = Some key" "kid \<noteq> []" "on_p256 key" "claims_identity claims = Inr p"
    "Now env w = (now, World s')"
proof -
  from assms(1) obtain h pl sig kid key claims s1 where
    parts: "token_parts token = Inr (h, pl, sig)" "token_key_id h = Inr kid"
    and key: "signingKey env c kid s = (Inr key, s1)"
    and ok: "verifyES256 env key (h @ ''.'' @ pl) sig" "token_claims_of pl = Inr claims"
    and v: "validateClaims env c claims s1 = (Inr p, s')"
    by (auto simp: Verify_def and_then_Inr_iff guard_Inr_iff)
  note k = signingKey_Inr [OF key assms(2)]
  from v obtain now where now: "Now env (World s1) = (now, World s')" "Cache s' = Cache s1"
    "claims_timely c now claims = Inr ()" "claims_identity claims = Inr p"
    "ClaimIssuer claims = Issuer c" "Resource c \<in> set (ClaimAudience claims)" "Mode claims = ''access''"
    "ClaimType claims = ''user''" "ExpiresAtClaim claims \<noteq> None" "IssuedAt claims \<noteq> None"
    by (rule validateClaims_Inr)
  then have "token_accepted env c token key kid claims now"
    unfolding token_accepted_def using token_parts_Inr [OF parts(1)] parts(2) ok by auto
  with k now show thesis by (intro that) auto
qed

section \<open>A concrete client\<close>

definition idp_config :: auth_config where
  "idp_config = \<lparr>Issuer = ''https://a.b'', IssuerInternal = ''https://a.b'', AuthClientID = ''c'',
     Resource = ''https://r.b'', CallbackPath = ''/cb'', CookiePrefix = ''s'', SessionCookieDomain = [],
     Providers = [''google''], GatedPaths = [''/app/*''], LoginPath = ''/login'', LogoutPath = ''/logout'',
     LogoutRedirect = ''/'', AccessTokenMaxAge = 15 * minute, RefreshTokenMaxAge = 30 * 24 * hour,
     TransactionMaxAge = 10 * minute, ClockSkew = minute, JWKSCacheTTL = 10 * minute\<rparr>"

definition idp_key :: ec_point where
  "idp_key = (0x6b17d1f2e12c4247f8bce6e563a440f277037d812deb33a0f4a13945d898c296,
     0x4fe342e2fe1a7f9b8ee7eb4a7c0f9e162bce33576b315ececbb6406837bf51f5)"

definition idp_jwks :: string where
  "idp_jwks = ''{\"keys\":[{\"kty\":\"EC\",\"crv\":\"P-256\",\"alg\":\"ES256\",\"kid\":\"k\",''
     @ ''\"x\":\"axfR8uEsQkf4vOblY6RA8ncDfYEt6zOg9KE5RdiYwpY\",\"y\":\"T-NC4v4af5uO5-tKfA-eFivOM1drMV7Oy7ZAaDe_UfU\"}]}''"

text \<open>A token of the user issued at second 1; a server that knows the key set only; a clock that
  stands, and a signature check that accepts one signature.\<close>

definition idp_header :: string where
  "idp_header = ''{\"alg\":\"ES256\",\"kid\":\"k\"}''"

definition idp_payload :: "string \<Rightarrow> string" where
  "idp_payload iat = ''{\"iss\":\"https://a.b\",\"aud\":\"https://r.b\",\"mode\":\"access\",\"type\":\"user\",\"iat\":''
     @ iat @ '',\"exp\":60,\"sub\":\"user:01ARZ3NDEKTSV4RRFFQ69G5FAV\",''
     @ ''\"properties\":{\"userId\":\"01ARZ3NDEKTSV4RRFFQ69G5FAV\",\"email\":\"a@b\"}}''"

definition idp_token :: "string \<Rightarrow> string" where
  "idp_token iat = RawURLEncoding_encode idp_header @ ''.'' @ RawURLEncoding_encode (idp_payload iat)
     @ ''.'' @ RawURLEncoding_encode (replicate 64 (CHR 0x01))"

definition idp_server :: "string \<Rightarrow> (nat, string) http_server" where
  "idp_server token w request =
     (Inr \<lparr>StatusCode = 200, ResponseHeader = [],
        Body = (if Method request = ''GET'' then idp_jwks
          else ''{\"access_token\":\"'' @ token @ ''\",\"refresh_token\":\"r2\"}''), BodyError = None\<rparr>, Suc w)"

definition idp_env :: "go_time \<Rightarrow> (nat, string) auth_env" where
  "idp_env now = \<lparr>Server = idp_server (idp_token ''1''), Now = Pair now, ClientSecret = None,
     RandomBytes = Pair (Inr (replicate 32 (CHR 0x07))),
     ecdsa_Verify = (\<lambda>key digest rs. key = idp_key \<and> fst rs = snd rs)\<rparr>"

lemma idp_env_simps [simp]:
  "Now (idp_env now) = Pair now" "Server (idp_env now) = idp_server (idp_token ''1'')"
  "ClientSecret (idp_env now) = None" "RandomBytes (idp_env now) = Pair (Inr (replicate 32 (CHR 0x07)))"
  "ecdsa_Verify (idp_env now) key digest rs \<longleftrightarrow> key = idp_key \<and> fst rs = snd rs"
  by (simp_all add: idp_env_def)

definition idp_at :: "nat \<Rightarrow> nat auth_state" where
  "idp_at w = \<lparr>Cache = empty_cache, World = w\<rparr>"

definition idp_state :: "nat auth_state" where
  "idp_state = \<lparr>Cache = empty_cache, World = 0\<rparr>"

text \<open>The state after the keys have been fetched.\<close>

definition idp_fetched :: "go_time \<Rightarrow> nat \<Rightarrow> nat auth_state" where
  "idp_fetched now w = \<lparr>Cache = \<lparr>Keys = [(''k'', idp_key)], FetchedAt = now\<rparr>, World = w\<rparr>"

definition idp_principal :: principal where
  "idp_principal = \<lparr>Subject = ''user:01ARZ3NDEKTSV4RRFFQ69G5FAV'', UserID = ''01ARZ3NDEKTSV4RRFFQ69G5FAV'',
     PrincipalEmail = ''a@b'', PrincipalName = [], Image = [], Roles = [], Audiences = [''https://r.b'']\<rparr>"

lemma idp_collect: "Decode_into set_jwks (take maxJWKSBytes idp_jwks) [] =
    ([\<lparr>KeyType = ''EC'', Curve = ''P-256'', Alg = ''ES256'', Use = [], KeyID = ''k'',
       CoordX = ''axfR8uEsQkf4vOblY6RA8ncDfYEt6zOg9KE5RdiYwpY'', CoordY = ''T-NC4v4af5uO5-tKfA-eFivOM1drMV7Oy7ZAaDe_UfU''\<rparr>], True)"
proof -
  have "take maxJWKSBytes idp_jwks = idp_jwks" by (simp add: idp_jwks_def maxJWKSBytes_def)
  moreover have "Decode_into set_jwks idp_jwks [] =
    ([\<lparr>KeyType = ''EC'', Curve = ''P-256'', Alg = ''ES256'', Use = [], KeyID = ''k'',
       CoordX = ''axfR8uEsQkf4vOblY6RA8ncDfYEt6zOg9KE5RdiYwpY'', CoordY = ''T-NC4v4af5uO5-tKfA-eFivOM1drMV7Oy7ZAaDe_UfU''\<rparr>], True)"
    by code_simp
  ultimately show ?thesis by simp
qed

lemma idp_keys: "collect_keys [\<lparr>KeyType = ''EC'', Curve = ''P-256'', Alg = ''ES256'', Use = [], KeyID = ''k'',
       CoordX = ''axfR8uEsQkf4vOblY6RA8ncDfYEt6zOg9KE5RdiYwpY'', CoordY = ''T-NC4v4af5uO5-tKfA-eFivOM1drMV7Oy7ZAaDe_UfU''\<rparr>]
    = Inr [(''k'', idp_key)]"
  by code_simp

lemma idp_fetch: "fetchJWKS (idp_env now) idp_config w = (Inr [(''k'', idp_key)], Suc w)"
proof -
  have "NewRequest ''GET'' ''https://a.b/.well-known/jwks.json'' None =
      Some \<lparr>Method = ''GET'', RequestURL = ''https://a.b/.well-known/jwks.json'', RequestHeader = [], RequestBody = None\<rparr>"
    by code_simp
  then show ?thesis
    by (simp add: fetchJWKS_def idp_config_def idp_server_def idp_collect idp_keys)
qed

lemma idp_signingKey_at:
  "signingKey (idp_env now) idp_config ''k'' (idp_at w) = (Inr idp_key, idp_fetched now (Suc w))"
  by (simp add: signingKey_def on_world_def idp_at_def idp_fetched_def empty_cache_def idp_fetch)

lemma idp_state_at: "idp_state = idp_at 0"
  by (simp add: idp_state_def idp_at_def)

lemma idp_signingKey:
  "signingKey (idp_env now) idp_config ''k'' idp_state =
     (Inr idp_key, \<lparr>Cache = \<lparr>Keys = [(''k'', idp_key)], FetchedAt = now\<rparr>, World = 1\<rparr>)"
  by (simp add: idp_state_at idp_signingKey_at idp_fetched_def)

lemma idp_key_id: "token_key_id (RawURLEncoding_encode idp_header) = Inr ''k''"
  by code_simp

definition idp_claims :: token_claims where
  "idp_claims = empty_claims\<lparr>ClaimIssuer := ''https://a.b'', ClaimSubject := ''user:01ARZ3NDEKTSV4RRFFQ69G5FAV'',
     ClaimAudience := [''https://r.b''], Mode := ''access'', ClaimType := ''user'', IssuedAt := Some 1,
     ExpiresAtClaim := Some 60, Properties := \<lparr>PropUserID = ''01ARZ3NDEKTSV4RRFFQ69G5FAV'', PropEmail = ''a@b'',
     PropName = [], PropImage = []\<rparr>\<rparr>"

lemma idp_claims_of: "token_claims_of (RawURLEncoding_encode (idp_payload ''1'')) = Inr idp_claims"
proof -
  have "Unmarshal_into set_claims (idp_payload ''1'') empty_claims = (idp_claims, True)" by code_simp
  then show ?thesis by (simp add: token_claims_of_def b64url.dec_enc)
qed

lemma idp_Verify_at:
  "Verify (idp_env (59 * second)) idp_config (idp_token ''1'') (idp_at w) =
     (Inr idp_principal, idp_fetched (59 * second) (Suc w))"
proof -
  let ?sig = "RawURLEncoding_encode (replicate 64 (CHR 0x01))"
  have parts: "token_parts (idp_token ''1'') =
      Inr (RawURLEncoding_encode idp_header, RawURLEncoding_encode (idp_payload ''1''), ?sig)" by code_simp
  have sig: "verifyES256 (idp_env now) idp_key input ?sig" for now input
    by (simp add: verifyES256_def b64url.dec_enc)
  have claims: "claims_timely idp_config (59 * second) idp_claims = Inr ()"
    "claims_identity idp_claims = Inr idp_principal" by code_simp+
  have plain: "ClaimIssuer idp_claims = Issuer idp_config" "Resource idp_config \<in> set (ClaimAudience idp_claims)"
    "Mode idp_claims = ''access''" "ClaimType idp_claims = ''user''" "ExpiresAtClaim idp_claims = Some 60"
    "IssuedAt idp_claims = Some 1"
    by (simp_all add: idp_claims_def idp_config_def)
  show ?thesis
    using claims plain
    by (simp add: Verify_def and_then_def parts idp_key_id idp_signingKey_at sig idp_claims_of validateClaims_def on_world_def
        idp_fetched_def)
qed

lemma idp_Verify:
  "Verify (idp_env (59 * second)) idp_config (idp_token ''1'') idp_state =
     (Inr idp_principal, \<lparr>Cache = \<lparr>Keys = [(''k'', idp_key)], FetchedAt = 59 * second\<rparr>, World = 1\<rparr>)"
  by (simp add: idp_state_at idp_Verify_at idp_fetched_def)

section \<open>Properties\<close>

text \<open>C2: A token is accepted only when it has three segments of which the header names ES256 and a key id,
  the signature of the first two is valid under the key that the cache (afterwards) holds for this id, a
  point of the curve, and the claims name the configured issuer, the resource among the audiences, an
  access token of a user, and are timely at a reading of the clock; the principal is the one the claims
  name, its subject is \<open>user:\<close> and its id, and it has an email address. The cache stays well-formed.\<close>

theorem Verify_sound:
  assumes "Verify env c token s = (Inr p, s')" and "cache_ok (Cache s)"
  shows "(\<exists>key kid claims now w. token_accepted env c token key kid claims now
      \<and> map_of (Keys (Cache s')) kid = Some key \<and> on_p256 key
      \<and> claims_identity claims = Inr p \<and> Now env w = (now, World s'))
    \<and> user_subject (Subject p) = Some (UserID p) \<and> PrincipalEmail p \<noteq> [] \<and> Resource c \<in> set (Audiences p)
    \<and> cache_ok (Cache s')"
  using assms
proof (rule Verify_accepts)
  fix key kid claims now w
  assume a: "token_accepted env c token key kid claims now" "map_of (Keys (Cache s')) kid = Some key"
    "kid \<noteq> []" "on_p256 key" "claims_identity claims = Inr p" "Now env w = (now, World s')"
  then have "user_subject (Subject p) = Some (UserID p)" "PrincipalEmail p \<noteq> []" "Resource c \<in> set (Audiences p)"
    by (auto simp: claims_identity_Inr token_accepted_def)
  with a Verify_cache_ok [OF assms] show ?thesis by blast
qed

theorem Verify_sound_witness:
  "user_subject (Subject idp_principal) = Some (UserID idp_principal)"
  using Verify_sound [OF idp_Verify] by (simp add: idp_state_def)

text \<open>C36: For claims whose times are within 2 ^ 62 seconds of the epoch the checks are those of the
  specification: not expired, active and not issued in the future, each up to the clock skew, the bounds
  included.\<close>

theorem claims_timely_within_skew:
  assumes "sane_claims claims" "ExpiresAtClaim claims = Some e" "IssuedAt claims = Some i"
    and "sane_seconds (now div second)" "0 \<le> ClockSkew c" "ClockSkew c \<le> max_duration"
  shows "claims_timely c now claims = Inr () \<longleftrightarrow> now \<le> e * second + ClockSkew c
     \<and> i * second \<le> now + ClockSkew c \<and> pred_option (\<lambda>n. n * second \<le> now + ClockSkew c) (NotBefore claims)"
  using assms by (rule claims_timely_sane)

theorem claims_timely_within_skew_witness:
  "claims_timely idp_config (120 * second) idp_claims = Inr () \<and> claims_timely idp_config (120 * second + 1) idp_claims \<noteq> Inr ()"
proof -
  have s: "sane_claims idp_claims" "ExpiresAtClaim idp_claims = Some 60" "IssuedAt idp_claims = Some 1"
    "sane_seconds (120 * second div second)" "sane_seconds ((120 * second + 1) div second)"
    "0 \<le> ClockSkew idp_config" "ClockSkew idp_config \<le> max_duration"
    by (simp_all add: sane_claims_def sane_seconds_def idp_claims_def empty_claims_def second_def idp_config_def
        minute_def max_duration_def)
  have "60 * second + ClockSkew idp_config = 120 * second" "NotBefore idp_claims = None" "0 < second"
    by (simp_all add: second_def idp_config_def minute_def idp_claims_def empty_claims_def)
  then show ?thesis
    using claims_timely_within_skew [OF s(1-4,6,7)] claims_timely_within_skew [OF s(1-3,5-7)] by simp
qed

text \<open>A token issued, or active, only from a second within 62135596800 of 2 ^ 63 on (some 292 billion
  years ahead) is not refused for it: the instant wraps into the past.\<close>

theorem claims_far_future_accepted:
  assumes "ExpiresAtClaim claims = Some e" "IssuedAt claims = Some i" "2 ^ 63 - 62135596800 \<le> i" "i < 2 ^ 63"
    and "zero_time \<le> now" "0 \<le> ClockSkew c" "NotBefore claims = None \<or> NotBefore claims = Some i"
    and "\<not> time_Add (time_from_Unix e) (ClockSkew c) < now"
  shows "claims_timely c now claims = Inr ()"
proof -
  let ?j = "i + 62135596800 + 2 ^ 63"
  have "?j mod 2 ^ 64 = (?j - 2 ^ 64) mod 2 ^ 64" by (rule minus_mod_self2 [symmetric])
  also have "\<dots> = ?j - 2 ^ 64" using assms(3,4) by (intro mod_pos_pos_trivial) simp_all
  finally have "wrap64 (i + 62135596800) = i + 62135596800 - 2 ^ 64" by (simp add: wrap64_def)
  then have past: "time_from_Unix i < zero_time"
    using assms(4) by (simp add: time_from_Unix_def second_def)
  have "zero_time \<le> time_Add now (ClockSkew c)"
    using assms(5,6) by (auto simp: time_Add_def saturate64_def second_def pos_imp_zdiv_nonneg_iff)
  with past have "\<not> time_Add now (ClockSkew c) < time_from_Unix i" by simp
  with assms show ?thesis by (auto simp: claims_timely_def)
qed

theorem claims_far_future_accepted_witness:
  "claims_timely idp_config (59 * second)
     (idp_claims\<lparr>IssuedAt := Some 9223372036854775807, NotBefore := Some 9223372036854775807\<rparr>) = Inr ()"
proof -
  have "\<not> time_Add (time_from_Unix 60) (ClockSkew idp_config) < 59 * second" "zero_time \<le> 59 * second"
    "0 \<le> ClockSkew idp_config"
    by (simp_all add: time_Add_def time_from_Unix_def saturate64_def wrap64_def zero_time_def second_def
        idp_config_def minute_def)
  then show ?thesis
    by (intro claims_far_future_accepted [where e = 60 and i = 9223372036854775807]) (simp_all add: idp_claims_def)
qed

text \<open>A lookup of a signing key fails in two ways only. Either the document just fetched, which replaces
  the cache, lacks the id, or no document could be fetched and the cache, which is kept, lacks it: a key in
  the cache survives an outage of the issuer.\<close>

theorem signingKey_errors:
  assumes "signingKey env c kid s = (Inl e, s')"
  shows "(auth_IsCode (Some e) AInvalidSignature \<and> map_of (Keys (Cache s')) kid = None
        \<and> (\<exists>now w. Now env (World s) = (now, w) \<and> FetchedAt (Cache s') = now
            \<and> fetchJWKS env c w = (Inr (Keys (Cache s')), World s')))
    \<or> (auth_IsCode (Some e) AJWKSUnavailable \<and> map_of (Keys (Cache s)) kid = None \<and> Cache s' = Cache s)"
  using assms by (cases rule: signingKey_cases) (auto split: option.splits)

theorem signingKey_errors_witness:
  "auth_IsCode (Some (auth_errorf AInvalidSignature ''token key ID is not published'')) AInvalidSignature
   \<and> map_of (Keys (Cache (snd (signingKey (idp_env 0) idp_config ''other'' idp_state)))) ''other'' = None"
proof -
  have r: "signingKey (idp_env 0) idp_config ''other'' idp_state =
      (Inl (auth_errorf AInvalidSignature ''token key ID is not published''),
       \<lparr>Cache = \<lparr>Keys = [(''k'', idp_key)], FetchedAt = 0\<rparr>, World = 1\<rparr>)"
    by (simp add: signingKey_def on_world_def idp_state_def empty_cache_def idp_fetch)
  show ?thesis using signingKey_errors [OF r] unfolding r by simp
qed

text \<open>What the cache is an implementation of: a store that holds the last document and its age.\<close>

type_synonym key_store = "(string \<rightharpoonup> ec_point) \<times> go_time"

definition store_of :: "'w auth_state \<Rightarrow> key_store" where
  "store_of s = (map_of (Keys (Cache s)), FetchedAt (Cache s))"

definition published :: "('w, 'e) auth_env \<Rightarrow> auth_config \<Rightarrow> 'w \<Rightarrow> (string \<rightharpoonup> ec_point) option" where
  "published env c w = (case fst (fetchJWKS env c w) of Inl e \<Rightarrow> None | Inr ks \<Rightarrow> Some (map_of ks))"

definition store_lookup ::
  "go_duration \<Rightarrow> go_time \<Rightarrow> (string \<rightharpoonup> ec_point) option \<Rightarrow> string \<Rightarrow> key_store \<Rightarrow> ec_point option \<times> key_store" where
  "store_lookup ttl now doc kid store =
     (case store of (m, t) \<Rightarrow>
        if m kid \<noteq> None \<and> now \<le> t + ttl then (m kid, store)
        else (case doc of Some d \<Rightarrow> (d kid, (d, now)) | None \<Rightarrow> (m kid, store)))"

definition found :: "'e + 'a \<Rightarrow> 'a option" where
  "found r = (case r of Inl e \<Rightarrow> None | Inr a \<Rightarrow> Some a)"

text \<open>C18: Each lookup of a signing key is the lookup of the abstract key store, whatever the order of the
  association list and the duplicates in the document: the result, the new document and its age agree.\<close>

theorem signingKey_refines_store:
  assumes "0 < JWKSCacheTTL c" "JWKSCacheTTL c < max_duration"
    and "signingKey env c kid s = (r, s')" "Now env (World s) = (now, w)"
  shows "(found r, store_of s') = store_lookup (JWKSCacheTTL c) now (published env c w) kid (store_of s)"
proof -
  have age: "time_Sub now t \<le> JWKSCacheTTL c \<longleftrightarrow> now \<le> t + JWKSCacheTTL c" for t
    using time_Sub_gt_iff [OF assms(1,2), of now t] by linarith
  obtain fr w2 where fr: "fetchJWKS env c w = (fr, w2)" by (rule prod.exhaust)
  show ?thesis
    using assms(3,4) fr age [of "FetchedAt (Cache s)"]
    by (cases fr)
      (auto simp: signingKey_def on_world_def Let_def store_lookup_def store_of_def found_def published_def
        split: option.splits if_splits)
qed

theorem signingKey_refines_store_witness:
  "found (Inr idp_key :: auth_error + ec_point) =
     fst (store_lookup (JWKSCacheTTL idp_config) 0 (published (idp_env 0) idp_config (0 :: nat)) ''k'' (store_of idp_state))"
proof -
  have "0 < JWKSCacheTTL idp_config" "JWKSCacheTTL idp_config < max_duration" by code_simp+
  then have "(found (Inr idp_key :: auth_error + ec_point), store_of \<lparr>Cache = \<lparr>Keys = [(''k'', idp_key)], FetchedAt = 0\<rparr>, World = 1 :: nat\<rparr>)
      = store_lookup (JWKSCacheTTL idp_config) 0 (published (idp_env 0) idp_config 0) ''k'' (store_of idp_state)"
    by (rule signingKey_refines_store [OF _ _ idp_signingKey]) (simp add: idp_state_def)
  then show ?thesis by (metis fst_conv)
qed

end
