(* ===== verification/Auth_Flow.thy ===== *)
theory Auth_Flow
  imports Auth_Verify Go_Path
begin

text \<open>
  Package \<open>auth\<close>: the authorization request (\<open>authorize.go\<close>) and the token requests (\<open>tokens.go\<close>).
\<close>

section \<open>authorize.go\<close>

definition randomBase64URL :: "('w, 'e) auth_env \<Rightarrow> 'w \<Rightarrow> ('e + string) \<times> 'w" where
  "randomBase64URL env w =
     (case RandomBytes env w of
        (Inl e, w1) \<Rightarrow> (Inl e, w1)
      | (Inr bytes, w1) \<Rightarrow> (Inr (RawURLEncoding_encode bytes), w1))"

definition code_challenge :: "string \<Rightarrow> string" where
  "code_challenge verifier = RawURLEncoding_encode (sha256 verifier)"

definition callback_uri :: "auth_config \<Rightarrow> url \<Rightarrow> string" where
  "callback_uri c origin =
     url_String (empty_url\<lparr>url_Scheme := url_Scheme origin, Host := Host origin, url_Path := CallbackPath c\<rparr>)"

definition authorize_query :: "auth_config \<Rightarrow> transaction \<Rightarrow> (string, string list) go_map" where
  "authorize_query c t =
     (let issuerProvider = (if Provider t = ''email-code'' then ''code'' else Provider t) in
      [(''response_type'', [''code'']), (''client_id'', [AuthClientID c]), (''redirect_uri'', [CallbackURI t]),
       (''scope'', [''openid email profile'']), (''state'', [State t]), (''code_challenge'', [Challenge t]),
       (''code_challenge_method'', [''S256'']), (''resource'', [Resource c])]
      @ (if issuerProvider \<noteq> [] then [(''provider'', [issuerProvider])] else []))"

text \<open>The URL of the issuer is parsed without a look at the error.\<close>

definition Authorize ::
  "('w, 'e) auth_env \<Rightarrow> auth_config \<Rightarrow> url option \<Rightarrow> string \<Rightarrow> string \<Rightarrow> 'w \<Rightarrow> (auth_error + url \<times> transaction) \<times> 'w" where
  "Authorize env c origin provider redirectPath w =
     (case origin of
        None \<Rightarrow> (Inl (auth_errorf AInvalidConfig ''origin must be an absolute HTTP URL''), w)
      | Some o' \<Rightarrow>
          if Host o' = [] \<or> \<not> http_scheme (url_Scheme o')
          then (Inl (auth_errorf AInvalidConfig ''origin must be an absolute HTTP URL''), w)
          else if provider \<noteq> [] \<and> provider \<notin> set (Providers c)
          then (Inl (auth_errorf AInvalidProvider ''provider is not configured''), w)
          else (case randomBase64URL env w of
             (Inl e, w1) \<Rightarrow> (Inl (auth_errorf AInvalidConfig ''generate PKCE verifier: %v''), w1)
           | (Inr verifier, w1) \<Rightarrow>
               (case randomBase64URL env w1 of
                  (Inl e, w2) \<Rightarrow> (Inl (auth_errorf AInvalidConfig ''generate state: %v''), w2)
                | (Inr state, w2) \<Rightarrow>
                    (case Now env w2 of (now, w3) \<Rightarrow>
                      (let t = \<lparr>Verifier = verifier, Challenge = code_challenge verifier, State = state,
                             RedirectPath = safeRedirect redirectPath, Provider = provider,
                             CallbackURI = callback_uri c o', ExpiresAt = time_Add now (TransactionMaxAge c)\<rparr>
                       in case url_Parse (Issuer c @ ''/authorize'') of
                            None \<Rightarrow> (Inl (Coded APanic None), w3)
                          | Some u \<Rightarrow> (Inr (u\<lparr>RawQuery := Values_Encode (authorize_query c t)\<rparr>, t), w3))))))"

section \<open>tokens.go\<close>

record exchange_request =
  Code :: string
  RequestState :: string
  Transaction :: transaction

definition bounded :: "string \<Rightarrow> nat \<Rightarrow> string" where
  "bounded v maximum = (if length v \<le> maximum then v else take maximum v)"

definition constantTimeEqual :: "string \<Rightarrow> string \<Rightarrow> bool" where
  "constantTimeEqual left right \<longleftrightarrow> length left = length right \<and> left = right"

definition maxTokenResponseBytes :: nat where "maxTokenResponseBytes = 1048576"

record oauth_error_body =
  BodyErrorCode :: string
  BodyDescription :: string

definition set_oauth_error :: "oauth_error_body setter" where
  "set_oauth_error = set_struct False
    [(''error'', set_string (\<lambda>v. BodyErrorCode_update (\<lambda>_. v))),
     (''error_description'', set_string (\<lambda>v. BodyDescription_update (\<lambda>_. v)))]"

definition decodeOAuthError :: "'e http_response \<Rightarrow> auth_error" where
  "decodeOAuthError response =
     (case Decode_into set_oauth_error (take maxTokenResponseBytes (Body response))
        \<lparr>BodyErrorCode = [], BodyDescription = []\<rparr> of
        (body, ok) \<Rightarrow>
          if \<not> ok \<or> BodyErrorCode body = [] then auth_errorf AInvalidResponse ''issuer returned HTTP %d''
          else OAuthError (StatusCode response) (bounded (BodyErrorCode body) 128)
            (bounded (BodyDescription body) 512))"

text \<open>The secret, or \<open>None\<close> for a public client.\<close>

definition resolveSecret :: "('w, 'e) auth_env \<Rightarrow> 'w \<Rightarrow> (auth_error + string option) \<times> 'w" where
  "resolveSecret env w =
     (case ClientSecret env of
        None \<Rightarrow> (Inr None, w)
      | Some resolve \<Rightarrow>
          (case resolve w of
             (Inr (c # secret), w1) \<Rightarrow> (Inr (Some (c # secret)), w1)
           | (_, w1) \<Rightarrow> (Inl (auth_errorf ASecretUnavailable ''confidential client secret is unavailable''), w1)))"

definition form_request :: "auth_config \<Rightarrow> string \<Rightarrow> (string, string list) go_map \<Rightarrow> string option \<Rightarrow> http_request option" where
  "form_request c path form secret =
     map_option (\<lambda>r.
         (let r1 = set_header ''Content-Type'' ''application/x-www-form-urlencoded'' r in
          case secret of
            None \<Rightarrow> r1
          | Some sec \<Rightarrow> set_header ''Authorization''
              (''Basic '' @ StdEncoding_encode (QueryEscape (AuthClientID c) @ '':'' @ QueryEscape sec)) r1))
       (NewRequest ''POST'' (IssuerInternal c @ path) (Some (Values_Encode form)))"

definition postFormResolved ::
  "('w, 'e) auth_env \<Rightarrow> auth_config \<Rightarrow> string \<Rightarrow> (string, string list) go_map \<Rightarrow> string option \<Rightarrow> 'w
   \<Rightarrow> (auth_error + 'e http_response) \<times> 'w" where
  "postFormResolved env c path form secret w =
     (case form_request c path form secret of
        None \<Rightarrow> (Inl (auth_errorf AIssuerUnavailable ''build issuer request: %v''), w)
      | Some request \<Rightarrow>
          (case Server env w request of
             (Inl e, w1) \<Rightarrow> (Inl (auth_errorf AIssuerUnavailable ''issuer request failed: %v''), w1)
           | (Inr response, w1) \<Rightarrow> (Inr response, w1)))"

definition postForm ::
  "('w, 'e) auth_env \<Rightarrow> auth_config \<Rightarrow> string \<Rightarrow> (string, string list) go_map \<Rightarrow> 'w
   \<Rightarrow> (auth_error + 'e http_response) \<times> 'w" where
  "postForm env c path form = and_then (resolveSecret env) (\<lambda>secret. postFormResolved env c path form secret)"

definition set_tokens :: "tokens setter" where
  "set_tokens = set_struct False
    [(''access_token'', set_string (\<lambda>v. AccessToken_update (\<lambda>_. v))),
     (''refresh_token'', set_string (\<lambda>v. RefreshToken_update (\<lambda>_. v)))]"

definition issuer_success :: "int \<Rightarrow> bool" where
  "issuer_success code \<longleftrightarrow> 200 \<le> code \<and> code < 300"

definition token_response :: "'e http_response \<Rightarrow> auth_error + tokens" where
  "token_response response =
     (if \<not> issuer_success (StatusCode response) then Inl (decodeOAuthError response)
      else (case Decode_into set_tokens (take maxTokenResponseBytes (Body response))
          \<lparr>AccessToken = [], RefreshToken = []\<rparr> of
         (body, ok) \<Rightarrow>
           if \<not> ok then Inl (auth_errorf AInvalidResponse ''decode token response: %v'')
           else if AccessToken body = [] \<or> RefreshToken body = []
           then Inl (auth_errorf AInvalidResponse ''token response is missing tokens'')
           else Inr body))"

definition requestTokensResolved ::
  "('w, 'e) auth_env \<Rightarrow> auth_config \<Rightarrow> (string, string list) go_map \<Rightarrow> string option \<Rightarrow> 'w auth_state
   \<Rightarrow> (auth_error + tokens \<times> principal) \<times> 'w auth_state" where
  "requestTokensResolved env c form secret =
     and_then (on_world (postFormResolved env c ''/token'' form secret)) (\<lambda>response.
     and_then (Pair (token_response response)) (\<lambda>body.
     and_then (Verify env c (AccessToken body)) (\<lambda>p. Pair (Inr (body, p)))))"

definition requestTokens ::
  "('w, 'e) auth_env \<Rightarrow> auth_config \<Rightarrow> (string, string list) go_map \<Rightarrow> 'w auth_state
   \<Rightarrow> (auth_error + tokens \<times> principal) \<times> 'w auth_state" where
  "requestTokens env c form =
     and_then (on_world (resolveSecret env)) (\<lambda>secret. requestTokensResolved env c form secret)"

definition exchange_form :: "auth_config \<Rightarrow> exchange_request \<Rightarrow> (string, string list) go_map" where
  "exchange_form c r =
     [(''grant_type'', [''authorization_code'']), (''code'', [Code r]),
      (''code_verifier'', [Verifier (Transaction r)]), (''redirect_uri'', [CallbackURI (Transaction r)]),
      (''client_id'', [AuthClientID c]), (''resource'', [Resource c])]"

definition Exchange ::
  "('w, 'e) auth_env \<Rightarrow> auth_config \<Rightarrow> exchange_request \<Rightarrow> 'w auth_state
   \<Rightarrow> (auth_error + tokens \<times> principal) \<times> 'w auth_state" where
  "Exchange env c r s =
     (let t = Transaction r; expired = Inl (auth_errorf AInvalidState ''authorization transaction is expired'') in
      if Code r = [] \<or> Verifier t = []
      then (Inl (auth_errorf AMissingPKCE ''authorization code and PKCE verifier are required''), s)
      else if State t = [] \<or> \<not> constantTimeEqual (RequestState r) (State t)
      then (Inl (auth_errorf AInvalidState ''callback state does not match''), s)
      else if ExpiresAt t = zero_time then (expired, s)
      else (case on_world (Now env) s of (now, s1) \<Rightarrow>
          if ExpiresAt t < now then (expired, s1) else requestTokens env c (exchange_form c r) s1))"

definition refresh_form :: "auth_config \<Rightarrow> string \<Rightarrow> (string, string list) go_map" where
  "refresh_form c refreshToken =
     [(''grant_type'', [''refresh_token'']), (''refresh_token'', [refreshToken]),
      (''client_id'', [AuthClientID c]), (''resource'', [Resource c])]"

definition Refresh ::
  "('w, 'e) auth_env \<Rightarrow> auth_config \<Rightarrow> string \<Rightarrow> 'w auth_state \<Rightarrow> (auth_error + tokens \<times> principal) \<times> 'w auth_state" where
  "Refresh env c refreshToken s =
     (if refreshToken = [] then (Inl (auth_errorf AInvalidToken ''refresh token is required''), s)
      else requestTokens env c (refresh_form c refreshToken) s)"

definition refreshWithSecret ::
  "('w, 'e) auth_env \<Rightarrow> auth_config \<Rightarrow> string \<Rightarrow> string option \<Rightarrow> 'w auth_state
   \<Rightarrow> (auth_error + tokens \<times> principal) \<times> 'w auth_state" where
  "refreshWithSecret env c refreshToken secret = requestTokensResolved env c (refresh_form c refreshToken) secret"

definition revoke_form :: "auth_config \<Rightarrow> string \<Rightarrow> (string, string list) go_map" where
  "revoke_form c refreshToken =
     [(''token'', [refreshToken]), (''token_type_hint'', [''refresh_token'']), (''client_id'', [AuthClientID c])]"

definition revokeWithSecret ::
  "('w, 'e) auth_env \<Rightarrow> auth_config \<Rightarrow> string \<Rightarrow> string option \<Rightarrow> 'w \<Rightarrow> auth_error option \<times> 'w" where
  "revokeWithSecret env c refreshToken secret w =
     (case postFormResolved env c ''/revoke'' (revoke_form c refreshToken) secret w of
        (Inl e, w1) \<Rightarrow> (Some e, w1)
      | (Inr response, w1) \<Rightarrow>
          ((if issuer_success (StatusCode response) then None else Some (decodeOAuthError response)), w1))"

definition Revoke :: "('w, 'e) auth_env \<Rightarrow> auth_config \<Rightarrow> string \<Rightarrow> 'w \<Rightarrow> auth_error option \<times> 'w" where
  "Revoke env c refreshToken w =
     (if refreshToken = [] then (None, w)
      else (case resolveSecret env w of
         (Inl e, w1) \<Rightarrow> (Some e, w1)
       | (Inr secret, w1) \<Rightarrow> revokeWithSecret env c refreshToken secret w1))"

section \<open>What the requests carry\<close>

lemma safeRedirect_valid: "validAbsolutePath (safeRedirect p)"
proof -
  have "validAbsolutePath ''/''" by code_simp
  then show ?thesis by (simp add: safeRedirect_def)
qed

lemma Authorize_Inr:
  assumes "Authorize env c origin provider redirectPath w = (Inr (u, t), w')"
  obtains o' verifier state w1 w2 now u0 where "origin = Some o'" "Host o' \<noteq> []" "http_scheme (url_Scheme o')"
    "provider = [] \<or> provider \<in> set (Providers c)" "randomBase64URL env w = (Inr verifier, w1)"
    "randomBase64URL env w1 = (Inr state, w2)" "Now env w2 = (now, w')"
    "t = \<lparr>Verifier = verifier, Challenge = code_challenge verifier, State = state,
       RedirectPath = safeRedirect redirectPath, Provider = provider, CallbackURI = callback_uri c o',
       ExpiresAt = time_Add now (TransactionMaxAge c)\<rparr>"
    "url_Parse (Issuer c @ ''/authorize'') = Some u0" "u = u0\<lparr>RawQuery := Values_Encode (authorize_query c t)\<rparr>"
  using assms
  by (auto simp: Authorize_def Let_def split: option.splits if_splits prod.splits sum.splits)

lemma authorize_query_values:
  assumes "map_of (authorize_query c t) k = Some [v]"
  shows "Values_Get (ParseQuery (Values_Encode (authorize_query c t))) k = v"
  by (rule Values_Get_Encode [OF _ _ assms]) (auto simp: authorize_query_def Let_def)

text \<open>C23: An authorization request that is built carries the state and the redirect URI of its transaction and
  the S256 challenge of its verifier, for the configured client and resource; verifier and state are
  encodings of two separate readings of random bytes, the provider is a configured one or left to the
  issuer, and the path to return to is local.\<close>

theorem Authorize_request:
  assumes "Authorize env c origin provider redirectPath w = (Inr (u, t), w')"
  shows "(let get = Values_Get (url_Query u) in
      get ''state'' = State t \<and> get ''redirect_uri'' = CallbackURI t
      \<and> get ''code_challenge'' = RawURLEncoding_encode (sha256 (Verifier t)) \<and> get ''code_challenge_method'' = ''S256''
      \<and> get ''response_type'' = ''code'' \<and> get ''client_id'' = AuthClientID c \<and> get ''resource'' = Resource c)
    \<and> (\<exists>b b' w1 w2. RandomBytes env w = (Inr b, w1) \<and> RandomBytes env w1 = (Inr b', w2)
        \<and> Verifier t = RawURLEncoding_encode b \<and> State t = RawURLEncoding_encode b')
    \<and> (Provider t = [] \<or> Provider t \<in> set (Providers c)) \<and> validAbsolutePath (RedirectPath t)"
  using assms
proof (rule Authorize_Inr)
  fix o' verifier state w1 w2 now u0
  assume a: "provider = [] \<or> provider \<in> set (Providers c)" "randomBase64URL env w = (Inr verifier, w1)"
    "randomBase64URL env w1 = (Inr state, w2)"
    "t = \<lparr>Verifier = verifier, Challenge = code_challenge verifier, State = state,
       RedirectPath = safeRedirect redirectPath, Provider = provider, CallbackURI = callback_uri c o',
       ExpiresAt = time_Add now (TransactionMaxAge c)\<rparr>"
    "u = u0\<lparr>RawQuery := Values_Encode (authorize_query c t)\<rparr>"
  have get: "map_of (authorize_query c t) k = Some [v] \<Longrightarrow> Values_Get (url_Query u) k = v" for k v
    unfolding a(5) by (simp add: url_Query_def authorize_query_values)
  have "Challenge t = RawURLEncoding_encode (sha256 (Verifier t))" by (simp add: a(4) code_challenge_def)
  then have "let get = Values_Get (url_Query u) in
      get ''state'' = State t \<and> get ''redirect_uri'' = CallbackURI t
      \<and> get ''code_challenge'' = RawURLEncoding_encode (sha256 (Verifier t)) \<and> get ''code_challenge_method'' = ''S256''
      \<and> get ''response_type'' = ''code'' \<and> get ''client_id'' = AuthClientID c \<and> get ''resource'' = Resource c"
    unfolding Let_def by (intro conjI get) (simp_all add: authorize_query_def Let_def)
  moreover have "\<exists>b b' w1 w2. RandomBytes env w = (Inr b, w1) \<and> RandomBytes env w1 = (Inr b', w2)
        \<and> Verifier t = RawURLEncoding_encode b \<and> State t = RawURLEncoding_encode b'"
    using a(2-4) by (auto simp: randomBase64URL_def split: prod.splits sum.splits)
  ultimately show ?thesis using a(1,4) safeRedirect_valid by simp
qed

definition idp_origin :: url where
  "idp_origin = empty_url\<lparr>url_Scheme := ''https'', Host := ''app.b''\<rparr>"

definition idp_transaction :: transaction where
  "idp_transaction = (let v = RawURLEncoding_encode (replicate 32 (CHR 0x07)) in
     \<lparr>Verifier = v, Challenge = code_challenge v, State = v, RedirectPath = ''/'', Provider = [],
      CallbackURI = ''https://app.b/cb'', ExpiresAt = 600 * second\<rparr>)"

lemma idp_Authorize:
  "\<exists>u. Authorize (idp_env 0) idp_config (Some idp_origin) [] [] (0 :: nat) = (Inr (u, idp_transaction), 0)"
proof -
  have p: "url_Parse (''https://a.b'' @ ''/authorize'') \<noteq> None" by code_simp
  have t: "callback_uri idp_config idp_origin = ''https://app.b/cb''" "safeRedirect [] = ''/''"
    "time_Add 0 (10 * minute) = 600 * second" by code_simp+
  have "Host idp_origin \<noteq> []" "http_scheme (url_Scheme idp_origin)" by (simp_all add: idp_origin_def http_scheme_def empty_url_def)
  then show ?thesis
    using p t by (auto simp: Authorize_def randomBase64URL_def idp_transaction_def Let_def) (auto simp: idp_config_def)
qed

theorem Authorize_request_witness:
  "\<exists>u. Values_Get (url_Query u) ''state'' = RawURLEncoding_encode (replicate 32 (CHR 0x07))
     \<and> fst (Authorize (idp_env 0) idp_config (Some idp_origin) [] [] (0 :: nat)) = Inr (u, idp_transaction)"
proof -
  obtain u where u: "Authorize (idp_env 0) idp_config (Some idp_origin) [] [] (0 :: nat) = (Inr (u, idp_transaction), 0)"
    using idp_Authorize by blast
  then show ?thesis using Authorize_request [OF u] by (auto simp: idp_transaction_def Let_def)
qed

text \<open>What an issuer's refusal shows is bounded.\<close>

lemma decodeOAuthError_bounded:
  "decodeOAuthError response = Coded (AOAuth status code description) None \<Longrightarrow>
     length code \<le> 128 \<and> length description \<le> 512 \<and> code \<noteq> [] \<and> status = StatusCode response"
  by (auto simp: decodeOAuthError_def OAuthError_def auth_errorf_def coded_def bounded_def split: prod.splits if_splits)

end
