(* ===== verification/Auth_Http.thy ===== *)
theory Auth_Http
  imports Auth_Flow
begin

text \<open>
  Package \<open>auth\<close>: the handlers of \<open>http.go\<close>. A handler gives the cookies it sets, in order, and one
  outcome; the cookies of a request that is handed on are those set before. The bodies and the caching
  headers of the refusals are not modelled.
\<close>

section \<open>Redirects\<close>

text \<open>\<open>http.Redirect\<close>: a location without scheme and host is made absolute by the request's path and
  cleaned up to its query; bytes that are not ASCII are percent-encoded.\<close>

definition hexEscapeNonASCII :: "string \<Rightarrow> string" where
  "hexEscapeNonASCII s =
     concat (map (\<lambda>c. if of_byte c < (0x80 :: nat) then [c]
        else [CHR ''%'', lower_hex_digit (of_byte c div 16), lower_hex_digit (of_byte c mod 16)]) s)"

definition path_dir :: "string \<Rightarrow> string" where
  "path_dir p = rev (dropWhile (\<lambda>c. c \<noteq> CHR ''/'') (rev p))"

definition clean_location :: "string \<Rightarrow> string" where
  "clean_location p =
     (let q = Clean p in if HasSuffix p ''/'' \<and> \<not> HasSuffix q ''/'' then q @ ''/'' else q)"

definition absolute_location :: "string \<Rightarrow> string \<Rightarrow> string" where
  "absolute_location oldpath target =
     (let full = (if HasPrefix target ''/'' then target
                  else path_dir (if oldpath = [] then ''/'' else oldpath) @ target)
      in clean_location (takeWhile (\<lambda>c. c \<noteq> CHR ''?'') full) @ dropWhile (\<lambda>c. c \<noteq> CHR ''?'') full)"

definition redirect_location :: "string \<Rightarrow> string \<Rightarrow> string" where
  "redirect_location oldpath target =
     hexEscapeNonASCII
       (case url_Parse target of
          None \<Rightarrow> target
        | Some u \<Rightarrow> if url_Scheme u = [] \<and> Host u = [] then absolute_location oldpath target else target)"

datatype auth_outcome =
    Served "principal option"
  | Redirected string
  | Refused int string
  | Unavailable bool

definition http_Redirect :: "http_in \<Rightarrow> string \<Rightarrow> auth_outcome" where
  "http_Redirect request target = Redirected (redirect_location (url_Path (InURL request)) target)"

section \<open>http.go\<close>

definition acceptsJSON :: "http_in \<Rightarrow> bool" where
  "acceptsJSON request \<longleftrightarrow>
     list_ex (\<lambda>part. fold_key (TrimSpace (fst (cut CHR '';'' part))) = fold_key ''application/json'')
       (Split (InAccept request) CHR '','')"

definition writeServiceUnavailable :: "http_in \<Rightarrow> auth_outcome" where
  "writeServiceUnavailable request = Unavailable (acceptsJSON request)"

definition login_url :: "auth_config \<Rightarrow> string \<Rightarrow> string \<Rightarrow> string" where
  "login_url c k v = LoginPath c @ ''?'' @ Values_Encode [(k, [v])]"

definition redirectLoginFailure :: "auth_config \<Rightarrow> http_in \<Rightarrow> auth_outcome" where
  "redirectLoginFailure c request = http_Redirect request (login_url c ''error'' ''auth_failed'')"

definition query_value :: "http_in \<Rightarrow> string \<Rightarrow> string" where
  "query_value request k = Values_Get (url_Query (InURL request)) k"

definition Callback ::
  "('w, 'e) auth_env \<Rightarrow> auth_config \<Rightarrow> http_in \<Rightarrow> 'w auth_state \<Rightarrow> (cookie list \<times> auth_outcome) \<times> 'w auth_state" where
  "Callback env c request s =
     (let state = query_value request ''state'';
          storedState = readCookie request (cookieName c ''state'');
          invalid = Refused 403 ''Invalid state parameter''
      in
      if state = [] \<or> storedState = [] \<or> \<not> constantTimeEqual state storedState then (([], invalid), s)
      else (case on_world (TransactionFromRequest (Now env) c request) s of
           (Inl e, s1) \<Rightarrow>
             (([], if auth_IsCode (Some e) AInvalidState then invalid else Refused 400 ''Missing PKCE verifier''), s1)
         | (Inr t, s1) \<Rightarrow>
             if query_value request ''error'' \<noteq> [] \<or> query_value request ''code'' = []
             then (([], redirectLoginFailure c request), s1)
             else (case Exchange env c \<lparr>Code = query_value request ''code'',
                     RequestState = query_value request ''state'', Transaction = t\<rparr> s1 of
                (Inl e, s2) \<Rightarrow>
                  (([], if auth_IsCode (Some e) AInvalidState then invalid
                        else if auth_IsCode (Some e) ASecretUnavailable then writeServiceUnavailable request
                        else redirectLoginFailure c request), s2)
              | (Inr (tokens, p), s2) \<Rightarrow>
                  ((SetSessionCookies c tokens @ ClearTransactionCookies c,
                    http_Redirect request (safeRedirect (RedirectPath t))), s2))))"

definition Logout ::
  "('w, 'e) auth_env \<Rightarrow> auth_config \<Rightarrow> http_in \<Rightarrow> 'w \<Rightarrow> (cookie list \<times> auth_outcome) \<times> 'w" where
  "Logout env c request w =
     (let refreshToken = snd (SessionTokens c request);
          cookies = ClearSessionCookies c @ ClearTransactionCookies c;
          done = http_Redirect request (safeRedirect (LogoutRedirect c))
      in
      if refreshToken = [] then ((cookies, done), w)
      else (case resolveSecret env w of
         (Inl e, w1) \<Rightarrow> ((cookies, writeServiceUnavailable request), w1)
       | (Inr secret, w1) \<Rightarrow> ((cookies, done), snd (revokeWithSecret env c refreshToken secret w1))))"

definition isAuthRoute :: "auth_config \<Rightarrow> string \<Rightarrow> bool" where
  "isAuthRoute c path \<longleftrightarrow> path = CallbackPath c \<or> path = LoginPath c \<or> path = LogoutPath c"

definition isGated :: "auth_config \<Rightarrow> string \<Rightarrow> bool" where
  "isGated c path \<longleftrightarrow>
     list_ex (\<lambda>pattern. if HasSuffix pattern ''/*'' then HasPrefix path (TrimSuffix pattern ''*'')
        else path = pattern) (GatedPaths c)"

definition gatedRedirectTarget :: "http_in \<Rightarrow> string" where
  "gatedRedirectTarget request =
     (let target = takeWhile (\<lambda>c. c \<noteq> CHR ''#'') (RequestURI (InURL request)) in
      if validAbsolutePath target then target else url_Path (InURL request))"

text \<open>The middleware in its steps: the secret when a refresh may need it, the principal of the access
  token, the refresh, the gate.\<close>

definition middleware_secret ::
  "('w, 'e) auth_env \<Rightarrow> string \<Rightarrow> 'w auth_state \<Rightarrow> (auth_error + string option) \<times> 'w auth_state" where
  "middleware_secret env refreshToken s =
     (if refreshToken \<noteq> [] \<and> ClientSecret env \<noteq> None then on_world (resolveSecret env) s else (Inr None, s))"

definition middleware_access ::
  "('w, 'e) auth_env \<Rightarrow> auth_config \<Rightarrow> string \<Rightarrow> 'w auth_state \<Rightarrow> principal option \<times> 'w auth_state" where
  "middleware_access env c accessToken s =
     (if accessToken = [] then (None, s)
      else (case Verify env c accessToken s of
         (Inl e, s1) \<Rightarrow> (None, s1)
       | (Inr p, s1) \<Rightarrow> (Some p, s1)))"

definition middleware_gate :: "auth_config \<Rightarrow> http_in \<Rightarrow> principal option \<Rightarrow> auth_outcome" where
  "middleware_gate c request p =
     (if p = None \<and> isGated c (url_Path (InURL request))
      then http_Redirect request (login_url c ''redirect'' (gatedRedirectTarget request))
      else Served p)"

definition Middleware ::
  "('w, 'e) auth_env \<Rightarrow> auth_config \<Rightarrow> http_in \<Rightarrow> 'w auth_state \<Rightarrow> (cookie list \<times> auth_outcome) \<times> 'w auth_state" where
  "Middleware env c request s =
     (if isAuthRoute c (url_Path (InURL request)) then (([], Served None), s)
      else
        (let (accessToken, refreshToken) = SessionTokens c request in
         case middleware_secret env refreshToken s of
           (Inl e, s1) \<Rightarrow> (([], writeServiceUnavailable request), s1)
         | (Inr secret, s1) \<Rightarrow>
             (case middleware_access env c accessToken s1 of
                (Some p, s2) \<Rightarrow> (([], middleware_gate c request (Some p)), s2)
              | (None, s2) \<Rightarrow>
                  if refreshToken = [] then (([], middleware_gate c request None), s2)
                  else (case refreshWithSecret env c refreshToken secret s2 of
                     (Inr (tokens, p), s3) \<Rightarrow> ((SetSessionCookies c tokens, middleware_gate c request (Some p)), s3)
                   | (Inl e, s3) \<Rightarrow>
                       (([], if auth_IsCode (Some e) ASecretUnavailable then writeServiceUnavailable request
                             else middleware_gate c request None), s3)))))"

definition PrincipalFromContext :: "auth_outcome \<Rightarrow> principal option" where
  "PrincipalFromContext r = (case r of Served p \<Rightarrow> p | _ \<Rightarrow> None)"

section \<open>Redirects stay local\<close>

text \<open>A location a browser resolves on the same host: rooted, not at a double slash, without the characters
  browsers read as a slash or drop.\<close>

definition location_char :: "char \<Rightarrow> bool" where
  "location_char c \<longleftrightarrow> c \<noteq> CHR 0x5C \<and> \<not> ctl_byte c"

definition local_location :: "string \<Rightarrow> bool" where
  "local_location loc \<longleftrightarrow> HasPrefix loc ''/'' \<and> \<not> HasPrefix loc ''//'' \<and> list_all location_char loc"

lemma local_location_Cons:
  "local_location loc \<longleftrightarrow> (\<exists>s. loc = CHR ''/'' # s \<and> (s = [] \<or> hd s \<noteq> CHR ''/'') \<and> list_all location_char s)"
proof -
  have "location_char CHR ''/''" by (simp add: location_char_def ctl_byte_def)
  then show ?thesis by (cases loc; cases "tl loc") (auto simp: local_location_def HasPrefix_def)
qed

lemma wire_location: "wire_char c \<Longrightarrow> location_char c"
proof -
  have "\<not> wire_char CHR 0x5C" by (simp add: wire_char_def unreserved_def)
  then show "wire_char c \<Longrightarrow> location_char c" using wire_char_plain by (auto simp: location_char_def)
qed

lemma hexEscape_local:
  assumes "local_location loc"
  shows "local_location (hexEscapeNonASCII loc)"
proof -
  have digit: "location_char (lower_hex_digit n)" if "n < 16" for n
    using that by (intro wire_location) (auto simp: wire_char_def unreserved_def lower_hex_digit_def Let_def)
  have pct: "location_char CHR ''%''" by (simp add: location_char_def ctl_byte_def)
  have "list_all location_char (hexEscapeNonASCII s)" if "list_all location_char s" for s
    using that
  proof (induction s)
    case (Cons c s)
    have "of_byte c < (256 :: nat)" by simp
    then have "of_byte c div 16 < (16 :: nat)" "of_byte c mod 16 < (16 :: nat)" by auto
    with digit pct have "list_all location_char (hexEscapeNonASCII [c])"
      using Cons.prems by (auto simp: hexEscapeNonASCII_def)
    moreover have "hexEscapeNonASCII (c # s) = hexEscapeNonASCII [c] @ hexEscapeNonASCII s"
      by (simp add: hexEscapeNonASCII_def)
    ultimately show ?case using Cons by simp
  qed (simp add: hexEscapeNonASCII_def)
  moreover have "hexEscapeNonASCII s = [] \<or> hd (hexEscapeNonASCII s) \<noteq> CHR ''/''"
    if "s = [] \<or> hd s \<noteq> CHR ''/''" for s
    using that by (cases s) (auto simp: hexEscapeNonASCII_def)
  moreover have "hexEscapeNonASCII (CHR ''/'' # s) = CHR ''/'' # hexEscapeNonASCII s" for s
    by (simp add: hexEscapeNonASCII_def)
  ultimately show ?thesis using assms unfolding local_location_Cons by metis
qed

lemma absolute_location_local:
  assumes "local_location target"
  shows "local_location (absolute_location old target)"
proof -
  let ?a = "takeWhile (\<lambda>c. c \<noteq> CHR ''?'') target" and ?b = "dropWhile (\<lambda>c. c \<noteq> CHR ''?'') target"
  obtain t where t: "target = CHR ''/'' # t" "list_all location_char t"
    using assms by (auto simp: local_location_Cons)
  have abs: "is_abs ?a" by (simp add: t is_abs_def HasPrefix_def)
  then obtain s where s: "Clean ?a = CHR ''/'' # s" "\<not> is_abs s" "set s \<subseteq> set ?a" by (rule Clean_rooted)
  have slash: "location_char CHR ''/''" by (simp add: location_char_def ctl_byte_def)
  have "list_all location_char s"
    using s(3) t slash set_takeWhileD unfolding list_all_iff by fastforce
  moreover have "list_all location_char ?b"
    using t slash set_dropWhileD unfolding list_all_iff by fastforce
  moreover have "?b = [] \<or> hd ?b = CHR ''?''"
    using hd_dropWhile [of "\<lambda>c. c \<noteq> CHR ''?''" target] by auto
  moreover have "s = [] \<or> hd s \<noteq> CHR ''/''"
    using s(2) by (cases s) (auto simp: is_abs_def HasPrefix_def)
  moreover have "s \<noteq> []" if "\<not> HasSuffix (Clean ?a) ''/''"
    using that by (auto simp: s(1) HasSuffix_def)
  moreover have "HasPrefix target ''/''" by (simp add: t HasPrefix_def)
  then have "absolute_location old target =
      CHR ''/'' # s @ (if HasSuffix ?a ''/'' \<and> \<not> HasSuffix (Clean ?a) ''/'' then ''/'' else []) @ ?b"
    by (simp add: absolute_location_def clean_location_def Let_def s(1))
  ultimately show ?thesis
    using slash by (auto simp: local_location_Cons hd_append)
qed

lemma redirect_local: "local_location target \<Longrightarrow> local_location (redirect_location old target)"
  by (auto simp: redirect_location_def intro!: hexEscape_local absolute_location_local split: option.split)

lemma http_Redirect_local:
  "http_Redirect request target = Redirected loc \<Longrightarrow> local_location target \<Longrightarrow> local_location loc"
  by (auto simp: http_Redirect_def redirect_local)

lemma validAbsolutePath_local:
  assumes "validAbsolutePath p" "list_all (\<lambda>c. \<not> ctl_byte c) p"
  shows "local_location p"
proof -
  have "CHR 0x5C \<notin> set p"
    using assms(1) by (auto simp: validAbsolutePath_def Contains_def sublist_def in_set_conv_decomp)
  with assms show ?thesis
    by (auto simp: validAbsolutePath_def local_location_def list_all_iff location_char_def split: option.splits)
qed

lemma safeRedirect_local: "list_all (\<lambda>c. \<not> ctl_byte c) p \<Longrightarrow> local_location (safeRedirect p)"
proof -
  have "validAbsolutePath ''/''" by code_simp
  then show "list_all (\<lambda>c. \<not> ctl_byte c) p \<Longrightarrow> local_location (safeRedirect p)"
    by (auto simp: safeRedirect_def validAbsolutePath_local ctl_byte_def intro!: validAbsolutePath_local)
qed

text \<open>The guard alone is not enough: the parser does not look for control bytes behind \<open>#\<close>, and the
  cleaning goes on there. Browsers drop the tab of this location.\<close>

lemma safeRedirect_keeps_tab:
  "redirect_location ''/'' (safeRedirect (''/x#/../'' @ CHR 0x09 # ''/evil.com'')) = CHR ''/'' # CHR 0x09 # ''/evil.com''"
  by code_simp

lemma login_url_local:
  assumes "local_location (LoginPath c)"
  shows "local_location (login_url c k v)"
proof -
  have "list_all location_char (Values_Encode [(k, [v])])"
    using wire_Values_Encode [of "[(k, [v])]"] wire_location by (auto simp: list_all_iff)
  moreover have "location_char CHR ''?''" by (simp add: location_char_def ctl_byte_def)
  ultimately show ?thesis using assms by (auto simp: local_location_Cons login_url_def hd_append)
qed

section \<open>What a token proves\<close>

definition token_proves :: "('w, 'e) auth_env \<Rightarrow> auth_config \<Rightarrow> string \<Rightarrow> principal \<Rightarrow> bool" where
  "token_proves env c token p \<longleftrightarrow>
     (\<exists>key kid claims now. token_accepted env c token key kid claims now \<and> on_p256 key \<and> claims_identity claims = Inr p)"

lemma Verify_proves: "Verify env c token s = (Inr p, s') \<Longrightarrow> cache_ok (Cache s) \<Longrightarrow> token_proves env c token p"
  unfolding token_proves_def by (erule (1) Verify_accepts) blast

lemma requestTokensResolved_proves:
  assumes "requestTokensResolved env c form secret s = (Inr (t, p), s')" and "cache_ok (Cache s)"
  shows "token_proves env c (AccessToken t) p" "AccessToken t \<noteq> []" "RefreshToken t \<noteq> []"
proof -
  from assms(1) obtain response s1 where s1: "on_world (postFormResolved env c ''/token'' form secret) s = (Inr response, s1)"
    and t: "token_response response = Inr t" and v: "Verify env c (AccessToken t) s1 = (Inr p, s')"
    by (auto simp: requestTokensResolved_def and_then_Inr_iff)
  show "token_proves env c (AccessToken t) p"
    using Verify_proves [OF v] assms(2) on_world_Cache [OF s1] by simp
  show "AccessToken t \<noteq> []" "RefreshToken t \<noteq> []"
    using t by (auto simp: token_response_def split: if_splits prod.splits)
qed

lemma requestTokens_proves:
  assumes "requestTokens env c form s = (Inr (t, p), s')" and "cache_ok (Cache s)"
  shows "token_proves env c (AccessToken t) p" "AccessToken t \<noteq> []" "RefreshToken t \<noteq> []"
proof -
  from assms(1) obtain secret s1 where "on_world (resolveSecret env) s = (Inr secret, s1)"
    "requestTokensResolved env c form secret s1 = (Inr (t, p), s')"
    by (auto simp: requestTokens_def and_then_Inr_iff)
  then show "token_proves env c (AccessToken t) p" "AccessToken t \<noteq> []" "RefreshToken t \<noteq> []"
    using requestTokensResolved_proves assms(2) on_world_Cache by metis+
qed

lemma Exchange_Inr:
  assumes "Exchange env c r s = (Inr (t, p), s')"
  obtains now s1 where "on_world (Now env) s = (now, s1)" "\<not> ExpiresAt (Transaction r) < now"
    "Code r \<noteq> []" "Verifier (Transaction r) \<noteq> []" "State (Transaction r) \<noteq> []"
    "RequestState r = State (Transaction r)" "requestTokens env c (exchange_form c r) s1 = (Inr (t, p), s')"
  using assms
  by (auto simp: Exchange_def Let_def constantTimeEqual_def split: if_splits prod.splits)

section \<open>The handlers\<close>

lemma middleware_access_cases:
  assumes "middleware_access env c token s = (r, s')" and "cache_ok (Cache s)"
  shows "cache_ok (Cache s')" "\<And>p. r = Some p \<Longrightarrow> token \<noteq> [] \<and> token_proves env c token p"
  using assms
  by (auto simp: middleware_access_def split: if_splits prod.splits sum.splits dest: Verify_cache_ok Verify_proves)

lemma middleware_secret_Cache: "middleware_secret env rt s = (r, s') \<Longrightarrow> Cache s' = Cache s"
  by (auto simp: middleware_secret_def dest: on_world_Cache split: if_splits)

lemma middleware_gate_Served:
  "middleware_gate c request q = Served p \<longleftrightarrow> p = q \<and> \<not> (q = None \<and> isGated c (url_Path (InURL request)))"
  by (auto simp: middleware_gate_def http_Redirect_def)

lemma writeServiceUnavailable_not [simp]: "writeServiceUnavailable request \<noteq> Served p" "writeServiceUnavailable request \<noteq> Redirected loc"
  by (simp_all add: writeServiceUnavailable_def)

lemma Middleware_hands_on:
  assumes "Middleware env c request s = ((cookies, Served p), s')" and "cache_ok (Cache s)"
    and "SessionTokens c request = (access, refresh)" and "url_Path (InURL request) = path"
  shows "(p = None \<and> cookies = [] \<and> (isAuthRoute c path \<or> \<not> isGated c path))
    \<or> (\<exists>q. p = Some q \<and> access \<noteq> [] \<and> token_proves env c access q \<and> cookies = [])
    \<or> (\<exists>q t. p = Some q \<and> refresh \<noteq> [] \<and> token_proves env c (AccessToken t) q \<and> cookies = SetSessionCookies c t)"
proof (cases "isAuthRoute c path")
  case True
  with assms show ?thesis by (simp add: Middleware_def)
next
  case False
  obtain sec s1 where sec: "middleware_secret env refresh s = (sec, s1)" by (rule prod.exhaust)
  with assms False obtain secret where "sec = Inr secret"
    by (cases sec) (auto simp: Middleware_def)
  note sec = sec [unfolded this]
  obtain a s2 where a: "middleware_access env c access s1 = (a, s2)" by (rule prod.exhaust)
  have ok1: "cache_ok (Cache s1)" using middleware_secret_Cache [OF sec] assms(2) by simp
  note acc = middleware_access_cases [OF a ok1]
  show ?thesis
  proof (cases a)
    case (Some q)
    with assms False sec a acc(2) [of q] show ?thesis
      by (auto simp: Middleware_def middleware_gate_Served)
  next
    case None
    show ?thesis
    proof (cases "refresh = []")
      case True
      with assms False sec a None show ?thesis by (auto simp: Middleware_def middleware_gate_Served)
    next
      case refresh: False
      obtain r s3 where r: "refreshWithSecret env c refresh secret s2 = (r, s3)" by (rule prod.exhaust)
      show ?thesis
      proof (cases r)
        case (Inl e)
        with assms False sec a None refresh r show ?thesis
          by (auto simp: Middleware_def middleware_gate_Served split: if_splits)
      next
        case (Inr tp)
        then obtain t q where tp: "r = Inr (t, q)" by (cases tp) auto
        with r have "token_proves env c (AccessToken t) q"
          using requestTokensResolved_proves(1) acc(1) unfolding refreshWithSecret_def by blast
        with assms False sec a None refresh r tp show ?thesis
          by (auto simp: Middleware_def middleware_gate_Served)
      qed
    qed
  qed
qed

text \<open>C3: A request the middleware hands on carries a principal only if the access token of its cookie, or one
  just refreshed with its refresh cookie and set as the new session, proves it; a request without a
  principal is handed on only to a path that is not gated or belongs to the login itself.\<close>

theorem Middleware_served:
  assumes "Middleware env c request s = ((cookies, Served p), s')" and "cache_ok (Cache s)"
    and "SessionTokens c request = (access, refresh)" and "url_Path (InURL request) = path"
  shows "(p = None \<and> cookies = [] \<and> (isAuthRoute c path \<or> \<not> isGated c path))
    \<or> (\<exists>q. p = Some q \<and> access \<noteq> [] \<and> token_proves env c access q \<and> cookies = [])
    \<or> (\<exists>q t. p = Some q \<and> refresh \<noteq> [] \<and> token_proves env c (AccessToken t) q \<and> cookies = SetSessionCookies c t)"
  by (rule Middleware_hands_on [OF assms])

definition idp_request :: "string \<Rightarrow> (string \<times> string) list \<Rightarrow> http_in" where
  "idp_request uri cookies = \<lparr>InURL = the (url_Parse uri), InCookies = cookies, InAccept = []\<rparr>"

lemma idp_Middleware:
  "Middleware (idp_env (59 * second)) idp_config (idp_request ''/app/x'' [(''s_at'', idp_token ''1'')]) idp_state =
     (([], Served (Some idp_principal)), \<lparr>Cache = \<lparr>Keys = [(''k'', idp_key)], FetchedAt = 59 * second\<rparr>, World = 1\<rparr>)"
proof -
  have p: "url_Path (the (url_Parse ''/app/x'')) = ''/app/x''" by code_simp
  have n: "cookieName idp_config ''at'' = ''s_at''" "cookieName idp_config ''rt'' = ''s_rt''" by code_simp+
  have r: "\<not> isAuthRoute idp_config ''/app/x''" "isGated idp_config ''/app/x''" by code_simp+
  have "idp_token ''1'' \<noteq> []" by (simp add: idp_token_def)
  then show ?thesis
    by (simp add: Middleware_def idp_request_def p n r SessionTokens_def readCookie_def middleware_secret_def
        middleware_access_def idp_Verify middleware_gate_def)
qed

theorem Middleware_served_witness:
  "token_proves (idp_env (59 * second)) idp_config (idp_token ''1'') idp_principal"
proof -
  have n: "cookieName idp_config ''at'' = ''s_at''" "cookieName idp_config ''rt'' = ''s_rt''" by code_simp+
  have "SessionTokens idp_config (idp_request ''/app/x'' [(''s_at'', idp_token ''1'')]) = (idp_token ''1'', [])"
    by (simp add: SessionTokens_def readCookie_def idp_request_def n)
  moreover have "cache_ok (Cache idp_state)" by (simp add: idp_state_def)
  ultimately show ?thesis using Middleware_served [OF idp_Middleware _ _ refl] by auto
qed

section \<open>The callback\<close>

text \<open>The cookies \<open>net/http\<close> reads hold no byte a cookie value may not hold.\<close>

definition cookies_readable :: "http_in \<Rightarrow> bool" where
  "cookies_readable request \<longleftrightarrow> list_all (\<lambda>(n, v). list_all cookie_value_byte v) (InCookies request)"

lemma readCookie_readable:
  "cookies_readable request \<Longrightarrow> list_all (\<lambda>c. \<not> ctl_byte c) (readCookie request n)" (is "_ \<Longrightarrow> ?thesis")
proof -
  have byte: "cookie_value_byte b \<Longrightarrow> \<not> ctl_byte b" for b
    unfolding cookie_value_byte_def ctl_byte_def by linarith
  show "cookies_readable request \<Longrightarrow> ?thesis"
    using byte by (cases "map_of (InCookies request) n")
      (auto simp: cookies_readable_def readCookie_def list_all_iff dest!: map_of_SomeD)
qed

lemma transaction_cookies_Inr:
  assumes "transaction_cookies c request = Inr t"
  shows "Verifier t = readCookie request (cookieName c ''pkce'')" "Verifier t \<noteq> []"
    "State t = readCookie request (cookieName c ''state'')" "State t \<noteq> []"
    "RedirectPath t = safeRedirect (readCookie request (cookieName c ''redirect''))"
    "CallbackURI t = readCookie request (cookieName c ''callback'')"
  using assms by (auto simp: transaction_cookies_def go_result Let_def split: option.splits)

lemma TransactionFromRequest_Inr:
  assumes "TransactionFromRequest clock c request w = (Inr t, w')"
  shows "transaction_cookies c request = Inr t" "\<exists>now. clock w = (now, w') \<and> now \<le> ExpiresAt t"
  using assms by (auto simp: TransactionFromRequest_def split: sum.splits prod.splits if_splits)

lemma ClearTransactionCookies_not_Nil [simp]: "SetSessionCookies c t @ ClearTransactionCookies c \<noteq> []"
  by (simp add: SetSessionCookies_def)

lemma Callback_session_cases:
  assumes "Callback env c request s = ((cookies, out), s')" and "cookies \<noteq> []"
  obtains t s1 tokens p where "on_world (TransactionFromRequest (Now env) c request) s = (Inr t, s1)"
    "query_value request ''state'' = readCookie request (cookieName c ''state'')"
    "query_value request ''error'' = []" "query_value request ''code'' \<noteq> []"
    "Exchange env c \<lparr>Code = query_value request ''code'', RequestState = query_value request ''state'', Transaction = t\<rparr> s1
      = (Inr (tokens, p), s')"
    "cookies = SetSessionCookies c tokens @ ClearTransactionCookies c"
    "out = http_Redirect request (safeRedirect (RedirectPath t))"
  using assms
  by (auto simp: Callback_def Let_def constantTimeEqual_def split: if_splits prod.splits sum.splits)

text \<open>C5: The callback writes a session only when the state of the query is the state of the cookie and not
  empty, the query brings a code and no error, the cookies hold a verifier and a transaction that had not
  expired at a reading of the clock; and the session it writes is a pair of tokens of which the access
  token is proved. With it the cookies of the transaction are cleared.\<close>

theorem Callback_session:
  assumes "Callback env c request s = ((cookies, out), s')" and "cookies \<noteq> []" and "cache_ok (Cache s)"
  shows "query_value request ''state'' = readCookie request (cookieName c ''state'') \<and> query_value request ''state'' \<noteq> []
    \<and> query_value request ''error'' = [] \<and> query_value request ''code'' \<noteq> []
    \<and> readCookie request (cookieName c ''pkce'') \<noteq> []
    \<and> (\<exists>t now w. transaction_cookies c request = Inr t \<and> Now env (World s) = (now, w) \<and> now \<le> ExpiresAt t
        \<and> out = http_Redirect request (safeRedirect (RedirectPath t)))
    \<and> (\<exists>tokens p. cookies = SetSessionCookies c tokens @ ClearTransactionCookies c
        \<and> token_proves env c (AccessToken tokens) p \<and> RefreshToken tokens \<noteq> [])"
  using assms(1,2)
proof (rule Callback_session_cases)
  fix t s1 tokens p
  assume a: "on_world (TransactionFromRequest (Now env) c request) s = (Inr t, s1)"
    "query_value request ''state'' = readCookie request (cookieName c ''state'')"
    "query_value request ''error'' = []" "query_value request ''code'' \<noteq> []"
    "Exchange env c \<lparr>Code = query_value request ''code'', RequestState = query_value request ''state'', Transaction = t\<rparr> s1
      = (Inr (tokens, p), s')"
    "cookies = SetSessionCookies c tokens @ ClearTransactionCookies c"
    "out = http_Redirect request (safeRedirect (RedirectPath t))"
  from a(1) obtain w where w: "TransactionFromRequest (Now env) c request (World s) = (Inr t, w)"
    by (auto simp: on_world_eq)
  note t = TransactionFromRequest_Inr [OF w]
  note fields = transaction_cookies_Inr [OF t(1)]
  from a(5) obtain now s2 where "on_world (Now env) s1 = (now, s2)"
    "requestTokens env c (exchange_form c \<lparr>Code = query_value request ''code'',
       RequestState = query_value request ''state'', Transaction = t\<rparr>) s2 = (Inr (tokens, p), s')"
    by (rule Exchange_Inr)
  then have "token_proves env c (AccessToken tokens) p" "RefreshToken tokens \<noteq> []"
    using requestTokens_proves assms(3) on_world_Cache a(1) by metis+
  with a t fields show ?thesis by auto
qed

definition idp_tokens :: tokens where
  "idp_tokens = \<lparr>AccessToken = idp_token ''1'', RefreshToken = ''r2''\<rparr>"

lemma idp_token_response:
  "token_response \<lparr>StatusCode = 200, ResponseHeader = [],
     Body = ''{\"access_token\":\"'' @ idp_token ''1'' @ ''\",\"refresh_token\":\"r2\"}'', BodyError = None\<rparr> = Inr idp_tokens"
proof -
  let ?b = "''{\"access_token\":\"'' @ idp_token ''1'' @ ''\",\"refresh_token\":\"r2\"}''"
  have "length ?b = 422" by code_simp
  then have "take maxTokenResponseBytes ?b = ?b" by (simp only: take_all maxTokenResponseBytes_def)
  moreover have "Decode_into set_tokens ?b \<lparr>AccessToken = [], RefreshToken = []\<rparr> = (idp_tokens, True)" by code_simp
  moreover have "AccessToken idp_tokens \<noteq> []" "RefreshToken idp_tokens \<noteq> []"
    by (simp_all add: idp_tokens_def idp_token_def)
  ultimately show ?thesis by (simp add: token_response_def issuer_success_def)
qed

definition idp_cookies :: "(string \<times> string) list" where
  "idp_cookies = [(''s_pkce'', ''v''), (''s_state'', ''abc''), (''s_callback'', ''https://app.b/cb''),
     (''s_expires'', ''60''), (''s_redirect'', ''/app/x?y#z'')]"

lemma idp_post:
  "postFormResolved (idp_env now) idp_config ''/token'' form None w =
     (Inr \<lparr>StatusCode = 200, ResponseHeader = [],
        Body = ''{\"access_token\":\"'' @ idp_token ''1'' @ ''\",\"refresh_token\":\"r2\"}'', BodyError = None\<rparr>, Suc w)"
proof -
  have "request_url ''https://a.b/token'' \<noteq> None" by code_simp
  then show ?thesis
    by (auto simp: postFormResolved_def form_request_def NewRequest_def idp_config_def idp_server_def
        split: option.splits)
qed

lemma idp_requestTokens:
  "requestTokens (idp_env (59 * second)) idp_config form (idp_at w) =
     (Inr (idp_tokens, idp_principal), idp_fetched (59 * second) (Suc (Suc w)))"
proof -
  have "AccessToken idp_tokens = idp_token ''1''" by (simp add: idp_tokens_def)
  moreover have "on_world (postFormResolved (idp_env (59 * second)) idp_config ''/token'' form None) (idp_at w) =
      (Inr \<lparr>StatusCode = 200, ResponseHeader = [],
        Body = ''{\"access_token\":\"'' @ idp_token ''1'' @ ''\",\"refresh_token\":\"r2\"}'', BodyError = None\<rparr>, idp_at (Suc w))"
    by (simp only: on_world_def idp_post prod.case) (simp add: idp_at_def)
  moreover have "on_world (resolveSecret (idp_env (59 * second))) (idp_at w) = (Inr None, idp_at w)"
    by (simp add: on_world_def resolveSecret_def idp_at_def)
  ultimately show ?thesis
    by (simp only: requestTokens_def requestTokensResolved_def and_then_def prod.case sum.case idp_token_response idp_Verify_at)
qed

lemma idp_Callback:
  "Callback (idp_env (59 * second)) idp_config (idp_request ''/cb?state=abc&code=x'' idp_cookies) idp_state =
     ((SetSessionCookies idp_config idp_tokens @ ClearTransactionCookies idp_config, Redirected ''/app/x?y#z''),
      idp_fetched (59 * second) (Suc (Suc 0)))"
proof -
  let ?r = "idp_request ''/cb?state=abc&code=x'' idp_cookies"
  have q: "query_value ?r ''state'' = ''abc''" "query_value ?r ''code'' = ''x''" "query_value ?r ''error'' = []"
    "readCookie ?r (cookieName idp_config ''state'') = ''abc''" by code_simp+
  let ?t = "\<lparr>Verifier = ''v'', Challenge = [], State = ''abc'', RedirectPath = ''/app/x?y#z'', Provider = [],
     CallbackURI = ''https://app.b/cb'', ExpiresAt = 60 * second\<rparr>"
  have t: "transaction_cookies idp_config ?r = Inr ?t" by code_simp
  have e: "\<not> ExpiresAt ?t < 59 * second" "ExpiresAt ?t \<noteq> zero_time" by code_simp+
  have r: "http_Redirect ?r (safeRedirect ''/app/x?y#z'') = Redirected ''/app/x?y#z''" by code_simp
  have tr: "on_world (TransactionFromRequest (Now (idp_env (59 * second))) idp_config ?r) idp_state = (Inr ?t, idp_at 0)"
    using t e by (simp add: on_world_def TransactionFromRequest_def idp_state_def idp_at_def)
  have ex: "Exchange (idp_env (59 * second)) idp_config \<lparr>Code = ''x'', RequestState = ''abc'', Transaction = ?t\<rparr> (idp_at 0) =
      (Inr (idp_tokens, idp_principal), idp_fetched (59 * second) (Suc (Suc 0)))"
    using e by (simp add: Exchange_def constantTimeEqual_def on_world_def idp_requestTokens)
  show ?thesis
    unfolding Callback_def Let_def q tr prod.case sum.case ex using r by (simp add: constantTimeEqual_def)
qed

theorem Callback_session_witness:
  "\<exists>tokens p. SetSessionCookies idp_config idp_tokens = SetSessionCookies idp_config tokens
     \<and> token_proves (idp_env (59 * second)) idp_config (AccessToken tokens) p"
proof -
  have "cache_ok (Cache idp_state)" by (simp add: idp_state_def)
  from Callback_session [OF idp_Callback ClearTransactionCookies_not_Nil this] show ?thesis
    unfolding append_same_eq by blast
qed



section \<open>Login\<close>

text \<open>A path of names that need no escape.\<close>

definition plain_route :: "string \<Rightarrow> bool" where
  "plain_route p \<longleftrightarrow>
     (\<exists>ps. ps \<noteq> [] \<and> p = CHR ''/'' # Join ps ''/'' \<and> (\<forall>q \<in> set ps. path_name q \<and> list_all unreserved q))"

lemma plain_route_chars: "plain_route p \<Longrightarrow> x \<in> set p \<Longrightarrow> unreserved x \<or> x = CHR ''/''"
proof -
  assume "plain_route p" "x \<in> set p"
  then obtain ps where ps: "p = CHR ''/'' # Join ps ''/''" "\<forall>q \<in> set ps. list_all unreserved q"
    by (auto simp: plain_route_def)
  with \<open>x \<in> set p\<close> set_Join [of ps "CHR ''/''"] have "x = CHR ''/'' \<or> (\<exists>q \<in> set ps. x \<in> set q)" by auto
  with ps(2) show "unreserved x \<or> x = CHR ''/''" by (auto simp: list_all_iff)
qed

lemma plain_route_Clean:
  assumes "plain_route p"
  shows "Clean p = p" "HasPrefix p ''/''" "\<not> HasPrefix p ''//''" "\<not> HasSuffix p ''/''"
proof -
  obtain ps where ps: "ps \<noteq> []" "p = CHR ''/'' # Join ps ''/''" "\<forall>q \<in> set ps. path_name q"
    using assms by (auto simp: plain_route_def)
  then show "Clean p = p" "HasPrefix p ''/''" by (simp_all add: Clean_rooted_names HasPrefix_def)
  show "\<not> HasPrefix p ''//''"
    using Join_names_relative [OF ps(1,3), of "''/''"] ps(2) by (simp add: is_abs_def HasPrefix_def)
  have "Join ps ''/'' \<noteq> [] \<and> last (Join ps ''/'') \<noteq> CHR ''/''"
    using ps(1,3)
  proof (induction ps)
    case (Cons q qs)
    then have "q \<noteq> []" "CHR ''/'' \<notin> set q" by (simp_all add: path_name_def)
    with last_in_set [of q] have "q \<noteq> []" "last q \<noteq> CHR ''/''" by metis+
    with Cons show ?case by (cases "qs = []") (auto simp: Join_Cons)
  qed simp
  then show "\<not> HasSuffix p ''/''"
    using ps(2) by (auto simp: HasSuffix_def suffix_def) (metis last_ConsR last_snoc)
qed

lemma wire_ascii: "wire_char c \<Longrightarrow> of_byte c < (0x80 :: nat)"
  unfolding wire_char_def unreserved_def Let_def by (elim disjE) auto

lemma hexEscape_ascii: "\<forall>c \<in> set s. of_byte c < (0x80 :: nat) \<Longrightarrow> hexEscapeNonASCII s = s"
  by (induction s) (simp_all add: hexEscapeNonASCII_def)

lemma unescape_PathMode: "CHR ''%'' \<notin> set s \<Longrightarrow> url_unescape PathMode s = Some s"
  by (induction s) auto

lemma takeWhile_until: "c \<notin> set a \<Longrightarrow> takeWhile (\<lambda>x. x \<noteq> c) (a @ c # b) = a"
  and dropWhile_until: "c \<notin> set a \<Longrightarrow> dropWhile (\<lambda>x. x \<noteq> c) (a @ c # b) = c # b"
  by (induction a) auto

text \<open>The login URL is sent as it is, and read back with its parameter.\<close>

lemma login_url_redirect:
  assumes "plain_route (LoginPath c)"
  shows "redirect_location old (login_url c k v) = login_url c k v"
    and "\<exists>u. url_Parse (login_url c k v) = Some u \<and> url_Path u = LoginPath c \<and> Values_Get (url_Query u) k = v"
proof -
  let ?p = "LoginPath c" and ?q = "Values_Encode [(k, [v])]"
  note clean = plain_route_Clean [OF assms]
  have chars: "unreserved x \<or> x = CHR ''/''" if "x \<in> set ?p" for x
    by (rule plain_route_chars [OF assms that])
  then have wire: "list_all wire_char ?p" by (auto simp: list_all_iff wire_char_def)
  have noq: "CHR ''?'' \<notin> set ?p" "CHR ''%'' \<notin> set ?p"
    using chars [of "CHR ''?''"] chars [of "CHR ''%''"] by (auto simp: unreserved_iff)
  have q: "?q \<noteq> []" "list_all wire_char ?q"
    by (simp add: Values_Encode_settings settings_def setting_def) (rule wire_Values_Encode)
  have url: "login_url c k v = ?p @ (if ?q = [] then [] else CHR ''?'' # ?q)" using q by (simp add: login_url_def)
  have parsed: "url_Parse (login_url c k v) = Some (empty_url\<lparr>url_Path := ?p,
      RawPath := (if ?p = url_escape PathMode ?p then [] else ?p), RawQuery := ?q\<rparr>)"
    unfolding url by (rule parse_local [OF clean(2,3) wire q(2) unescape_PathMode [OF noq(2)]])
  have "Values_Get (ParseQuery ?q) k = v" by (rule Values_Get_Encode) simp_all
  then show "\<exists>u. url_Parse (login_url c k v) = Some u \<and> url_Path u = LoginPath c \<and> Values_Get (url_Query u) k = v"
    unfolding parsed by (simp add: url_Query_def)
  have "takeWhile (\<lambda>x. x \<noteq> CHR ''?'') (login_url c k v) = ?p"
    "dropWhile (\<lambda>x. x \<noteq> CHR ''?'') (login_url c k v) = CHR ''?'' # ?q"
    using noq(1) by (simp_all add: login_url_def takeWhile_until dropWhile_until)
  moreover have "HasPrefix (login_url c k v) ''/''"
    using clean(2) by (auto simp: login_url_def HasPrefix_def prefix_def)
  ultimately have "absolute_location old (login_url c k v) = login_url c k v"
    unfolding absolute_location_def Let_def clean_location_def
    using clean(1,4) by (simp add: login_url_def)
  moreover have "hexEscapeNonASCII (login_url c k v) = login_url c k v"
    using wire q(2) wire_ascii by (intro hexEscape_ascii) (auto simp: login_url_def list_all_iff)
  ultimately show "redirect_location old (login_url c k v) = login_url c k v"
    unfolding redirect_location_def parsed by (simp add: empty_url_def)
qed

text \<open>A browser without a session that asks for a gated path gets to the login page: the middleware sends it
  to the login path with the page it wanted as parameter, and whatever cookies it follows the redirect with,
  that request is handed on, so that gating never loops. The login path is one of plain names.\<close>

lemma gated_request_reaches_login:
  assumes "plain_route (LoginPath c)" and "Middleware env c request s = ((cookies, Redirected loc), s')"
  shows "cookies = [] \<and> isGated c (url_Path (InURL request))
    \<and> (\<exists>u. url_Parse loc = Some u \<and> url_Path u = LoginPath c
        \<and> Values_Get (url_Query u) ''redirect'' = gatedRedirectTarget request
        \<and> (\<forall>cs accept s1. Middleware env c \<lparr>InURL = u, InCookies = cs, InAccept = accept\<rparr> s1 = (([], Served None), s1)))"
proof -
  have "cookies = [] \<and> isGated c (url_Path (InURL request))
      \<and> loc = redirect_location (url_Path (InURL request)) (login_url c ''redirect'' (gatedRedirectTarget request))"
    using assms(2)
    by (auto simp: Middleware_def Let_def middleware_gate_def http_Redirect_def split: if_splits prod.splits sum.splits option.splits)
  moreover have "Middleware env c \<lparr>InURL = u, InCookies = cs, InAccept = accept\<rparr> s1 = (([], Served None), s1)"
    if "url_Path u = LoginPath c" for u cs accept s1
    using that by (simp add: Middleware_def isAuthRoute_def)
  ultimately show ?thesis
    using login_url_redirect [OF assms(1)] by metis
qed

section \<open>From the authorization request to the session\<close>

lemma cookieName_inject [simp]: "cookieName c a = cookieName c b \<longleftrightarrow> a = b"
  by (simp add: cookieName_def)

lemma wire_cookie_byte: "wire_char x \<Longrightarrow> cookie_value_byte x"
proof -
  have "\<not> wire_char CHR 0x22" "\<not> wire_char CHR 0x5C" "\<not> wire_char CHR '';''"
    by (simp_all add: wire_char_def unreserved_def)
  moreover have "wire_char x \<Longrightarrow> \<not> ctl_byte x" using wire_char_plain by blast
  ultimately show "wire_char x \<Longrightarrow> cookie_value_byte x"
    using wire_ascii [of x] unfolding cookie_value_byte_def ctl_byte_def by fastforce
qed

lemma b64url_cookie_bytes: "list_all cookie_value_byte (RawURLEncoding_encode b)"
proof -
  have "list_all wire_char url_alphabet" by code_simp
  then show ?thesis
    using b64_encode_set [OF b64_alphabet_url, of False b] wire_cookie_byte
    by (auto simp: RawURLEncoding_encode_def list_all_iff)
qed

lemma show_int_cookie_bytes: "list_all cookie_value_byte (show_int i)"
proof -
  have "wire_char x" if "is_digit x \<or> x = CHR ''-''" for x
    using that by (auto simp: wire_char_def unreserved_iff alnum_iff)
  then have "cookie_value_byte x" if "x \<in> set (show_int i)" for x
    using wire_cookie_byte show_int_set [OF that] by blast
  then show ?thesis by (simp add: list_all_iff)
qed

text \<open>What the browser sends back of a list of cookies.\<close>

definition sent_back :: "cookie list \<Rightarrow> (string \<times> string) list" where
  "sent_back cs = map (\<lambda>k. (CookieName k, CookieValue k)) cs"

lemma transaction_read_back:
  assumes cookies: "InCookies request = sent_back (SetTransactionCookies c t)"
    and bytes: "list_all cookie_value_byte (Verifier t)" "list_all cookie_value_byte (State t)"
      "list_all cookie_value_byte (RedirectPath t)" "list_all cookie_value_byte (Provider t)"
    and some: "Verifier t \<noteq> []" "State t \<noteq> []" and local: "validAbsolutePath (RedirectPath t)"
    and uri: "CallbackURI t = callback_uri c origin" "url_Scheme origin \<in> {''https'', ''http''}" "plain_host (Host origin)"
      "HasPrefix (CallbackPath c) ''/''" "list_all wire_char (CallbackPath c)"
    and time: "sane_seconds (ExpiresAt t div second)"
  shows "transaction_cookies c request = Inr (t\<lparr>Challenge := [], ExpiresAt := ExpiresAt t div second * second\<rparr>)"
proof -
  have read: "readCookie request (cookieName c ''pkce'') = filter cookie_value_byte (Verifier t)"
    "readCookie request (cookieName c ''state'') = filter cookie_value_byte (State t)"
    "readCookie request (cookieName c ''callback'') = filter cookie_value_byte (CallbackURI t)"
    "readCookie request (cookieName c ''expires'') = filter cookie_value_byte (show_int (ExpiresAt t div second))"
    "readCookie request (cookieName c ''redirect'') = filter cookie_value_byte (RedirectPath t)"
    "readCookie request (cookieName c ''provider'') = filter cookie_value_byte (Provider t)"
    by (simp_all add: readCookie_def cookies sent_back_def SetTransactionCookies_def setCookie_def)
  note url = parse_String_plain [OF uri(2,3,4,5)]
  obtain raw where parsed: "url_Parse (CallbackURI t) =
      Some (empty_url\<lparr>url_Scheme := url_Scheme origin, Host := Host origin, url_Path := CallbackPath c, RawPath := raw\<rparr>)"
    using url unfolding uri(1) callback_uri_def by auto
  have "list_all wire_char (Host origin)"
    using host_chars [OF uri(3)] host_char_wire by (auto simp: list_all_iff)
  moreover have "list_all wire_char (url_Scheme origin)" "list_all wire_char ''://''"
    using uri(2) by (auto simp: wire_char_def unreserved_iff alnum_def)
  ultimately have "list_all wire_char (CallbackURI t)"
    unfolding uri(1) callback_uri_def url(1) using url_escape_wire [OF uri(5)] by simp
  then have "list_all cookie_value_byte (CallbackURI t)" using wire_cookie_byte by (auto simp: list_all_iff)
  with read bytes have read': "readCookie request (cookieName c ''pkce'') = Verifier t"
    "readCookie request (cookieName c ''state'') = State t" "readCookie request (cookieName c ''callback'') = CallbackURI t"
    "readCookie request (cookieName c ''expires'') = show_int (ExpiresAt t div second)"
    "readCookie request (cookieName c ''redirect'') = RedirectPath t"
    "readCookie request (cookieName c ''provider'') = Provider t"
    using show_int_cookie_bytes by (simp_all add: list_all_iff filter_id_conv)
  have "ParseInt64 (show_int (ExpiresAt t div second)) = Some (ExpiresAt t div second)"
    using time by (intro ParseInt64_show_int) (auto simp: sane_seconds_def)
  moreover have "Host origin \<noteq> []" using plain_host_not_Nil [OF uri(3)] .
  ultimately show ?thesis
    using some local uri(2) time
    unfolding transaction_cookies_def Let_def read' parsed
    by (auto simp: safeRedirect_def http_scheme_def empty_url_def time_from_Unix_sane)
qed

lemma Authorize_transaction:
  assumes "Authorize env c (Some origin) provider target w = (Inr (u, t), w')"
  shows "CallbackURI t = callback_uri c origin" "validAbsolutePath (RedirectPath t)" "Provider t = provider"
    "list_all cookie_value_byte (Verifier t)" "list_all cookie_value_byte (State t)" "RedirectPath t = safeRedirect target"
proof -
  have random: "list_all cookie_value_byte v" if "randomBase64URL env x = (Inr v, x')" for v x x'
    using that b64url_cookie_bytes by (auto simp: randomBase64URL_def split: prod.splits sum.splits)
  from assms show "CallbackURI t = callback_uri c origin" "validAbsolutePath (RedirectPath t)" "Provider t = provider"
    "list_all cookie_value_byte (Verifier t)" "list_all cookie_value_byte (State t)" "RedirectPath t = safeRedirect target"
    by (rule Authorize_Inr, simp add: safeRedirect_valid random)+
qed

text \<open>A login goes through: when a browser that got the cookies of an authorization request comes back to the
  callback with the state of the request and a code, before the transaction expires by the whole second, and
  the issuer gives tokens for this code and the verifier of the transaction that verify, then the callback
  writes them as the session and sends the browser to the page the request was made for.\<close>

lemma Callback_completes:
  assumes "Authorize env c (Some origin) provider target w = (Inr (u, t), w')"
    and "plain_host (Host origin)" "url_Scheme origin \<in> {''https'', ''http''}"
    and "HasPrefix (CallbackPath c) ''/''" "list_all wire_char (CallbackPath c)"
    and "Verifier t \<noteq> []" "State t \<noteq> []" "list_all cookie_value_byte target" "list_all cookie_value_byte provider"
    and "InCookies request = sent_back (SetTransactionCookies c t)"
    and "query_value request ''state'' = State t" "query_value request ''code'' = code" "code \<noteq> []"
      "query_value request ''error'' = []"
    and "zero_time < now" "Now env (World s) = (now, w1)" "Now env w1 = (now', w2)" "sane_seconds (ExpiresAt t div second)"
      "now \<le> ExpiresAt t div second * second" "now' \<le> ExpiresAt t div second * second"
    and "requestTokens env c (exchange_form c \<lparr>Code = code, RequestState = State t, Transaction = t\<rparr>) (s\<lparr>World := w2\<rparr>)
      = (Inr (tokens, p), s')"
  shows "Callback env c request s =
    ((SetSessionCookies c tokens @ ClearTransactionCookies c, http_Redirect request (safeRedirect target)), s')"
proof -
  note t = Authorize_transaction [OF assms(1)]
  let ?t = "t\<lparr>Challenge := [], ExpiresAt := ExpiresAt t div second * second\<rparr>"
  have "list_all cookie_value_byte ''/''" by code_simp
  then have redirect: "list_all cookie_value_byte (RedirectPath t)"
    using assms(8) by (auto simp: t(6) safeRedirect_def)
  have cookies: "transaction_cookies c request = Inr ?t"
    using assms(9) by (intro transaction_read_back [OF assms(10) t(4,5) redirect _ assms(6,7) t(2,1) assms(3,2,4,5,18)])
      (simp add: t(3))
  have state: "readCookie request (cookieName c ''state'') = State t"
    using transaction_cookies_Inr(3) [OF cookies] by simp
  have time: "\<not> ExpiresAt ?t < now" "\<not> ExpiresAt ?t < now'" "ExpiresAt ?t \<noteq> zero_time"
    using assms(15,19,20) by auto
  have transaction: "on_world (TransactionFromRequest (Now env) c request) s = (Inr ?t, s\<lparr>World := w1\<rparr>)"
    using cookies time assms(16) by (simp add: on_world_def TransactionFromRequest_def)
  have "exchange_form c \<lparr>Code = code, RequestState = State t, Transaction = ?t\<rparr> =
      exchange_form c \<lparr>Code = code, RequestState = State t, Transaction = t\<rparr>"
    by (simp add: exchange_form_def)
  then have exchange: "Exchange env c \<lparr>Code = code, RequestState = State t, Transaction = ?t\<rparr> (s\<lparr>World := w1\<rparr>) =
      (Inr (tokens, p), s')"
    using time assms(6,7,13,17,21) by (simp add: Exchange_def constantTimeEqual_def on_world_def)
  have "safeRedirect (RedirectPath t) = safeRedirect target"
    using safeRedirect_valid by (simp add: t(6) safeRedirect_def [of "safeRedirect target"])
  then show ?thesis
    unfolding Callback_def Let_def state assms(11,12,14) transaction prod.case sum.case exchange
    using assms(7,13) by (simp add: constantTimeEqual_def)
qed

section \<open>What \<open>New\<close> makes sure of\<close>

lemma cut_Some: "cut c s = (a, Some b) \<Longrightarrow> s = a @ c # b"
  and cut_None: "cut c s = (a, None) \<Longrightarrow> s = a"
  by (induction s arbitrary: a) (auto split: if_splits prod.splits)

lemma unescape_not_Nil: "url_unescape mode (c # s) \<noteq> Some []"
proof -
  have m: "map_option ((#) x) r \<noteq> Some []" for x :: char and r by (cases r) simp_all
  show ?thesis
  proof (cases "c = CHR ''%''")
    case True
    then show ?thesis by (cases s rule: remdups_adj.cases) (simp_all add: m split: option.split)
  next
    case False
    then show ?thesis unfolding url_unescape.simps by (simp only: m if_False split: if_split) simp
  qed
qed

lemma validLocalRoute_local:
  assumes "validLocalRoute p"
  shows "local_location p"
proof -
  obtain u where u: "url_Parse p = Some u" "Fragment u = []" "validAbsolutePath p"
    using assms by (auto simp: validLocalRoute_def split: option.splits)
  obtain base frag where cut: "cut CHR ''#'' p = (base, frag)" by (rule prod.exhaust)
  have "parse_base base \<noteq> None" using u(1) cut by (auto simp: url_Parse_def split: option.splits)
  then have "\<not> list_ex ctl_byte base" unfolding parse_base_def by (rule contrapos_nn) simp
  then have base: "list_all (\<lambda>c. \<not> ctl_byte c) base" by (simp add: list_all_iff list_ex_iff)
  have "frag = None \<or> frag = Some []"
  proof (cases frag)
    case (Some f)
    show ?thesis
    proof (cases f)
      case (Cons c f')
      with Some u(1) cut obtain u0 fr where "u = u0\<lparr>Fragment := fr, RawFragment := (if f = url_escape FragmentMode fr then [] else f)\<rparr>"
        "url_unescape FragmentMode f = Some fr"
        by (auto simp: url_Parse_def setFragment_def split: option.splits)
      with u(2) unescape_not_Nil [of FragmentMode c f'] Cons show ?thesis by simp
    qed (use Some in simp)
  qed simp
  then have "p = base \<or> p = base @ ''#''" using cut cut_Some cut_None by fastforce
  with base have "list_all (\<lambda>c. \<not> ctl_byte c) p" by (auto simp: ctl_byte_def)
  then show ?thesis by (rule validAbsolutePath_local [OF u(3)])
qed

lemma default_to_pos: "0 < d \<Longrightarrow> 0 < default_to d v"
  by (simp add: default_to_def)

text \<open>C38: A configuration \<open>New\<close> accepts has local callback, login and logout paths and a valid redirect after the
  logout, positive lifetimes, skew and key age, at least one provider, gated paths that are local routes or
  such a route with everything below it, and cookie names that are tokens.\<close>

theorem auth_New_well_formed:
  assumes "auth_New config = Inr c"
  shows "local_location (CallbackPath c) \<and> local_location (LoginPath c) \<and> local_location (LogoutPath c)
    \<and> validAbsolutePath (LogoutRedirect c) \<and> Providers c \<noteq> [] \<and> valid_cookie_name (cookieName c ''at'')
    \<and> list_all (\<lambda>g. local_location (if HasSuffix g ''/*'' then TrimSuffix g ''*'' else g)) (GatedPaths c)
    \<and> list_all (\<lambda>d. 0 < d) [AccessTokenMaxAge c, RefreshTokenMaxAge c, TransactionMaxAge c, ClockSkew c, JWKSCacheTTL c]"
proof -
  from assms have r: "validLocalRoute (CallbackPath c)" "validLocalRoute (LoginPath c)" "validLocalRoute (LogoutPath c)"
    "validAbsolutePath (LogoutRedirect c)" "Providers c \<noteq> []" "valid_cookie_name (CookiePrefix c @ ''_at'')"
    "list_all validGatedPath (GatedPaths c)"
    and d: "\<exists>a b t k j. AccessTokenMaxAge c = default_to (15 * minute) a \<and> RefreshTokenMaxAge c = default_to (30 * 24 * hour) b
       \<and> TransactionMaxAge c = default_to (10 * minute) t \<and> ClockSkew c = default_to minute k
       \<and> JWKSCacheTTL c = default_to (10 * minute) j"
    by (auto simp: auth_New_def Let_def go_result split: sum.splits if_splits)
  have "0 < minute" "0 < hour" by code_simp+
  with d have "list_all (\<lambda>d. 0 < d) [AccessTokenMaxAge c, RefreshTokenMaxAge c, TransactionMaxAge c, ClockSkew c, JWKSCacheTTL c]"
    by (auto intro!: default_to_pos)
  moreover have "list_all (\<lambda>g. local_location (if HasSuffix g ''/*'' then TrimSuffix g ''*'' else g)) (GatedPaths c)"
    using r(7) validLocalRoute_local by (auto simp: list_all_iff validGatedPath_def)
  ultimately show ?thesis
    using r validLocalRoute_local by (simp add: cookieName_def)
qed

theorem auth_New_well_formed_witness:
  "\<exists>c. auth_New idp_config = Inr c \<and> local_location (LoginPath c) \<and> 0 < ClockSkew c"
proof -
  have "auth_New idp_config = Inr idp_config" by code_simp
  then show ?thesis using auth_New_well_formed [of idp_config idp_config] by auto
qed

end
