(* ===== verification/Auth_Example.thy ===== *)
theory Auth_Example
  imports Auth_Http
begin

text \<open>
  The program \<open>auth/cmd/example\<close>: a server that puts the handlers of package \<open>auth\<close> behind its
  middleware. The environment is read from the world; the request's host and whether it came over TLS
  are arguments, as is the location \<open>ServeMux\<close> sends a path to that is not clean. Requests with the
  method CONNECT, whose paths \<open>ServeMux\<close> does not clean, are not modelled.
\<close>

section \<open>net/http: ServeMux\<close>

text \<open>Patterns without wildcards: a path is compared segment by segment, each segment unescaped; a slash at
  its end is a segment of its own. The pattern \<open>/\<close> takes what no other pattern matches.\<close>

definition cleanPath :: "string \<Rightarrow> string" where
  "cleanPath p =
     (if p = [] then ''/''
      else (let p' = (if hd p = CHR ''/'' then p else CHR ''/'' # p); np = Clean p' in
            if last p' = CHR ''/'' \<and> np \<noteq> ''/'' then np @ ''/'' else np))"

definition pathUnescape :: "string \<Rightarrow> string" where
  "pathUnescape s = (case url_unescape PathMode s of Some u \<Rightarrow> u | None \<Rightarrow> s)"

definition firstSegment :: "string \<Rightarrow> string \<times> string" where
  "firstSegment p =
     (if p = ''/'' then (''/'', [])
      else (pathUnescape (takeWhile (\<lambda>c. c \<noteq> CHR ''/'') (tl p)), dropWhile (\<lambda>c. c \<noteq> CHR ''/'') (tl p)))"

lemma firstSegment_shorter: "p \<noteq> [] \<Longrightarrow> length (snd (firstSegment p)) < length p"
proof (cases p)
  case (Cons c s)
  have "length (dropWhile (\<lambda>c. c \<noteq> CHR ''/'') s) \<le> length s" by (rule length_dropWhile_le)
  with Cons show ?thesis by (simp add: firstSegment_def)
qed simp

function path_segments :: "string \<Rightarrow> string list" where
  "path_segments p = (if p = [] then [] else fst (firstSegment p) # path_segments (snd (firstSegment p)))"
  by auto
termination by (relation "measure length") (use firstSegment_shorter in auto)

declare path_segments.simps [simp del]

datatype route = LoginRoute | CallbackRoute | LogoutRoute | WhoamiRoute | IndexRoute

definition match_route :: "string \<Rightarrow> route" where
  "match_route path =
     (let segments = path_segments path in
      if segments = [''login''] then LoginRoute
      else if segments = [''api'', ''auth'', ''callback''] then CallbackRoute
      else if segments = [''logout''] then LogoutRoute
      else if segments = [''private'', ''whoami''] then WhoamiRoute
      else IndexRoute)"

datatype mux_result = Matched route | NotClean | Asterisk

definition mux_target :: "http_in \<Rightarrow> mux_result" where
  "mux_target request =
     (let escaped = EscapedPath (InURL request) in
      if url_Path (InURL request) = ''*'' then Asterisk
      else if cleanPath escaped \<noteq> escaped then NotClean
      else Matched (match_route escaped))"

section \<open>The handlers\<close>

datatype response = Answer auth_outcome | Page string

definition index_page :: string where
  "index_page = ''<a href=\"/login?provider=google&redirect=/private/whoami\">Sign in</a>''"

definition whoami_page :: "principal \<Rightarrow> string" where
  "whoami_page p = ''subject='' @ Subject p @ '' user_id='' @ UserID p @ '' roles=['' @ Join (Roles p) '' '' @ '']'' @ [CHR 0x0A]"

definition whoami :: "principal option \<Rightarrow> response" where
  "whoami p = (case p of None \<Rightarrow> Answer (Refused 401 ''Unauthenticated'') | Some q \<Rightarrow> Page (whoami_page q))"

definition login ::
  "('w, 'e) auth_env \<Rightarrow> auth_config \<Rightarrow> bool \<Rightarrow> string \<Rightarrow> http_in \<Rightarrow> 'w \<Rightarrow> (cookie list \<times> auth_outcome) \<times> 'w" where
  "login env c tls host request w =
     (let origin = empty_url\<lparr>url_Scheme := (if tls then ''https'' else ''http''), Host := host\<rparr> in
      case Authorize env c (Some origin) (query_value request ''provider'') (query_value request ''redirect'') w of
        (Inl e, w1) \<Rightarrow> (([], Refused 400 ''Invalid login request''), w1)
      | (Inr (target, transaction), w1) \<Rightarrow>
          ((SetTransactionCookies c transaction, http_Redirect request (url_String target)), w1))"

definition handle_route ::
  "('w, 'e) auth_env \<Rightarrow> auth_config \<Rightarrow> bool \<Rightarrow> string \<Rightarrow> http_in \<Rightarrow> principal option \<Rightarrow> route \<Rightarrow> 'w auth_state
    \<Rightarrow> (cookie list \<times> response) \<times> 'w auth_state" where
  "handle_route env c tls host request p r s =
     (let answer = (\<lambda>((cookies, out), s1). ((cookies, Answer out), s1)) in
      case r of
        LoginRoute \<Rightarrow> answer (on_world (login env c tls host request) s)
      | CallbackRoute \<Rightarrow> answer (Callback env c request s)
      | LogoutRoute \<Rightarrow> answer (on_world (Logout env c request) s)
      | WhoamiRoute \<Rightarrow> (([], whoami p), s)
      | IndexRoute \<Rightarrow> (([], Page index_page), s))"

definition serve_mux ::
  "(http_in \<Rightarrow> string) \<Rightarrow> ('w, 'e) auth_env \<Rightarrow> auth_config \<Rightarrow> bool \<Rightarrow> string \<Rightarrow> http_in \<Rightarrow> principal option \<Rightarrow> 'w auth_state
    \<Rightarrow> (cookie list \<times> response) \<times> 'w auth_state" where
  "serve_mux clean_url env c tls host request p s =
     (case mux_target request of
        Matched r \<Rightarrow> handle_route env c tls host request p r s
      | NotClean \<Rightarrow> (([], Answer (http_Redirect request (clean_url request))), s)
      | Asterisk \<Rightarrow> (([], Answer (Refused 400 [])), s))"

text \<open>\<open>client.Middleware(mux)\<close>: what the middleware hands on goes to the routes, with its principal and after its
  cookies.\<close>

definition serve ::
  "(http_in \<Rightarrow> string) \<Rightarrow> ('w, 'e) auth_env \<Rightarrow> auth_config \<Rightarrow> bool \<Rightarrow> string \<Rightarrow> http_in \<Rightarrow> 'w auth_state
    \<Rightarrow> (cookie list \<times> response) \<times> 'w auth_state" where
  "serve clean_url env c tls host request s =
     (case Middleware env c request s of
        ((cookies, Served p), s1) \<Rightarrow>
          (case serve_mux clean_url env c tls host request p s1 of ((added, r), s2) \<Rightarrow> ((cookies @ added, r), s2))
      | ((cookies, out), s1) \<Rightarrow> ((cookies, Answer out), s1))"

section \<open>main\<close>

definition environment :: "(string \<Rightarrow> string) \<Rightarrow> string \<Rightarrow> string \<Rightarrow> string" where
  "environment getenv name fallback = (if getenv name \<noteq> [] then getenv name else fallback)"

definition environmentSecret ::
  "('w \<Rightarrow> string \<Rightarrow> string) \<Rightarrow> string \<Rightarrow> 'w \<Rightarrow> ('w \<Rightarrow> (string + string) \<times> 'w) option" where
  "environmentSecret getenv name w =
     (if getenv w name = [] then None
      else Some (\<lambda>w1. (if getenv w1 name = [] then Inl ''secret binding is unavailable'' else Inr (getenv w1 name), w1)))"

definition example_config :: "(string \<Rightarrow> string) \<Rightarrow> auth_config" where
  "example_config getenv = \<lparr>Issuer = environment getenv ''AUTH_ISSUER'' ''https://auth.fulcrum-labs.com'',
     IssuerInternal = getenv ''AUTH_ISSUER_INTERNAL'',
     AuthClientID = environment getenv ''AUTH_CLIENT_ID'' ''fulcrum-projects'',
     Resource = environment getenv ''AUTH_RESOURCE'' ''http://localhost:4321'',
     CallbackPath = ''/api/auth/callback'', CookiePrefix = ''example'', SessionCookieDomain = [],
     Providers = [''google'', ''password'', ''email-code''], GatedPaths = [''/private/*''],
     LoginPath = ''/login'', LogoutPath = ''/logout'', LogoutRedirect = ''/'',
     AccessTokenMaxAge = 0, RefreshTokenMaxAge = 0, TransactionMaxAge = 0, ClockSkew = 0, JWKSCacheTTL = 0\<rparr>"

record ('w, 'e) example =
  ServerAddr :: string
  ClientEnv :: "('w, 'e) auth_env"
  ClientConfig :: auth_config

text \<open>What is served until the process ends, or the error it ends with; \<open>env\<close> holds the server of the issuer, the
  clock, the random source and the signature check.\<close>

definition example_main :: "('w, string) auth_env \<Rightarrow> ('w \<Rightarrow> string \<Rightarrow> string) \<Rightarrow> 'w \<Rightarrow> auth_error + ('w, string) example" where
  "example_main env getenv w =
     (case auth_New (example_config (getenv w)) of
        Inl e \<Rightarrow> Inl e
      | Inr c \<Rightarrow> Inr \<lparr>ServerAddr = environment (getenv w) ''ADDR'' '':4321'',
          ClientEnv = env\<lparr>ClientSecret := environmentSecret getenv ''AUTH_CLIENT_SECRET'' w\<rparr>, ClientConfig = c\<rparr>)"

section \<open>Only the user's own page\<close>

lemma unescape_slash:
  "url_unescape PathMode (a @ CHR ''/'' # b) =
     (case url_unescape PathMode a of None \<Rightarrow> None | Some x \<Rightarrow> map_option (\<lambda>y. x @ CHR ''/'' # y) (url_unescape PathMode b))"
proof (induction PathMode a rule: url_unescape.induct)
  case (2 c s)
  have hex: "hex_val CHR ''/'' = None" by code_simp
  show ?case
  proof (cases "c = CHR ''%''")
    case True
    show ?thesis
    proof (cases s rule: remdups_adj.cases)
      case (3 x y r)
      show ?thesis
      proof (cases "hex_val x = None \<or> hex_val y = None")
        case True
        with \<open>c = CHR ''%''\<close> 3 show ?thesis by (auto split: option.splits)
      next
        case False
        then obtain m n where mn: "hex_val x = Some m" "hex_val y = Some n" by auto
        have "url_unescape PathMode (r @ CHR ''/'' # b) = (case url_unescape PathMode r of None \<Rightarrow> None
            | Some x \<Rightarrow> map_option (\<lambda>y. x @ CHR ''/'' # y) (url_unescape PathMode b))"
          by (rule 2(1) [OF True 3 refl refl mn]) simp
        with True 3 mn show ?thesis by (auto simp: option.map_comp comp_def split: option.splits)
      qed
    qed (use True hex in \<open>auto split: list.splits option.splits\<close>)
  next
    case False
    then show ?thesis using 2(2) by (auto simp: option.map_comp comp_def split: option.splits)
  qed
qed simp

lemma unescape_EscapedPath: "url_unescape PathMode (EscapedPath u) = Some (url_Path u)"
proof -
  have "url_unescape PathMode ''*'' = Some ''*''" by code_simp
  then show ?thesis by (auto simp: EscapedPath_def url_unescape_escape)
qed

text \<open>A path is the concatenation of its segments.\<close>

lemma path_segments_join:
  assumes "e = [] \<or> hd e = CHR ''/''" "url_unescape PathMode e = Some p" "''/'' \<notin> set (path_segments e)"
  shows "p = concat (map ((#) CHR ''/'') (path_segments e))"
  using assms
proof (induction e arbitrary: p rule: path_segments.induct)
  case (1 e)
  show ?case
  proof (cases "e = []")
    case True
    with 1 show ?thesis by (simp add: path_segments.simps)
  next
    case False
    note segs = path_segments.simps [of e, unfolded if_not_P [OF False]]
    from False 1 obtain r where r: "e = CHR ''/'' # r" by (cases e) auto
    have "e \<noteq> ''/''" using 1(4) by (auto simp: segs firstSegment_def)
    with r have first: "firstSegment e =
        (pathUnescape (takeWhile (\<lambda>c. c \<noteq> CHR ''/'') r), dropWhile (\<lambda>c. c \<noteq> CHR ''/'') r)"
      by (simp add: firstSegment_def)
    define a b where "a = takeWhile (\<lambda>c. c \<noteq> CHR ''/'') r" and "b = dropWhile (\<lambda>c. c \<noteq> CHR ''/'') r"
    have b: "b = [] \<or> hd b = CHR ''/''" unfolding b_def using hd_dropWhile by blast
    have "url_unescape PathMode (CHR ''/'' # r) = map_option ((#) CHR ''/'') (url_unescape PathMode r)" by simp
    with 1(3) r obtain q where q: "url_unescape PathMode (a @ b) = Some q" "p = CHR ''/'' # q"
      unfolding a_def b_def takeWhile_dropWhile_id by auto
    have "\<exists>x y. url_unescape PathMode a = Some x \<and> url_unescape PathMode b = Some y \<and> q = x @ y"
    proof (cases b)
      case Nil
      with q show ?thesis by simp
    next
      case (Cons c b')
      with b have "b = CHR ''/'' # b'" by simp
      with q(1) show ?thesis by (auto simp: unescape_slash split: option.splits)
    qed
    then obtain x y where xy: "url_unescape PathMode a = Some x" "url_unescape PathMode b = Some y" "q = x @ y" by blast
    have "fst (firstSegment e) = x" "snd (firstSegment e) = b" using xy(1) by (simp_all add: first a_def b_def pathUnescape_def)
    with 1(1) [OF False _ _, of y] b xy 1(4) q(2) show ?thesis by (simp add: segs)
  qed
qed

lemma cleanPath_rooted: "hd (cleanPath e) = CHR ''/''"
proof (cases "e = []")
  case False
  define p where "p = (if hd e = CHR ''/'' then e else CHR ''/'' # e)"
  have "is_abs p" using False by (cases e) (simp_all add: p_def is_abs_def HasPrefix_def)
  then obtain s where s: "Clean p = CHR ''/'' # s" by (rule Clean_rooted)
  show ?thesis unfolding cleanPath_def Let_def p_def [symmetric] s if_not_P [OF False] by (simp only: append_Cons list.sel simp_thms split: if_split)
qed (simp add: cleanPath_def)

lemma whoami_path:
  assumes "mux_target request = Matched WhoamiRoute"
  shows "url_Path (InURL request) = ''/private/whoami''"
proof -
  let ?e = "EscapedPath (InURL request)"
  from assms have "cleanPath ?e = ?e" and segs: "path_segments ?e = [''private'', ''whoami'']"
    by (auto simp: mux_target_def match_route_def Let_def split: if_splits)
  with cleanPath_rooted [of ?e] have "hd ?e = CHR ''/''" by simp
  with path_segments_join [OF _ unescape_EscapedPath, of "InURL request"] segs show ?thesis by simp
qed

text \<open>What the configuration of the program comes to.\<close>

lemma auth_New_Inr:
  assumes "auth_New config = Inr c"
  shows "GatedPaths c = GatedPaths config \<and> CallbackPath c = default_path ''/api/auth/callback'' (CallbackPath config) \<and>
    LoginPath c = default_path ''/login'' (LoginPath config) \<and> LogoutPath c = default_path ''/logout'' (LogoutPath config) \<and>
    TransactionMaxAge c = default_to (10 * minute) (TransactionMaxAge config) \<and> Providers c = Providers config"
  using assms unfolding auth_New_def Let_def
  by (simp only: rbind_Inr_iff sum.simps split: sum.splits) (elim exE conjE, hypsubst, simp)

lemma example_main_client:
  assumes "example_main env getenv w = Inr x"
  shows "GatedPaths (ClientConfig x) = [''/private/*'']" "CallbackPath (ClientConfig x) = ''/api/auth/callback''"
    "LoginPath (ClientConfig x) = ''/login''" "LogoutPath (ClientConfig x) = ''/logout''"
proof -
  from assms have new: "auth_New (example_config (getenv w)) = Inr (ClientConfig x)"
    by (auto simp: example_main_def split: sum.splits)
  show "GatedPaths (ClientConfig x) = [''/private/*'']" "CallbackPath (ClientConfig x) = ''/api/auth/callback''"
    "LoginPath (ClientConfig x) = ''/login''" "LogoutPath (ClientConfig x) = ''/logout''"
    using auth_New_Inr [OF new] by (simp_all add: example_config_def default_path_def)
qed

lemma example_gated: "GatedPaths c = [''/private/*''] \<Longrightarrow> isGated c ''/private/whoami''"
proof -
  have "HasSuffix ''/private/*'' ''/*'' \<and> HasPrefix ''/private/whoami'' (TrimSuffix ''/private/*'' ''*'')" by code_simp
  then show "GatedPaths c = [''/private/*''] \<Longrightarrow> isGated c ''/private/whoami''" by (simp add: isGated_def)
qed

lemma serve_Page:
  assumes "serve clean_url env c tls host request s = ((cookies, Page t), s')"
  shows "\<exists>p s1. Middleware env c request s = ((cookies, Served p), s1) \<and>
    (t = index_page \<or> (\<exists>q. p = Some q \<and> t = whoami_page q \<and> url_Path (InURL request) = ''/private/whoami''))"
  using assms
  by (auto simp: serve_def serve_mux_def handle_route_def whoami_def Let_def whoami_path
      split: prod.splits auth_outcome.splits mux_result.splits route.splits option.splits)

lemma not_refused_401:
  "login env c tls host request w = ((cookies, out), w') \<Longrightarrow> out \<noteq> Refused 401 body"
  "Logout env c request w = ((cookies, out), w') \<Longrightarrow> out \<noteq> Refused 401 body"
  "Callback env c request s = ((cookies, out), s') \<Longrightarrow> out \<noteq> Refused 401 body"
  by (auto simp: login_def Logout_def Callback_def Let_def http_Redirect_def writeServiceUnavailable_def redirectLoginFailure_def
      split: prod.splits sum.splits if_splits)

lemma serve_Unauthenticated:
  assumes "serve clean_url env c tls host request s = ((cookies, Answer (Refused 401 body)), s')"
  shows "url_Path (InURL request) = ''/private/whoami'' \<and> (\<exists>s1. Middleware env c request s = ((cookies, Served None), s1))"
proof -
  obtain cs out s1 where m: "Middleware env c request s = ((cs, out), s1)" by (metis prod.exhaust)
  have "out \<noteq> Refused n t" for n t
    using m by (auto simp: Middleware_def Let_def middleware_gate_def http_Redirect_def writeServiceUnavailable_def
        split: prod.splits sum.splits option.splits if_splits)
  with m assms obtain p where p: "out = Served p" by (cases out) (auto simp: serve_def)
  with m assms obtain added s2 where mux: "serve_mux clean_url env c tls host request p s1 = ((added, Answer (Refused 401 body)), s2)"
    "cookies = cs @ added" by (auto simp: serve_def split: prod.splits)
  then have "mux_target request = Matched WhoamiRoute \<and> added = [] \<and> p = None"
    by (auto dest: not_refused_401 simp: serve_mux_def handle_route_def whoami_def on_world_eq Let_def http_Redirect_def
        split: prod.splits mux_result.splits route.splits option.splits)
  with m p mux(2) whoami_path show ?thesis by simp
qed

lemma whoami_not_anonymous:
  assumes "example_main env getenv w = Inr x" and "url_Path (InURL request) = ''/private/whoami''"
    and "cache_ok (Cache s)"
  shows "Middleware (ClientEnv x) (ClientConfig x) request s \<noteq> ((cookies, Served None), s1)"
proof
  assume m: "Middleware (ClientEnv x) (ClientConfig x) request s = ((cookies, Served None), s1)"
  note cfg = example_main_client [OF assms(1)]
  obtain a r where t: "SessionTokens (ClientConfig x) request = (a, r)" by (rule prod.exhaust)
  have "isAuthRoute (ClientConfig x) ''/private/whoami'' \<or> \<not> isGated (ClientConfig x) ''/private/whoami''"
    using Middleware_hands_on [OF m assms(3) t assms(2)] by simp
  with example_gated [OF cfg(1)] cfg show False by (simp add: isAuthRoute_def)
qed

section \<open>The requests of a browser\<close>

definition example_request :: "string \<Rightarrow> string \<Rightarrow> (string \<times> string) list \<Rightarrow> http_in" where
  "example_request path query cookies = \<lparr>InURL = empty_url\<lparr>url_Path := path, RawQuery := query\<rparr>, InCookies = cookies, InAccept = []\<rparr>"

lemma example_request_simps [simp]:
  "url_Path (InURL (example_request path query cookies)) = path" "InCookies (example_request path query cookies) = cookies"
  "query_value (example_request path query cookies) k = Values_Get (ParseQuery query) k"
  by (simp_all add: example_request_def query_value_def url_Query_def empty_url_def)

lemma example_routes:
  "mux_target (example_request ''/login'' query cookies) = Matched LoginRoute"
  "mux_target (example_request ''/api/auth/callback'' query cookies) = Matched CallbackRoute"
  "mux_target (example_request ''/private/whoami'' query cookies) = Matched WhoamiRoute"
proof -
  have esc: "EscapedPath (InURL (example_request path query cookies)) = (if path = ''*'' then ''*'' else url_escape PathMode path)" for path
    by (simp add: example_request_def EscapedPath_def empty_url_def)
  have clean: "cleanPath ''/login'' = ''/login''" "cleanPath ''/api/auth/callback'' = ''/api/auth/callback''"
    "cleanPath ''/private/whoami'' = ''/private/whoami''"
    and same: "url_escape PathMode ''/login'' = ''/login''" "url_escape PathMode ''/api/auth/callback'' = ''/api/auth/callback''"
    "url_escape PathMode ''/private/whoami'' = ''/private/whoami''" by code_simp+
  have "match_route ''/login'' = LoginRoute" "match_route ''/api/auth/callback'' = CallbackRoute"
    "match_route ''/private/whoami'' = WhoamiRoute" by code_simp+
  then show "mux_target (example_request ''/login'' query cookies) = Matched LoginRoute"
    "mux_target (example_request ''/api/auth/callback'' query cookies) = Matched CallbackRoute"
    "mux_target (example_request ''/private/whoami'' query cookies) = Matched WhoamiRoute"
    by (simp_all add: mux_target_def esc Let_def clean same)
qed

lemma serve_auth_route:
  assumes "isAuthRoute c (url_Path (InURL request))" "mux_target request = Matched r"
  shows "serve clean_url env c tls host request s = handle_route env c tls host request None r s"
  using assms by (simp add: serve_def serve_mux_def Middleware_def split: prod.split)

lemma requestTokens_access: "requestTokens env c form s = (Inr (tokens, p), s') \<Longrightarrow> AccessToken tokens \<noteq> []"
  by (auto simp: requestTokens_def requestTokensResolved_def and_then_Inr_iff token_response_def Let_def split: if_splits prod.splits)

lemma whoami_anonymous:
  assumes "isGated c ''/private/whoami''" "\<not> isAuthRoute c ''/private/whoami''" "LoginPath c = ''/login''"
  shows "serve clean_url env c tls host (example_request ''/private/whoami'' [] []) s =
    (([], Answer (Redirected ''/login?redirect=%2Fprivate%2Fwhoami'')), s)"
proof -
  let ?r = "example_request ''/private/whoami'' [] []"
  have "gatedRedirectTarget ?r = ''/private/whoami''" by code_simp
  moreover have "redirect_location ''/private/whoami'' (''/login'' @ ''?'' @ Values_Encode [(''redirect'', [''/private/whoami''])])
      = ''/login?redirect=%2Fprivate%2Fwhoami''" by code_simp
  ultimately have "middleware_gate c ?r None = Redirected ''/login?redirect=%2Fprivate%2Fwhoami''"
    using assms by (simp add: middleware_gate_def http_Redirect_def login_url_def)
  moreover have "SessionTokens c ?r = ([], [])" by (simp add: SessionTokens_def readCookie_def)
  ultimately show ?thesis
    using assms by (simp add: serve_def Middleware_def middleware_secret_def middleware_access_def)
qed

lemma session_read_back:
  assumes "list_all cookie_value_byte (AccessToken t)" "list_all cookie_value_byte (RefreshToken t)"
  shows "SessionTokens c (example_request path query (sent_back (SetSessionCookies c t))) = (AccessToken t, RefreshToken t)"
  using assms
  by (simp add: SessionTokens_def readCookie_def sent_back_def SetSessionCookies_def setCookie_def list_all_iff filter_id_conv)

lemma whoami_with_session:
  assumes "isGated c ''/private/whoami''" "\<not> isAuthRoute c ''/private/whoami''"
    and "AccessToken t \<noteq> []" "list_all cookie_value_byte (AccessToken t)" "list_all cookie_value_byte (RefreshToken t)"
    and "middleware_secret env (RefreshToken t) s = (Inr secret, s1)" "Verify env c (AccessToken t) s1 = (Inr q, s2)"
  shows "serve clean_url env c tls host (example_request ''/private/whoami'' [] (sent_back (SetSessionCookies c t))) s =
    (([], Page (whoami_page q)), s2)"
  using assms session_read_back [OF assms(4,5)]
  by (simp add: serve_def serve_mux_def example_routes handle_route_def whoami_def Middleware_def middleware_access_def middleware_gate_def)

lemma example_target: "validAbsolutePath ''/private/whoami''" "list_all cookie_value_byte ''/private/whoami''"
  "Values_Get (ParseQuery ''redirect=%2Fprivate%2Fwhoami'') ''redirect'' = ''/private/whoami''"
  "Values_Get (ParseQuery ''redirect=%2Fprivate%2Fwhoami'') ''provider'' = []"
  "HasPrefix ''/api/auth/callback'' ''/''" "list_all wire_char ''/api/auth/callback''"
  "redirect_location ''/api/auth/callback'' ''/private/whoami'' = ''/private/whoami''"
  by code_simp+

section \<open>A concrete run\<close>

definition idp_getenv :: "nat \<Rightarrow> string \<Rightarrow> string" where
  "idp_getenv w name =
     (case map_of [(''AUTH_ISSUER'', ''https://a.b''), (''AUTH_CLIENT_ID'', ''c''), (''AUTH_RESOURCE'', ''https://r.b'')] name of
        None \<Rightarrow> [] | Some v \<Rightarrow> v)"

definition idp_example :: "go_time \<Rightarrow> (nat, string) example" where
  "idp_example now = \<lparr>ServerAddr = '':4321'', ClientEnv = idp_env now,
     ClientConfig = idp_config\<lparr>CallbackPath := ''/api/auth/callback'', CookiePrefix := ''example'',
       Providers := [''google'', ''password'', ''email-code''], GatedPaths := [''/private/*'']\<rparr>\<rparr>"

lemma idp_example_main: "example_main (idp_env now) idp_getenv w = Inr (idp_example now)"
proof -
  have "auth_New (example_config (idp_getenv w)) = Inr (ClientConfig (idp_example now))"
    unfolding idp_getenv_def idp_example_def example.simps by code_simp
  moreover have "environment (idp_getenv w) ''ADDR'' '':4321'' = '':4321''" "idp_getenv w ''AUTH_CLIENT_SECRET'' = []"
    by (simp_all add: environment_def idp_getenv_def)
  ultimately show ?thesis
    by (simp add: example_main_def environmentSecret_def idp_example_def idp_env_def)
qed

text \<open>The paths and the names of the cookies play no part in the verification or the token requests.\<close>

lemma Verify_routes:
  "Verify env (c\<lparr>CallbackPath := cb, CookiePrefix := cp, Providers := ps, GatedPaths := gs\<rparr>) = Verify env c"
proof -
  let ?c = "c\<lparr>CallbackPath := cb, CookiePrefix := cp, Providers := ps, GatedPaths := gs\<rparr>"
  have "fetchJWKS env ?c = fetchJWKS env c" by (intro ext) (simp add: fetchJWKS_def)
  moreover have "JWKSCacheTTL ?c = JWKSCacheTTL c" by simp
  ultimately have "signingKey env ?c = signingKey env c" by (intro ext) (simp only: signingKey_def cong: if_cong)
  moreover have "ClockSkew ?c = ClockSkew c" "Issuer ?c = Issuer c" "Resource ?c = Resource c" by simp_all
  then have "validateClaims env ?c = validateClaims env c"
    by (intro ext) (simp only: validateClaims_def claims_timely_def)
  ultimately show ?thesis by (intro ext) (simp add: Verify_def)
qed

lemma requestTokens_routes:
  "requestTokens env (c\<lparr>CallbackPath := cb, CookiePrefix := cp, Providers := ps, GatedPaths := gs\<rparr>) = requestTokens env c"
proof -
  let ?c = "c\<lparr>CallbackPath := cb, CookiePrefix := cp, Providers := ps, GatedPaths := gs\<rparr>"
  have "AuthClientID ?c = AuthClientID c" "IssuerInternal ?c = IssuerInternal c" by simp_all
  then have "form_request ?c = form_request c" by (intro ext) (simp only: form_request_def)
  then have "postFormResolved env ?c = postFormResolved env c" by (intro ext) (simp add: postFormResolved_def)
  then show ?thesis by (intro ext) (simp add: requestTokens_def requestTokensResolved_def Verify_routes)
qed

lemma plain_host_name: "n \<noteq> [] \<Longrightarrow> list_all host_char n \<Longrightarrow> plain_host n"
  unfolding plain_host_def validOptionalPort_def by (rule exI [of _ n], rule exI [of _ "[]"]) simp

lemma idp_example_Authorize:
  "\<exists>u. Authorize (idp_env (59 * second)) (ClientConfig (idp_example (59 * second)))
     (Some (empty_url\<lparr>url_Scheme := (if True then ''https'' else ''http''), Host := ''app.b''\<rparr>)) [] ''/private/whoami'' (World (idp_at 0))
   = (Inr (u, idp_transaction\<lparr>RedirectPath := ''/private/whoami'', CallbackURI := ''https://app.b/api/auth/callback'',
       ExpiresAt := 659 * second\<rparr>), 0)"
proof -
  let ?c = "ClientConfig (idp_example (59 * second))"
  have parts: "url_Parse (Issuer ?c @ ''/authorize'') \<noteq> None" "safeRedirect ''/private/whoami'' = ''/private/whoami''"
    "callback_uri ?c (empty_url\<lparr>url_Scheme := ''https'', Host := ''app.b''\<rparr>) = ''https://app.b/api/auth/callback''"
    "time_Add (59 * second) (10 * minute) = 659 * second" "TransactionMaxAge ?c = 10 * minute" by code_simp+
  have "http_scheme ''https''" by (simp add: http_scheme_def)
  with parts show ?thesis
    by (auto simp: Authorize_def randomBase64URL_def idp_transaction_def Let_def idp_at_def)
qed

section \<open>Properties\<close>

text \<open>C12: The example shows the identity page to its owner only: whatever is requested, over whatever cookies, the
  server answers 401 to nobody (the middleware has sent the anonymous to the login before), and a page it answers
  is the index page, or the page of the principal whose access token, in the session cookie or just
  refreshed and set as the session, is proved by the issuer's keys, for the path /private/whoami.\<close>

theorem example_pages_are_private:
  assumes "example_main env getenv w = Inr x" and "cache_ok (Cache s)"
    and "serve clean_url (ClientEnv x) (ClientConfig x) tls host request s = ((cookies, r), s')"
    and "SessionTokens (ClientConfig x) request = (access, refresh)"
  shows "(\<forall>body. r \<noteq> Answer (Refused 401 body))
    \<and> (\<forall>t. r = Page t \<longrightarrow> t = index_page
        \<or> (\<exists>q token. t = whoami_page q \<and> url_Path (InURL request) = ''/private/whoami''
            \<and> token_proves (ClientEnv x) (ClientConfig x) token q
            \<and> (token = access \<and> access \<noteq> [] \<and> cookies = []
               \<or> refresh \<noteq> [] \<and> (\<exists>ts. token = AccessToken ts \<and> cookies = SetSessionCookies (ClientConfig x) ts))))"
proof (intro conjI allI impI)
  fix body show "r \<noteq> Answer (Refused 401 body)"
    using serve_Unauthenticated whoami_not_anonymous [OF assms(1) _ assms(2)] assms(3) by metis
next
  fix t assume "r = Page t"
  with assms(3) serve_Page obtain p s1 where m: "Middleware (ClientEnv x) (ClientConfig x) request s = ((cookies, Served p), s1)"
    and t: "t = index_page \<or> (\<exists>q. p = Some q \<and> t = whoami_page q \<and> url_Path (InURL request) = ''/private/whoami'')" by metis
  from t Middleware_hands_on [OF m assms(2,4) refl] show "t = index_page
        \<or> (\<exists>q token. t = whoami_page q \<and> url_Path (InURL request) = ''/private/whoami''
            \<and> token_proves (ClientEnv x) (ClientConfig x) token q
            \<and> (token = access \<and> access \<noteq> [] \<and> cookies = []
               \<or> refresh \<noteq> [] \<and> (\<exists>ts. token = AccessToken ts \<and> cookies = SetSessionCookies (ClientConfig x) ts)))"
    by auto
qed

theorem example_pages_are_private_witness:
  "\<exists>q token. whoami_page idp_principal = whoami_page q \<and> token_proves (idp_env (59 * second)) (ClientConfig (idp_example (59 * second))) token q"
proof -
  let ?x = "idp_example (59 * second)" and ?t = "idp_tokens\<lparr>RefreshToken := []\<rparr>"
  have env: "ClientEnv ?x = idp_env (59 * second)" by (simp add: idp_example_def)
  note cfg = example_main_client [OF idp_example_main [of "59 * second" 0]]
  have gated: "isGated (ClientConfig ?x) ''/private/whoami''" "\<not> isAuthRoute (ClientConfig ?x) ''/private/whoami''"
    using example_gated [OF cfg(1)] by (simp_all add: isAuthRoute_def cfg)
  have bytes: "AccessToken ?t \<noteq> []" "list_all cookie_value_byte (AccessToken ?t)" "list_all cookie_value_byte (RefreshToken ?t)"
    by code_simp+
  have verify: "middleware_secret (idp_env (59 * second)) (RefreshToken ?t) idp_state = (Inr None, idp_state)"
    "Verify (idp_env (59 * second)) (ClientConfig ?x) (AccessToken ?t) idp_state = (Inr idp_principal, idp_fetched (59 * second) 1)"
    using idp_Verify by (simp_all add: middleware_secret_def idp_example_def Verify_routes idp_tokens_def idp_fetched_def)
  note page = whoami_with_session [OF gated bytes verify, folded env]
  have "cache_ok (Cache idp_state)" by (simp add: idp_state_def)
  moreover have "whoami_page idp_principal \<noteq> index_page" by code_simp
  ultimately show ?thesis
    using example_pages_are_private [OF idp_example_main [of "59 * second" 0] _ page session_read_back [OF bytes(2,3)]]
    unfolding env by blast
qed

text \<open>C8: Signing in to the example works from end to end, whatever else is served in between. Somebody without a
  session who opens the identity page is sent to the login with that page as target. The login sends them, with
  the cookies of a transaction, to the authorization URL of the issuer. When they come back with a code and the
  state before the transaction expires, and the tokens the issuer gives for the code and the verifier verify,
  the callback sets the session and sends them to the identity page; and opened with the cookies of this session,
  the page shows the principal its access token verifies to.\<close>

theorem example_sign_in:
  assumes "example_main env0 getenv w = Inr x" and "env = ClientEnv x" "c = ClientConfig x"
    and "plain_host host"
    and "Authorize env c (Some (empty_url\<lparr>url_Scheme := (if tls then ''https'' else ''http''), Host := host\<rparr>)) []
      ''/private/whoami'' (World s2) = (Inr (u, t), w2)"
    and "Verifier t \<noteq> []" "State t \<noteq> []" "code \<noteq> []"
    and "zero_time < now" "Now env (World s3) = (now, w3)" "Now env w3 = (now', w4)" "sane_seconds (ExpiresAt t div second)"
      "now \<le> ExpiresAt t div second * second" "now' \<le> ExpiresAt t div second * second"
    and "requestTokens env c (exchange_form c \<lparr>Code = code, RequestState = State t, Transaction = t\<rparr>) (s3\<lparr>World := w4\<rparr>)
      = (Inr (tokens, p), s4)"
    and "list_all cookie_value_byte (AccessToken tokens)" "list_all cookie_value_byte (RefreshToken tokens)"
    and "middleware_secret env (RefreshToken tokens) s5 = (Inr secret, s6)" "Verify env c (AccessToken tokens) s6 = (Inr q, s7)"
  shows "serve clean_url env c tls host (example_request ''/private/whoami'' [] []) s1
      = (([], Answer (Redirected ''/login?redirect=%2Fprivate%2Fwhoami'')), s1)
    \<and> url_Parse ''/login?redirect=%2Fprivate%2Fwhoami'' = Some (InURL (example_request ''/login'' ''redirect=%2Fprivate%2Fwhoami'' []))
    \<and> serve clean_url env c tls host (example_request ''/login'' ''redirect=%2Fprivate%2Fwhoami'' []) s2
      = ((SetTransactionCookies c t, Answer (Redirected (redirect_location ''/login'' (url_String u)))), s2\<lparr>World := w2\<rparr>)
    \<and> serve clean_url env c tls host (example_request ''/api/auth/callback''
        (Values_Encode [(''code'', [code]), (''state'', [State t])]) (sent_back (SetTransactionCookies c t))) s3
      = ((SetSessionCookies c tokens @ ClearTransactionCookies c, Answer (Redirected ''/private/whoami'')), s4)
    \<and> serve clean_url env c tls host (example_request ''/private/whoami'' [] (sent_back (SetSessionCookies c tokens))) s5
      = (([], Page (whoami_page q)), s7)"
proof (intro conjI)
  note cfg = example_main_client [OF assms(1), folded assms(3)]
  have gated: "isGated c ''/private/whoami''" "\<not> isAuthRoute c ''/private/whoami''"
    and auth: "isAuthRoute c ''/login''" "isAuthRoute c ''/api/auth/callback''"
    using example_gated [OF cfg(1)] by (simp_all add: isAuthRoute_def cfg)
  show "serve clean_url env c tls host (example_request ''/private/whoami'' [] []) s1
      = (([], Answer (Redirected ''/login?redirect=%2Fprivate%2Fwhoami'')), s1)"
    by (rule whoami_anonymous [OF gated cfg(3)])
  show "url_Parse ''/login?redirect=%2Fprivate%2Fwhoami'' = Some (InURL (example_request ''/login'' ''redirect=%2Fprivate%2Fwhoami'' []))"
    by code_simp
  show "serve clean_url env c tls host (example_request ''/login'' ''redirect=%2Fprivate%2Fwhoami'' []) s2
      = ((SetTransactionCookies c t, Answer (Redirected (redirect_location ''/login'' (url_String u)))), s2\<lparr>World := w2\<rparr>)"
    using auth(1) assms(5)
    by (simp add: serve_auth_route [OF _ example_routes(1)] handle_route_def on_world_def login_def http_Redirect_def example_target)
  show "serve clean_url env c tls host (example_request ''/private/whoami'' [] (sent_back (SetSessionCookies c tokens))) s5
      = (([], Page (whoami_page q)), s7)"
    by (rule whoami_with_session [OF gated requestTokens_access [OF assms(15)] assms(16-19)])
  let ?q = "Values_Encode [(''code'', [code]), (''state'', [State t])]"
  let ?r = "example_request ''/api/auth/callback'' ?q (sent_back (SetTransactionCookies c t))"
  let ?origin = "empty_url\<lparr>url_Scheme := (if tls then ''https'' else ''http''), Host := host\<rparr>"
  have query: "query_value ?r ''state'' = State t" "query_value ?r ''code'' = code" "query_value ?r ''error'' = []"
    by (simp_all add: Values_Get_Encode Values_Get_def ParseQuery_Encode)
  have path: "HasPrefix (CallbackPath c) ''/''" "list_all wire_char (CallbackPath c)"
    unfolding cfg(2) by (fact example_target)+
  have "Callback env c ?r s3 = ((SetSessionCookies c tokens @ ClearTransactionCookies c, http_Redirect ?r (safeRedirect ''/private/whoami'')), s4)"
    by (rule Callback_completes [OF assms(5) _ _ path assms(6,7) example_target(2) _ _ query(1,2) assms(8) query(3) assms(9-15)])
      (simp_all add: assms(4))
  then show "serve clean_url env c tls host ?r s3
      = ((SetSessionCookies c tokens @ ClearTransactionCookies c, Answer (Redirected ''/private/whoami'')), s4)"
    using auth(2) example_target(1,7)
    by (simp add: serve_auth_route [OF _ example_routes(2)] handle_route_def safeRedirect_def http_Redirect_def)
qed

theorem example_sign_in_witness:
  "(\<exists>t r. State t \<noteq> [] \<and>
     serve (\<lambda>_. []) (idp_env (59 * second)) (ClientConfig (idp_example (59 * second))) True ''app.b''
      (example_request ''/login'' ''redirect=%2Fprivate%2Fwhoami'' []) (idp_at 0)
      = ((SetTransactionCookies (ClientConfig (idp_example (59 * second))) t, r), idp_at 0))
    \<and> serve (\<lambda>_. []) (idp_env (59 * second)) (ClientConfig (idp_example (59 * second))) True ''app.b''
      (example_request ''/private/whoami'' [] (sent_back (SetSessionCookies (ClientConfig (idp_example (59 * second))) idp_tokens)))
      (idp_at 0) = (([], Page (whoami_page idp_principal)), idp_fetched (59 * second) 1)"
proof -
  let ?x = "idp_example (59 * second)" and ?env = "idp_env (59 * second)"
  let ?t = "idp_transaction\<lparr>RedirectPath := ''/private/whoami'', CallbackURI := ''https://app.b/api/auth/callback'', ExpiresAt := 659 * second\<rparr>"
  have env: "?env = ClientEnv ?x" by (simp add: idp_example_def)
  obtain u where auth: "Authorize ?env (ClientConfig ?x)
      (Some (empty_url\<lparr>url_Scheme := (if True then ''https'' else ''http''), Host := ''app.b''\<rparr>)) [] ''/private/whoami'' (World (idp_at 0))
      = (Inr (u, ?t), 0)" using idp_example_Authorize by blast
  have host: "plain_host ''app.b''" by (rule plain_host_name) code_simp+
  have "RawURLEncoding_encode (replicate 32 (CHR 0x07)) \<noteq> []" by code_simp
  then have some: "Verifier ?t \<noteq> []" "State ?t \<noteq> []" "''x'' \<noteq> []" by (simp_all add: idp_transaction_def Let_def)
  have time: "zero_time < 59 * second" "sane_seconds (ExpiresAt ?t div second)" "59 * second \<le> ExpiresAt ?t div second * second"
    by (simp_all add: zero_time_def second_def sane_seconds_def)
  have now: "Now ?env (World (idp_at 0)) = (59 * second, 0)" "Now ?env 0 = (59 * second, 0)" by (simp_all add: idp_at_def)
  have tokens: "requestTokens ?env (ClientConfig ?x) form (idp_at 0\<lparr>World := 0\<rparr>) = (Inr (idp_tokens, idp_principal), idp_fetched (59 * second) 2)" for form
    using idp_requestTokens [of form 0] by (simp add: idp_at_def idp_example_def requestTokens_routes numeral_2_eq_2)
  have bytes: "list_all cookie_value_byte (AccessToken idp_tokens)" "list_all cookie_value_byte (RefreshToken idp_tokens)" by code_simp+
  have page: "middleware_secret ?env (RefreshToken idp_tokens) (idp_at 0) = (Inr None, idp_at 0)"
    "Verify ?env (ClientConfig ?x) (AccessToken idp_tokens) (idp_at 0) = (Inr idp_principal, idp_fetched (59 * second) 1)"
    using idp_Verify_at [of 0] by (simp_all add: middleware_secret_def idp_example_def Verify_routes idp_tokens_def)
  note example_sign_in [OF idp_example_main [of "59 * second" 0] env refl host auth some time(1) now time(2,3,3) tokens bytes page]
  moreover have "idp_at 0\<lparr>World := 0\<rparr> = idp_at 0" by (simp add: idp_at_def)
  ultimately show ?thesis using some(2) by metis
qed

end
