(* ===== verification/Pg_Migrations.thy ===== *)
theory Pg_Migrations
  imports Go_Errors Go_Encoding
begin

text \<open>
  Package \<open>pg\<close>: migrations (\<open>migration.go\<close>), export receipts (\<open>export.go\<close>), \<open>Runner.Apply\<close>
  with its validations (\<open>runner.go\<close>) and \<open>WithTx\<close> (\<open>tx.go\<close>).

  PostgreSQL and pgx are not part of the repository: the pool's and a transaction's operations
  are the record \<open>pgx\<close> of functions on a database state \<open>'db\<close> and a transaction state \<open>'tx\<close>,
  a parameter. What the code relies on, that a transaction's work becomes visible as a whole or
  not at all, is the hypothesis \<open>transactional\<close>. The export gate is a function of its own state
  \<open>'g\<close>; \<open>now i\<close> is the \<open>i\<close>-th reading of the clock.
\<close>

section \<open>Data\<close>

record migration =
  Version :: int
  Name :: string
  SQL :: string
  DataBearing :: bool

record apply_options =
  WaiveExport :: bool
  WaiverReason :: string

record export_receipt =
  CreatedAt :: go_time
  SHA256 :: string

record pg_row =
  row_version :: int
  row_name :: string
  row_applied_at :: go_time
  row_export_created_at :: "go_time option"
  row_export_sha256 :: "string option"
  row_waiver_reason :: string

datatype pg_error =
    VersionNotPositive int | VersionsNotIncreasing int int | NameRequired int | SQLRequired int
  | CreateLedgerFailed | ReadLedgerFailed | ScanLedgerFailed | IterateLedgerFailed
  | LedgerDrift int string string
  | WaiverReasonRequired | ExportRequired | ExportVerifyFailed string
  | ExportTimestampRequired | ExportInFuture | ExportStale | ExportDigestInvalid
  | BeginFailed int | ApplyFailed int string | RecordFailed int | CommitFailed int

text \<open>What reading the ledger may give: no rows at all, or rows, any of which may fail to scan, and
  whether the iteration ended without an error.\<close>

datatype ledger_read = QueryFailed | Rows "(int \<times> string) option list" bool

record ('db, 'tx) pgx =
  createLedger :: "'db \<Rightarrow> bool \<times> 'db"
  queryLedger :: "'db \<Rightarrow> ledger_read \<times> 'db"
  beginTx :: "'db \<Rightarrow> 'tx option \<times> 'db"
  execTx :: "'tx \<Rightarrow> string \<Rightarrow> bool \<times> 'tx"
  insertTx :: "'tx \<Rightarrow> pg_row \<Rightarrow> bool \<times> 'tx"
  commitTx :: "'tx \<Rightarrow> 'db \<Rightarrow> bool \<times> 'db"
  rollbackTx :: "'tx \<Rightarrow> 'db \<Rightarrow> bool \<times> 'db"

record 'g runner =
  Gate :: "('g \<Rightarrow> (string + export_receipt) \<times> 'g) option"
  MaxExportAge :: go_duration

section \<open>Validation\<close>

fun validate_from :: "bool \<Rightarrow> int \<Rightarrow> migration list \<Rightarrow> pg_error option" where
  "validate_from later previous [] = None"
| "validate_from later previous (m # ms) =
     (if Version m \<le> 0 then Some (VersionNotPositive (Version m))
      else if later \<and> Version m \<le> previous then Some (VersionsNotIncreasing (Version m) previous)
      else if TrimSpace (Name m) = [] then Some (NameRequired (Version m))
      else if TrimSpace (SQL m) = [] then Some (SQLRequired (Version m))
      else validate_from True (Version m) ms)"

definition validateMigrations :: "migration list \<Rightarrow> pg_error option" where
  "validateMigrations ms = validate_from False 0 ms"

definition validateExportReceipt :: "export_receipt \<Rightarrow> go_time \<Rightarrow> go_duration \<Rightarrow> pg_error option" where
  "validateExportReceipt receipt now maxAge =
     (if CreatedAt receipt = zero_time then Some ExportTimestampRequired
      else if now < CreatedAt receipt then Some ExportInFuture
      else if (if maxAge \<le> 0 then 24 * hour else maxAge) < time_Sub now (CreatedAt receipt)
      then Some ExportStale
      else case hex_decode (SHA256 receipt) of
        None \<Rightarrow> Some ExportDigestInvalid
      | Some digest \<Rightarrow> if length digest \<noteq> 32 then Some ExportDigestInvalid else None)"

section \<open>The ledger\<close>

fun scan_rows :: "(int \<times> string) option list \<Rightarrow> bool \<Rightarrow> (int \<rightharpoonup> string) \<Rightarrow> pg_error + (int \<rightharpoonup> string)" where
  "scan_rows [] ended applied = (if ended then Inr applied else Inl IterateLedgerFailed)"
| "scan_rows (None # rs) ended applied = Inl ScanLedgerFailed"
| "scan_rows (Some (v, n) # rs) ended applied = scan_rows rs ended (applied(v \<mapsto> n))"

fun pending_of :: "(int \<rightharpoonup> string) \<Rightarrow> migration list \<Rightarrow> pg_error + migration list" where
  "pending_of applied [] = Inr []"
| "pending_of applied (m # ms) =
     (case applied (Version m) of
        Some name \<Rightarrow>
          if name \<noteq> Name m then Inl (LedgerDrift (Version m) name (Name m)) else pending_of applied ms
      | None \<Rightarrow> rbind (pending_of applied ms) (\<lambda>ps. Inr (m # ps)))"

section \<open>Applying\<close>

definition ledger_row :: "apply_options \<Rightarrow> export_receipt \<Rightarrow> go_time \<Rightarrow> migration \<Rightarrow> pg_row" where
  "ledger_row options receipt t m =
     \<lparr>row_version = Version m, row_name = Name m, row_applied_at = t,
      row_export_created_at = (if WaiveExport options then None else Some (CreatedAt receipt)),
      row_export_sha256 = (if WaiveExport options then None else Some (SHA256 receipt)),
      row_waiver_reason = WaiverReason options\<rparr>"

text \<open>The body of the loop over the pending migrations: one transaction each.\<close>

definition apply_one ::
  "('db, 'tx) pgx \<Rightarrow> apply_options \<Rightarrow> export_receipt \<Rightarrow> go_time \<Rightarrow> migration \<Rightarrow> 'db \<Rightarrow> pg_error option \<times> 'db" where
  "apply_one p options receipt t m db =
     (case beginTx p db of
        (None, db1) \<Rightarrow> (Some (BeginFailed (Version m)), db1)
      | (Some tx, db1) \<Rightarrow>
          (case execTx p tx (SQL m) of
             (False, tx1) \<Rightarrow> (Some (ApplyFailed (Version m) (Name m)), snd (rollbackTx p tx1 db1))
           | (True, tx1) \<Rightarrow>
               (case insertTx p tx1 (ledger_row options receipt t m) of
                  (False, tx2) \<Rightarrow> (Some (RecordFailed (Version m)), snd (rollbackTx p tx2 db1))
                | (True, tx2) \<Rightarrow>
                    (case commitTx p tx2 db1 of
                       (False, db2) \<Rightarrow> (Some (CommitFailed (Version m)), db2)
                     | (True, db2) \<Rightarrow> (None, db2)))))"

fun apply_pending ::
  "('db, 'tx) pgx \<Rightarrow> apply_options \<Rightarrow> export_receipt \<Rightarrow> (nat \<Rightarrow> go_time) \<Rightarrow> nat \<Rightarrow> migration list \<Rightarrow> 'db
   \<Rightarrow> pg_error option \<times> 'db" where
  "apply_pending p options receipt now i [] db = (None, db)"
| "apply_pending p options receipt now i (m # ms) db =
     (case apply_one p options receipt (now i) m db of
        (Some e, db') \<Rightarrow> (Some e, db')
      | (None, db') \<Rightarrow> apply_pending p options receipt now (Suc i) ms db')"

text \<open>The export requirement of a run that has something to apply.\<close>

definition export_check ::
  "'g runner \<Rightarrow> apply_options \<Rightarrow> go_time \<Rightarrow> 'g \<Rightarrow> (pg_error + export_receipt) \<times> 'g" where
  "export_check r options now g =
     (if WaiveExport options then
        (if WaiverReason options = [] then (Inl WaiverReasonRequired, g)
         else (Inr \<lparr>CreatedAt = zero_time, SHA256 = []\<rparr>, g))
      else case Gate r of
        None \<Rightarrow> (Inl ExportRequired, g)
      | Some verify \<Rightarrow>
          (case verify g of
             (Inl err, g') \<Rightarrow> (Inl (ExportVerifyFailed err), g')
           | (Inr receipt, g') \<Rightarrow>
               (case validateExportReceipt receipt now (MaxExportAge r) of
                  Some e \<Rightarrow> (Inl e, g')
                | None \<Rightarrow> (Inr receipt, g'))))"

text \<open>The clock is read once to judge the receipt, so not at all under a waiver.\<close>

definition readings :: "apply_options \<Rightarrow> nat" where
  "readings options = (if WaiveExport options then 0 else 1)"

definition read_ledger :: "('db, 'tx) pgx \<Rightarrow> 'db \<Rightarrow> (pg_error + (int \<rightharpoonup> string)) \<times> 'db" where
  "read_ledger p db =
     (case createLedger p db of
        (False, db1) \<Rightarrow> (Inl CreateLedgerFailed, db1)
      | (True, db1) \<Rightarrow>
          (case queryLedger p db1 of
             (QueryFailed, db2) \<Rightarrow> (Inl ReadLedgerFailed, db2)
           | (Rows rs ended, db2) \<Rightarrow> (scan_rows rs ended Map.empty, db2)))"

definition Apply ::
  "'g runner \<Rightarrow> ('db, 'tx) pgx \<Rightarrow> (nat \<Rightarrow> go_time) \<Rightarrow> migration list \<Rightarrow> apply_options \<Rightarrow> 'g \<Rightarrow> 'db
   \<Rightarrow> pg_error option \<times> 'g \<times> 'db" where
  "Apply r p now migrations options g db =
     (case validateMigrations migrations of
        Some e \<Rightarrow> (Some e, g, db)
      | None \<Rightarrow>
          (case read_ledger p db of
             (Inl e, db1) \<Rightarrow> (Some e, g, db1)
           | (Inr applied, db1) \<Rightarrow>
               (case pending_of applied migrations of
                  Inl e \<Rightarrow> (Some e, g, db1)
                | Inr pending \<Rightarrow>
                    if pending = [] then (None, g, db1)
                    else (case export_check r options (now 0) g of
                      (Inl e, g') \<Rightarrow> (Some e, g', db1)
                    | (Inr receipt, g') \<Rightarrow>
                        (case apply_pending p options receipt now (readings options) pending db1 of
                           (e, db2) \<Rightarrow> (e, g', db2))))))"

section \<open>WithTx\<close>

datatype 'e tx_error = TxBeginFailed | TxBody 'e | TxBodyAndRollback 'e | TxCommitFailed

definition WithTx ::
  "('db, 'tx) pgx \<Rightarrow> ('tx \<Rightarrow> 'e option \<times> 'tx) \<Rightarrow> 'db \<Rightarrow> 'e tx_error option \<times> 'db" where
  "WithTx p fn db =
     (case beginTx p db of
        (None, db1) \<Rightarrow> (Some TxBeginFailed, db1)
      | (Some tx, db1) \<Rightarrow>
          (case fn tx of
             (Some err, tx1) \<Rightarrow>
               (case rollbackTx p tx1 db1 of
                  (False, db2) \<Rightarrow> (Some (TxBodyAndRollback err), db2)
                | (True, db2) \<Rightarrow> (Some (TxBody err), db2))
           | (None, tx1) \<Rightarrow>
               (case commitTx p tx1 db1 of
                  (False, db2) \<Rightarrow> (Some TxCommitFailed, db2)
                | (True, db2) \<Rightarrow> (None, db2))))"

section \<open>What is relied on of PostgreSQL and pgx\<close>

text \<open>
  \<open>rows\<close> and \<open>scripts\<close> observe the committed ledger and the committed migration scripts of a
  database, \<open>trows\<close> and \<open>tscripts\<close> what a transaction has done so far. Creating and reading the
  ledger commits nothing; a complete read gives exactly the committed rows; the ledger's version
  is a primary key; a transaction starts empty and collects what succeeds in it; a rollback
  commits nothing; a commit that succeeds commits all of the transaction. A commit that fails
  may have been carried out or not (the connection may be lost after the server committed), but
  never in part.
\<close>

definition transactional ::
  "('db, 'tx) pgx \<Rightarrow> ('db \<Rightarrow> pg_row list) \<Rightarrow> ('db \<Rightarrow> string list) \<Rightarrow> ('tx \<Rightarrow> pg_row list)
   \<Rightarrow> ('tx \<Rightarrow> string list) \<Rightarrow> bool" where
  "transactional p rows scripts trows tscripts \<longleftrightarrow>
     (\<forall>db. distinct (map row_version (rows db)))
   \<and> (\<forall>db b db'. createLedger p db = (b, db') \<longrightarrow> rows db' = rows db \<and> scripts db' = scripts db)
   \<and> (\<forall>db q db'. queryLedger p db = (q, db') \<longrightarrow> rows db' = rows db \<and> scripts db' = scripts db)
   \<and> (\<forall>db rs db'. queryLedger p db = (Rows rs True, db') \<longrightarrow> None \<notin> set rs \<longrightarrow>
        the ` set rs = (\<lambda>r. (row_version r, row_name r)) ` set (rows db))
   \<and> (\<forall>db t db'. beginTx p db = (t, db') \<longrightarrow> rows db' = rows db \<and> scripts db' = scripts db)
   \<and> (\<forall>db tx db'. beginTx p db = (Some tx, db') \<longrightarrow> trows tx = [] \<and> tscripts tx = [])
   \<and> (\<forall>tx sql tx'. execTx p tx sql = (True, tx') \<longrightarrow>
        trows tx' = trows tx \<and> tscripts tx' = tscripts tx @ [sql])
   \<and> (\<forall>tx row tx'. insertTx p tx row = (True, tx') \<longrightarrow>
        trows tx' = trows tx @ [row] \<and> tscripts tx' = tscripts tx)
   \<and> (\<forall>tx db b db'. rollbackTx p tx db = (b, db') \<longrightarrow> rows db' = rows db \<and> scripts db' = scripts db)
   \<and> (\<forall>tx db db'. commitTx p tx db = (True, db') \<longrightarrow>
        rows db' = rows db @ trows tx \<and> scripts db' = scripts db @ tscripts tx)
   \<and> (\<forall>tx db db'. commitTx p tx db = (False, db') \<longrightarrow>
        rows db' = rows db \<and> scripts db' = scripts db
      \<or> rows db' = rows db @ trows tx \<and> scripts db' = scripts db @ tscripts tx)"

text \<open>The eleven laws, in the order of the definition.\<close>

lemmas transactionalD =
  transactional_def [THEN iffD1, THEN conjunct1, rule_format]
  transactional_def [THEN iffD1, THEN conjunct2, THEN conjunct1, rule_format]
  transactional_def [THEN iffD1, THEN conjunct2, THEN conjunct2, THEN conjunct1, rule_format]
  transactional_def [THEN iffD1, THEN conjunct2, THEN conjunct2, THEN conjunct2, THEN conjunct1, rule_format]
  transactional_def [THEN iffD1, THEN conjunct2, THEN conjunct2, THEN conjunct2, THEN conjunct2, THEN conjunct1, rule_format]
  transactional_def [THEN iffD1, THEN conjunct2, THEN conjunct2, THEN conjunct2, THEN conjunct2, THEN conjunct2, THEN conjunct1, rule_format]
  transactional_def [THEN iffD1, THEN conjunct2, THEN conjunct2, THEN conjunct2, THEN conjunct2, THEN conjunct2, THEN conjunct2, THEN conjunct1, rule_format]
  transactional_def [THEN iffD1, THEN conjunct2, THEN conjunct2, THEN conjunct2, THEN conjunct2, THEN conjunct2, THEN conjunct2, THEN conjunct2, THEN conjunct1, rule_format]
  transactional_def [THEN iffD1, THEN conjunct2, THEN conjunct2, THEN conjunct2, THEN conjunct2, THEN conjunct2, THEN conjunct2, THEN conjunct2, THEN conjunct2, THEN conjunct1, rule_format]
  transactional_def [THEN iffD1, THEN conjunct2, THEN conjunct2, THEN conjunct2, THEN conjunct2, THEN conjunct2, THEN conjunct2, THEN conjunct2, THEN conjunct2, THEN conjunct2, THEN conjunct1, rule_format]
  transactional_def [THEN iffD1, THEN conjunct2, THEN conjunct2, THEN conjunct2, THEN conjunct2, THEN conjunct2, THEN conjunct2, THEN conjunct2, THEN conjunct2, THEN conjunct2, THEN conjunct2, rule_format]

section \<open>Validation is exactly what it says\<close>

lemma validate_from_None:
  "validate_from later prev ms = None \<longleftrightarrow>
     (later \<longrightarrow> (\<forall>m \<in> set (take 1 ms). prev < Version m)) \<and> sorted_wrt (<) (map Version ms) \<and>
     (\<forall>m \<in> set ms. 0 < Version m \<and> TrimSpace (Name m) \<noteq> [] \<and> TrimSpace (SQL m) \<noteq> [])"
proof (induction ms arbitrary: later prev)
  case (Cons m ms)
  have "(\<forall>m' \<in> set (take 1 ms). Version m < Version m') \<and> sorted_wrt (<) (map Version ms)
      \<longleftrightarrow> (\<forall>m' \<in> set ms. Version m < Version m') \<and> sorted_wrt (<) (map Version ms)"
    by (cases ms) (auto intro: less_trans)
  with Cons show ?case by (auto simp: not_le)
qed simp

text \<open>A migration list is accepted exactly when its versions are positive and strictly
  increasing and every name and script has a non-blank character.\<close>

theorem validateMigrations_iff:
  "validateMigrations ms = None \<longleftrightarrow>
     sorted_wrt (<) (map Version ms)
     \<and> list_all (\<lambda>m. 0 < Version m \<and> TrimSpace (Name m) \<noteq> [] \<and> TrimSpace (SQL m) \<noteq> []) ms"
  by (simp add: validateMigrations_def validate_from_None list_all_iff)

text \<open>An export receipt is accepted exactly when its timestamp is set, not in the future and no
  older than the maximum age (24 hours unless a positive one is configured), and its digest is
  64 hexadecimal characters.\<close>

theorem validateExportReceipt_iff:
  "validateExportReceipt receipt now maxAge = None \<longleftrightarrow>
     CreatedAt receipt \<noteq> zero_time \<and> CreatedAt receipt \<le> now
     \<and> time_Sub now (CreatedAt receipt) \<le> (if maxAge \<le> 0 then 24 * hour else maxAge)
     \<and> length (SHA256 receipt) = 64 \<and> list_all (\<lambda>c. hex_val c \<noteq> None) (SHA256 receipt)"
proof -
  have dec: "hex_decode s = None \<longleftrightarrow> odd (length s) \<or> \<not> list_all (\<lambda>c. hex_val c \<noteq> None) s" for s
    by (induction s rule: hex_decode.induct) (auto split: option.splits)
  have "(\<exists>d. hex_decode s = Some d \<and> length d = 32)
      \<longleftrightarrow> length s = 64 \<and> list_all (\<lambda>c. hex_val c \<noteq> None) s" for s
    using dec [of s] length_hex_decode [of s] by (cases "hex_decode s") auto
  from this [of "SHA256 receipt"] show ?thesis
    by (auto simp: validateExportReceipt_def not_less split: option.splits if_splits)
qed

section \<open>Reading the ledger\<close>

lemma scan_rows_Inr:
  assumes "scan_rows rs ended applied = Inr applied'"
  shows "ended \<and> None \<notin> set rs \<and> applied' = applied ++ map_of (rev (map the rs))"
  using assms
proof (induction rs ended applied rule: scan_rows.induct)
  case (3 v n rs ended applied)
  from "3.prems" have "scan_rows rs ended (applied(v \<mapsto> n)) = Inr applied'"
    by (simp only: scan_rows.simps)
  moreover have "applied ++ map_of (xs @ [(v, n)]) = applied(v \<mapsto> n) ++ map_of xs" for xs
    by simp
  ultimately show ?case
    using "3.IH" by (simp only: rev.simps list.map option.sel) simp
qed (auto split: if_splits)

lemma read_ledger_frame:
  assumes "transactional p rows scripts trows tscripts" and "read_ledger p db = (res, db')"
  shows "rows db' = rows db \<and> scripts db' = scripts db"
proof -
  obtain b db1 where c: "createLedger p db = (b, db1)" by (cases "createLedger p db") auto
  obtain q db2 where q: "queryLedger p db1 = (q, db2)" by (cases "queryLedger p db1") auto
  have "db' = db1 \<or> db' = db2"
    using assms(2) c q by (auto simp: read_ledger_def split: bool.splits ledger_read.splits)
  with transactionalD(2,3) [OF assms(1)] c q show ?thesis by metis
qed

lemma read_ledger_applied:
  assumes tr: "transactional p rows scripts trows tscripts" and "read_ledger p db = (Inr applied, db')"
  shows "applied v = Some n \<longleftrightarrow> (\<exists>r \<in> set (rows db). row_version r = v \<and> row_name r = n)"
proof -
  obtain db1 rs ended where c: "createLedger p db = (True, db1)"
    and q: "queryLedger p db1 = (Rows rs ended, db')" and "scan_rows rs ended Map.empty = Inr applied"
    using assms(2) by (auto simp: read_ledger_def split: prod.splits bool.splits ledger_read.splits)
  then have e: ended and n: "None \<notin> set rs" and app: "applied = map_of (rev (map the rs))"
    by (auto dest: scan_rows_Inr)
  have "the ` set rs = (\<lambda>r. (row_version r, row_name r)) ` set (rows db)"
    using transactionalD(4) [OF tr] q e n transactionalD(2) [OF tr c] by auto
  then have set: "set (rev (map the rs)) = (\<lambda>r. (row_version r, row_name r)) ` set (rows db)"
    by simp
  have functional: "n = n'" if "(v, n) \<in> set (rev (map the rs))" "(v, n') \<in> set (rev (map the rs))" for v n n'
  proof -
    have "inj_on row_version (set (rows db))"
      using transactionalD(1) [OF tr] by (simp add: distinct_map)
    with that show ?thesis unfolding set by (auto dest: inj_onD)
  qed
  have "applied v = Some n \<longleftrightarrow> (v, n) \<in> set (rev (map the rs))"
  proof
    assume "applied v = Some n" then show "(v, n) \<in> set (rev (map the rs))"
      unfolding app by (rule map_of_SomeD)
  next
    assume v: "(v, n) \<in> set (rev (map the rs))"
    then obtain n' where "applied v = Some n'"
      unfolding app by (metis weak_map_of_SomeI)
    with functional v show "applied v = Some n"
      unfolding app by (metis map_of_SomeD)
  qed
  then show ?thesis unfolding set by auto
qed

lemma pending_of_Inr:
  "pending_of applied ms = Inr ps \<longleftrightarrow>
     ps = filter (\<lambda>m. applied (Version m) = None) ms
     \<and> (\<forall>m \<in> set ms. \<forall>n. applied (Version m) = Some n \<longrightarrow> n = Name m)"
  by (induction ms arbitrary: ps) (auto simp: go_result split: option.splits)

lemma pending_of_drift:
  "m \<in> set ms \<Longrightarrow> applied (Version m) = Some n \<Longrightarrow> n \<noteq> Name m \<Longrightarrow> \<exists>e. pending_of applied ms = Inl e"
  by (cases "pending_of applied ms") (auto simp: pending_of_Inr)

section \<open>One transaction per migration\<close>

lemma apply_one_cases:
  assumes tr: "transactional p rows scripts trows tscripts"
    and run: "apply_one p options receipt t m db = (e, db')"
  shows "rows db' = rows db \<and> scripts db' = scripts db \<and> e \<noteq> None
       \<or> rows db' = rows db @ [ledger_row options receipt t m] \<and> scripts db' = scripts db @ [SQL m]"
proof -
  let ?row = "ledger_row options receipt t m"
  have undone: "rows (snd (rollbackTx p tx d)) = rows d \<and> scripts (snd (rollbackTx p tx d)) = scripts d" for tx d
    by (rule transactionalD(9) [OF tr prod.collapse [symmetric]])
  obtain tx0 db1 where b: "beginTx p db = (tx0, db1)" by (cases "beginTx p db") auto
  note db1 = transactionalD(5) [OF tr b]
  show ?thesis
  proof (cases tx0)
    case None
    with run b db1 show ?thesis by (auto simp: apply_one_def)
  next
    case (Some tx)
    with b have tx: "trows tx = [] \<and> tscripts tx = []" using transactionalD(6) [OF tr] by blast
    obtain ok1 tx1 where x: "execTx p tx (SQL m) = (ok1, tx1)" by (cases "execTx p tx (SQL m)") auto
    obtain ok2 tx2 where i: "insertTx p tx1 ?row = (ok2, tx2)" by (cases "insertTx p tx1 ?row") auto
    obtain ok3 db2 where c: "commitTx p tx2 db1 = (ok3, db2)" by (cases "commitTx p tx2 db1") auto
    show ?thesis
    proof (cases "ok1 \<and> ok2")
      case False
      with run b Some x i have "e \<noteq> None \<and> (db' = snd (rollbackTx p tx1 db1) \<or> db' = snd (rollbackTx p tx2 db1))"
        by (auto simp: apply_one_def split: bool.splits)
      with undone db1 show ?thesis by auto
    next
      case True
      with x i transactionalD(7,8) [OF tr] tx have "trows tx2 = [?row] \<and> tscripts tx2 = [SQL m]"
        by simp
      moreover have "db' = db2 \<and> (e = None \<longleftrightarrow> ok3)"
        using True run b Some x i c by (auto simp: apply_one_def split: bool.splits)
      moreover have "rows db2 = rows db1 \<and> scripts db2 = scripts db1 \<and> \<not> ok3
          \<or> rows db2 = rows db1 @ trows tx2 \<and> scripts db2 = scripts db1 @ tscripts tx2"
        using transactionalD(10) [OF tr, of tx2 db1 db2] transactionalD(11) [OF tr, of tx2 db1 db2] c
        by (cases ok3) simp_all
      ultimately show ?thesis
        using db1 by auto
    qed
  qed
qed

text \<open>The rows recorded by a run of the loop: migration \<open>k\<close> at clock reading \<open>i + k\<close>.\<close>

definition recorded ::
  "apply_options \<Rightarrow> export_receipt \<Rightarrow> (nat \<Rightarrow> go_time) \<Rightarrow> nat \<Rightarrow> migration list \<Rightarrow> pg_row list" where
  "recorded options receipt now i ms =
     map (\<lambda>(k, m). ledger_row options receipt (now (i + k)) m) (zip [0..<length ms] ms)"

lemma recorded_Nil [simp]: "recorded options receipt now i [] = []"
  by (simp add: recorded_def)

lemma recorded_Cons [simp]:
  "recorded options receipt now i (m # ms) =
     ledger_row options receipt (now i) m # recorded options receipt now (Suc i) ms"
proof -
  have "zip [0..<Suc (length ms)] (m # ms) = (0, m) # zip (map Suc [0..<length ms]) ms"
    by (simp only: upt_conv_Cons map_Suc_upt zip_Cons_Cons zero_less_Suc)
  then show ?thesis
    by (simp add: recorded_def zip_map1 split_beta del: upt_Suc)
qed

lemma recorded_keys [simp]:
  "map (\<lambda>r. (row_version r, row_name r)) (recorded options receipt now i ms) =
     map (\<lambda>m. (Version m, Name m)) ms"
  by (induction ms arbitrary: i) (simp_all add: ledger_row_def)

lemma apply_pending_prefix:
  assumes tr: "transactional p rows scripts trows tscripts"
    and run: "apply_pending p options receipt now i ms db = (e, db')"
  shows "\<exists>done. prefix done ms \<and> scripts db' = scripts db @ map SQL done
    \<and> rows db' = rows db @ recorded options receipt now i done \<and> (e = None \<longrightarrow> done = ms)"
  using run
proof (induction ms arbitrary: i db)
  case (Cons m ms)
  obtain e1 db1 where one: "apply_one p options receipt (now i) m db = (e1, db1)"
    by (cases "apply_one p options receipt (now i) m db") auto
  note one' = apply_one_cases [OF tr one]
  show ?case
  proof (cases e1)
    case None
    with Cons.prems one have "apply_pending p options receipt now (Suc i) ms db1 = (e, db')" by simp
    from Cons.IH [OF this] obtain d where "prefix d ms" "scripts db' = scripts db1 @ map SQL d"
      "rows db' = rows db1 @ recorded options receipt now (Suc i) d" "e = None \<longrightarrow> d = ms" by blast
    with one' None show ?thesis by (intro exI [of _ "m # d"]) auto
  next
    case (Some e')
    with Cons.prems one have "e = Some e'" "db' = db1" by auto
    with one' show ?thesis
      by (elim disjE) (auto intro: exI [of _ "[]"] exI [of _ "[m]"])
  qed
qed simp

section \<open>What a run does\<close>

text \<open>The supplied migrations a ledger does not hold yet.\<close>

definition unapplied :: "pg_row list \<Rightarrow> migration list \<Rightarrow> migration list" where
  "unapplied ledger ms = filter (\<lambda>m. Version m \<notin> row_version ` set ledger) ms"

lemma Apply_cases:
  assumes tr: "transactional p rows scripts trows tscripts"
    and run: "Apply r p now ms options g db = (e, g', db')"
  obtains (stopped) err where "e = Some err" "rows db' = rows db" "scripts db' = scripts db"
      "validateMigrations ms \<noteq> None \<or> g' = g \<or> unapplied (rows db) ms \<noteq> []"
  | (idle) "e = None" "g' = g" "rows db' = rows db" "scripts db' = scripts db"
      "unapplied (rows db) ms = []"
  | (applied) receipt db1 where "export_check r options (now 0) g = (Inr receipt, g')"
      "rows db1 = rows db" "scripts db1 = scripts db"
      "apply_pending p options receipt now (readings options) (unapplied (rows db) ms) db1 = (e, db')"
      "\<forall>m \<in> set ms. \<forall>row \<in> set (rows db). row_version row = Version m \<longrightarrow> row_name row = Name m"
proof (cases "validateMigrations ms")
  case (Some err)
  with run show thesis by (intro stopped [of err]) (auto simp: Apply_def)
next
  case None
  obtain res db1 where led: "read_ledger p db = (res, db1)" by (cases "read_ledger p db") auto
  note same = read_ledger_frame [OF tr led]
  show thesis
  proof (cases res)
    case (Inl err)
    with run None led same show thesis by (intro stopped [of err]) (auto simp: Apply_def)
  next
    case (Inr applied)
    note app = read_ledger_applied [OF tr led [unfolded Inr]]
    have "applied v = None \<longleftrightarrow> v \<notin> row_version ` set (rows db)" for v
      using app [of v] by (cases "applied v") auto
    then have un: "filter (\<lambda>m. applied (Version m) = None) ms = unapplied (rows db) ms"
      by (simp add: unapplied_def)
    show thesis
    proof (cases "pending_of applied ms")
      case (Inl err)
      with run None led Inr same show thesis by (intro stopped [of err]) (auto simp: Apply_def)
    next
      case pend: (Inr pending)
      then have pending: "pending = unapplied (rows db) ms"
        and names: "\<forall>m \<in> set ms. \<forall>n. applied (Version m) = Some n \<longrightarrow> n = Name m"
        using un by (auto simp: pending_of_Inr)
      show thesis
      proof (cases "pending = []")
        case True
        with run None led Inr pend same pending show thesis by (intro idle) (auto simp: Apply_def)
      next
        case False
        obtain chk g1 where chk: "export_check r options (now 0) g = (chk, g1)"
          by (cases "export_check r options (now 0) g") auto
        show thesis
        proof (cases chk)
          case (Inl err)
          with run None led Inr pend same pending False chk show thesis
            by (intro stopped [of err]) (auto simp: Apply_def)
        next
          case chk': (Inr receipt)
          have "apply_pending p options receipt now (readings options) pending db1 = (e, db')" and "g' = g1"
            using run None led Inr pend False chk chk'
            by (auto simp: Apply_def split: prod.splits)
          with same pending chk chk' names app show thesis by (intro applied) auto
        qed
      qed
    qed
  qed
qed

section \<open>A database in memory\<close>

text \<open>
  An instance of the parameter for which \<open>transactional\<close> holds, with the ledger's primary key
  checked at the commit: it shows that the laws relied on can be met, and the witnesses below
  evaluate the code on it.
\<close>

type_synonym memory_db = "pg_row list \<times> string list"

definition mem_rows :: "memory_db \<Rightarrow> pg_row list" where
  "mem_rows db = (if distinct (map row_version (fst db)) then fst db else [])"

definition memory :: "(memory_db, memory_db) pgx" where
  "memory =
     \<lparr>createLedger = (\<lambda>db. (True, db)),
      queryLedger = (\<lambda>db. (Rows (map (\<lambda>r. Some (row_version r, row_name r)) (mem_rows db)) True, db)),
      beginTx = (\<lambda>db. (Some ([], []), db)),
      execTx = (\<lambda>tx sql. (sql \<noteq> ''BAD'', (fst tx, snd tx @ [sql]))),
      insertTx = (\<lambda>tx row. (True, (fst tx @ [row], snd tx))),
      commitTx = (\<lambda>tx db.
        if distinct (map row_version (mem_rows db @ fst tx))
        then (True, (mem_rows db @ fst tx, snd db @ snd tx)) else (False, db)),
      rollbackTx = (\<lambda>tx db. (True, db))\<rparr>"

lemma memory_transactional: "transactional memory mem_rows snd fst snd"
  unfolding transactional_def
  by (intro conjI) (auto simp: memory_def mem_rows_def image_image split: if_splits)

abbreviation two_migrations :: "migration list" where
  "two_migrations \<equiv> [\<lparr>Version = 1, Name = ''users'', SQL = ''CREATE'', DataBearing = False\<rparr>,
    \<lparr>Version = 4, Name = ''mails'', SQL = ''ALTER'', DataBearing = True\<rparr>]"

abbreviation a_receipt :: export_receipt where
  "a_receipt \<equiv> \<lparr>CreatedAt = 5, SHA256 = replicate 64 (CHR ''a'')\<rparr>"

abbreviation gated :: "nat runner" where
  "gated \<equiv> \<lparr>Gate = Some (\<lambda>n. (Inr a_receipt, n + 1)), MaxExportAge = 0\<rparr>"

abbreviation plain_options :: apply_options where
  "plain_options \<equiv> \<lparr>WaiveExport = False, WaiverReason = []\<rparr>"

abbreviation two_rows :: "pg_row list" where
  "two_rows \<equiv> recorded plain_options a_receipt (\<lambda>i. 10 + int i) 1 two_migrations"

lemma memory_run:
  "Apply gated memory (\<lambda>i. 10 + int i) two_migrations plain_options 0 ([], []) =
     (None, 1, (two_rows, [''CREATE'', ''ALTER'']))"
  by code_simp

lemma memory_ledger:
  "read_ledger memory (two_rows, ss) = (Inr [1 \<mapsto> ''users'', 4 \<mapsto> ''mails''], (two_rows, ss))"
  by (simp add: read_ledger_def memory_def mem_rows_def ledger_row_def fun_upd_twist)

section \<open>The guarantees\<close>

text \<open>C6: Schema and ledger move in lockstep: after any run, successful or not, the committed scripts
  are those of an initial segment of the pending migrations, in order and each in full, and the
  ledger gained exactly their rows; the run reports success only when that segment is all of
  the supplied migrations the ledger did not hold.\<close>

theorem Apply_lockstep:
  assumes "transactional p rows scripts trows tscripts"
    and "Apply r p now ms options g db = (e, g', db')"
  shows "\<exists>done. prefix done (unapplied (rows db) ms)
    \<and> scripts db' = scripts db @ map SQL done
    \<and> map (\<lambda>r. (row_version r, row_name r)) (rows db') =
        map (\<lambda>r. (row_version r, row_name r)) (rows db) @ map (\<lambda>m. (Version m, Name m)) done
    \<and> (e = None \<longrightarrow> done = unapplied (rows db) ms)"
  using assms
proof (cases rule: Apply_cases)
  case (applied receipt db1)
  from apply_pending_prefix [OF assms(1) applied(4)] obtain d
    where d: "prefix d (unapplied (rows db) ms)" "scripts db' = scripts db1 @ map SQL d"
      "rows db' = rows db1 @ recorded options receipt now (readings options) d"
      "e = None \<longrightarrow> d = unapplied (rows db) ms" by blast
  with applied(2,3) show ?thesis by (intro exI [of _ d]) simp
qed (auto intro: exI [of _ "[]"])

theorem Apply_lockstep_witness:
  "\<exists>d. prefix d (unapplied (mem_rows ([], [])) two_migrations)
    \<and> [''CREATE'', ''ALTER''] = [] @ map SQL d \<and> d = two_migrations"
  using Apply_lockstep [OF memory_transactional memory_run]
  by (auto simp: mem_rows_def unapplied_def)

lemma export_check_Inr:
  assumes "export_check r options t g = (Inr receipt, g')"
  shows "WaiveExport options \<and> WaiverReason options \<noteq> [] \<and> g' = g
    \<or> \<not> WaiveExport options \<and> (\<exists>verify. Gate r = Some verify \<and> verify g = (Inr receipt, g')
         \<and> validateExportReceipt receipt t (MaxExportAge r) = None)"
  using assms
  by (auto simp: export_check_def split: if_splits option.splits prod.splits sum.splits)

lemma recorded_rows:
  "row \<in> set (recorded options receipt now i ms) \<Longrightarrow> row_waiver_reason row = WaiverReason options
     \<and> row_export_sha256 row = (if WaiveExport options then None else Some (SHA256 receipt))
     \<and> row_export_created_at row = (if WaiveExport options then None else Some (CreatedAt receipt))"
  by (induction ms arbitrary: i) (auto simp: ledger_row_def)

text \<open>C27: Nothing is migrated without an export or a reasoned waiver: when a run committed a script,
  either the export was waived with a non-empty reason, which every new ledger row carries, or
  the gate returned a receipt that passes validation, whose time and digest every new row
  carries.\<close>

theorem Apply_export_gated:
  assumes "transactional p rows scripts trows tscripts"
    and "Apply r p now ms options g db = (e, g', db')" and "scripts db' \<noteq> scripts db"
  shows "\<exists>new. rows db' = rows db @ new \<and>
    (WaiveExport options \<and> WaiverReason options \<noteq> []
       \<and> (\<forall>row \<in> set new. row_waiver_reason row = WaiverReason options \<and> row_export_sha256 row = None)
     \<or> \<not> WaiveExport options \<and> (\<exists>verify receipt. Gate r = Some verify \<and> verify g = (Inr receipt, g')
         \<and> validateExportReceipt receipt (now 0) (MaxExportAge r) = None
         \<and> (\<forall>row \<in> set new. row_export_sha256 row = Some (SHA256 receipt)
              \<and> row_export_created_at row = Some (CreatedAt receipt))))"
  using assms(1,2)
proof (cases rule: Apply_cases)
  case (applied receipt db1)
  from apply_pending_prefix [OF assms(1) applied(4)] applied(2)
  obtain d where new: "rows db' = rows db @ recorded options receipt now (readings options) d" by auto
  from export_check_Inr [OF applied(1)] show ?thesis
    by (intro exI [of _ "recorded options receipt now (readings options) d"] conjI new, elim disjE)
      (use recorded_rows in fastforce)+
qed (use assms(3) in auto)

theorem Apply_export_gated_witness:
  "list_all (\<lambda>row. row_export_sha256 row = Some (SHA256 a_receipt)) two_rows"
  using Apply_export_gated [OF memory_transactional memory_run]
  by (auto simp: mem_rows_def ledger_row_def list_all_iff)

lemma Apply_drift:
  assumes tr: "transactional p rows scripts trows tscripts"
    and "row \<in> set (rows db)" and "m \<in> set ms" and "row_version row = Version m"
    and "row_name row \<noteq> Name m"
    and run: "Apply r p now ms options g db = (e, g', db')"
  shows "e \<noteq> None \<and> g' = g \<and> rows db' = rows db \<and> scripts db' = scripts db"
proof -
  obtain res db1 where led: "read_ledger p db = (res, db1)" by (cases "read_ledger p db") auto
  note same = read_ledger_frame [OF tr led]
  have "\<exists>err. pending_of applied ms = Inl err" if "res = Inr applied" for applied
    using read_ledger_applied [OF tr led [unfolded that], of "Version m" "row_name row"] assms(2-5)
    by (intro pending_of_drift [of m]) auto
  note drift = this
  show ?thesis
  proof (cases res)
    case (Inl err)
    with run [symmetric] led same show ?thesis
      by (cases "validateMigrations ms") (auto simp: Apply_def)
  next
    case (Inr applied)
    with drift obtain err where "pending_of applied ms = Inl err" by blast
    with run [symmetric] led Inr same show ?thesis
      by (cases "validateMigrations ms") (auto simp: Apply_def)
  qed
qed

text \<open>A version whose recorded name differs from the supplied one is refused before anything is
  done: the run fails and commits nothing, and the export gate is not consulted.\<close>

theorem Apply_refuses_drift:
  assumes "transactional p rows scripts trows tscripts"
    and "row \<in> set (rows db)" and "m \<in> set ms" and "row_version row = Version m"
    and "row_name row \<noteq> Name m"
    and "Apply r p now ms options g db = (e, g', db')"
  shows "e \<noteq> None \<and> g' = g \<and> rows db' = rows db \<and> scripts db' = scripts db"
  by (rule Apply_drift [OF assms])

theorem Apply_refuses_drift_witness:
  "fst (Apply gated memory (\<lambda>i. 0) [\<lparr>Version = 4, Name = ''posts'', SQL = ''ALTER'', DataBearing = True\<rparr>]
     plain_options 0 (two_rows, [''CREATE'', ''ALTER''])) \<noteq> None"
proof -
  let ?ms = "[\<lparr>Version = 4, Name = ''posts'', SQL = ''ALTER'', DataBearing = True\<rparr>]"
  obtain e g' db' where run: "Apply gated memory (\<lambda>i. 0) ?ms plain_options 0
      (two_rows, [''CREATE'', ''ALTER'']) = (e, g', db')"
    by (metis prod_cases3)
  from Apply_refuses_drift [OF memory_transactional _ _ _ _ run, of "two_rows ! 1" "hd ?ms"]
  have "e \<noteq> None" by (simp add: mem_rows_def ledger_row_def)
  with run show ?thesis by simp
qed

text \<open>After a successful run the ledger holds every migration under its name.\<close>

lemma Apply_ledger_complete:
  assumes tr: "transactional p rows scripts trows tscripts"
    and fst: "Apply r p now ms options g db = (None, g', db')" and m: "m \<in> set ms"
  shows "\<exists>row \<in> set (rows db'). row_version row = Version m \<and> row_name row = Name m"
  using tr fst
proof (cases rule: Apply_cases)
  case idle
  then have "Version m \<in> row_version ` set (rows db)"
    using m by (auto simp: unapplied_def filter_empty_conv)
  then obtain row where row: "row \<in> set (rows db)" "row_version row = Version m" by force
  moreover from this have "row_name row = Name m"
    using Apply_drift [OF tr _ m _ _ fst] by blast
  ultimately show ?thesis using idle(3) by auto
next
  case (applied receipt db1)
  from apply_pending_prefix [OF tr applied(4)] applied(2)
  have rows: "rows db' = rows db @ recorded options receipt now (readings options) (unapplied (rows db) ms)" by auto
  show ?thesis
  proof (cases "Version m \<in> row_version ` set (rows db)")
    case True
    with applied(5) m rows show ?thesis by auto
  next
    case False
    with m have "m \<in> set (unapplied (rows db) ms)" by (simp add: unapplied_def)
    then have "(Version m, Name m) \<in> set (map (\<lambda>r. (row_version r, row_name r))
        (recorded options receipt now (readings options) (unapplied (rows db) ms)))"
      unfolding recorded_keys by force
    then obtain row where "row \<in> set (recorded options receipt now (readings options) (unapplied (rows db) ms))"
      "row_version row = Version m" "row_name row = Name m"
      unfolding set_map by auto
    with rows show ?thesis by auto
  qed
qed auto

text \<open>C33: A successful run is repeatable: running the same migrations again, with any gate and any
  options, applies nothing and does not consult the gate; it succeeds whenever the ledger can
  be read.\<close>

theorem Apply_idempotent:
  assumes tr: "transactional p rows scripts trows tscripts"
    and fst: "Apply r p now ms options g db = (None, g', db')"
    and led: "read_ledger p db' = (Inr applied, db'')"
  shows "Apply r' p now' ms options' h db' = (None, h, db'') \<and> scripts db'' = scripts db'"
proof -
  have valid: "validateMigrations ms = None"
    using fst by (auto simp: Apply_def split: option.splits)
  note same = read_ledger_frame [OF tr led]
  have "applied (Version m) = Some (Name m)" if m: "m \<in> set ms" for m
  proof -
    from Apply_ledger_complete [OF tr fst m]
    show ?thesis by (simp add: read_ledger_applied [OF tr led])
  qed
  then have "pending_of applied ms = Inr []"
    by (auto simp: pending_of_Inr filter_empty_conv)
  with valid led same show ?thesis by (simp add: Apply_def)
qed

theorem Apply_idempotent_witness:
  "Apply \<lparr>Gate = None, MaxExportAge = 0\<rparr> memory (\<lambda>i. 0) two_migrations plain_options ()
     (two_rows, [''CREATE'', ''ALTER'']) = (None, (), (two_rows, [''CREATE'', ''ALTER'']))"
  by (rule Apply_idempotent [OF memory_transactional memory_run memory_ledger, THEN conjunct1])



end
