(* ===== verification/Go_Time.thy ===== *)
theory Go_Time
  imports Go_Net Go_Json
begin

text \<open>
  The calendar of package \<open>time\<close>: the civil date of a day is a date of its month and year and names that day, and an instant of
  the years 0 to 9999 written in the layout \<open>RFC3339Nano\<close>, which is ASCII, is read back to the nanosecond.
\<close>

section \<open>The calendar\<close>

text \<open>The first day of a year of the 400-year cycle, counted from March, and the length of that year.\<close>

definition year_start :: "int \<Rightarrow> int" where "year_start y = 365 * y + y div 4 - y div 100"
definition year_days :: "int \<Rightarrow> int" where "year_days y = (if is_leap (y + 1) then 366 else 365)"

definition year_index :: "int \<Rightarrow> int" where
  "year_index doe = doe - doe div 1460 + doe div 36524 - doe div 146096"

lemma year_index_step:
  assumes "0 \<le> x" "x < 146096"
  shows "year_index x \<le> year_index (x + 1)"
proof (cases "x = 146095")
  case True
  then show ?thesis by (simp add: year_index_def)
next
  case False
  with assms have zero: "x div 146096 = 0" "(x + 1) div 146096 = 0" by auto
  have "(x + 1) div 1460 \<le> (x + 1460) div 1460" by (rule zdiv_mono1) auto
  then have p: "(x + 1) div 1460 \<le> x div 1460 + 1" by (simp only: div_add_self2 simp_thms) 
  have q: "x div 36524 \<le> (x + 1) div 36524" by (rule zdiv_mono1) auto
  have "x - p + q - 0 \<le> x + 1 - p' + q' - 0" if "p' \<le> p + 1" "q \<le> q'" for p p' q q' :: int using that by linarith
  from this [OF p q] show ?thesis unfolding year_index_def zero .
qed

lemma year_index_mono:
  assumes "0 \<le> a" "a \<le> b" "b \<le> 146096"
  shows "year_index a \<le> year_index b"
  using assms(2,3)
proof (induction b rule: int_ge_induct)
  case (step i)
  with assms(1) year_index_step [of i] show ?case by auto
qed simp

definition year_check :: "int \<Rightarrow> bool" where
  "year_check y \<longleftrightarrow> year_index (year_start y) div 365 = y \<and> year_index (year_start y + year_days y - 1) div 365 = y \<and>
     (y < 399 \<longrightarrow> year_start (y + 1) = year_start y + year_days y)"

lemma year_checks: "list_all year_check [0..399]"
  by code_simp

lemma year_checkD:
  assumes "0 \<le> y" "y \<le> 399"
  shows "year_index (year_start y) div 365 = y" "year_index (year_start y + year_days y - 1) div 365 = y"
    "y < 399 \<Longrightarrow> year_start (y + 1) = year_start y + year_days y"
proof -
  from assms have "y \<in> set [0..399]" by simp
  with year_checks have "year_check y" unfolding list_all_iff by blast
  then show "year_index (year_start y) div 365 = y" "year_index (year_start y + year_days y - 1) div 365 = y"
    "y < 399 \<Longrightarrow> year_start (y + 1) = year_start y + year_days y" by (simp_all add: year_check_def)
qed

lemma year_found:
  assumes "0 \<le> n" "n \<le> 399" "0 \<le> doe" "doe < year_start n + year_days n"
  shows "\<exists>y. 0 \<le> y \<and> y \<le> n \<and> year_start y \<le> doe \<and> doe < year_start y + year_days y"
  using assms
proof (induction n rule: int_ge_induct)
  case base
  then show ?case by (intro exI [of _ 0]) (simp add: year_start_def)
next
  case (step i)
  show ?case
  proof (cases "year_start (i + 1) \<le> doe")
    case True
    with step.prems step.hyps show ?thesis by (intro exI [of _ "i + 1"]) simp
  next
    case False
    with year_checkD(3) [of i] step have "doe < year_start i + year_days i" by simp
    with step obtain y where "0 \<le> y" "y \<le> i" "year_start y \<le> doe" "doe < year_start y + year_days y" by auto
    then show ?thesis by (intro exI [of _ y]) simp
  qed
qed

lemma year_of_day:
  assumes "0 \<le> doe" "doe \<le> 146096"
  shows "0 \<le> year_index doe div 365" "year_index doe div 365 \<le> 399"
    "year_start (year_index doe div 365) \<le> doe" "doe < year_start (year_index doe div 365) + year_days (year_index doe div 365)"
proof -
  have "year_start 399 + year_days 399 = 146097" by (simp add: year_start_def year_days_def is_leap_def)
  with assms year_found [of 399 doe] obtain y where y: "0 \<le> y" "y \<le> 399" "year_start y \<le> doe" "doe < year_start y + year_days y"
    by auto
  have start: "0 \<le> year_start y" using y(1) by (auto simp: year_start_def intro: order_trans [of _ "365 * y - y div 100"])
  have "year_index (year_start y) \<le> year_index doe" using start y assms by (intro year_index_mono) auto
  moreover have "year_start y + year_days y - 1 \<le> 146096" 
  proof (cases "y = 399")
    case True then show ?thesis by (simp add: year_start_def year_days_def is_leap_def)
  next
    case False
    with y have "y + 1 \<le> 399" by simp
    have "year_start (y + 1) \<le> 365 * 399 + 399 div 4" using y \<open>y + 1 \<le> 399\<close>
      by (auto simp: year_start_def intro: order_trans [of _ "365 * (y + 1) + (y + 1) div 4"] add_mono zdiv_mono1)
    with year_checkD(3) [of y] y False show ?thesis by simp
  qed
  then have "year_index doe \<le> year_index (year_start y + year_days y - 1)" using y assms by (intro year_index_mono) auto
  ultimately have "year_index (year_start y) div 365 \<le> year_index doe div 365"
    "year_index doe div 365 \<le> year_index (year_start y + year_days y - 1) div 365" by (simp_all add: zdiv_mono1)
  with year_checkD(1,2) [OF y(1,2)] have "year_index doe div 365 = y" by simp
  with y show "0 \<le> year_index doe div 365" "year_index doe div 365 \<le> 399"
    "year_start (year_index doe div 365) \<le> doe" "doe < year_start (year_index doe div 365) + year_days (year_index doe div 365)"
    by simp_all
qed

text \<open>The month and day of a day counted from March.\<close>

definition month_of :: "int \<Rightarrow> int \<times> int" where
  "month_of doy = (let mp = (5 * doy + 2) div 153 in (if mp < 10 then mp + 3 else mp - 9, doy - (153 * mp + 2) div 5 + 1))"

definition month_check :: "int \<Rightarrow> bool" where
  "month_check doy \<longleftrightarrow>
     (case month_of doy of (m, d) \<Rightarrow>
        1 \<le> m \<and> m \<le> 12 \<and> 1 \<le> d \<and> (if m = 2 then d \<le> 28 \<or> d = 29 \<and> doy = 365 else d \<le> daysIn m 1) \<and>
        (m \<le> 2 \<longleftrightarrow> 306 \<le> doy) \<and>
        (153 * (if m \<le> 2 then m + 9 else m - 3) + 2) div 5 + d - 1 = doy)"

lemma month_checks: "list_all month_check [0..365]"
  by code_simp

lemma month_checkD: "0 \<le> doy \<Longrightarrow> doy \<le> 365 \<Longrightarrow> month_check doy"
proof -
  assume "0 \<le> doy" "doy \<le> 365"
  then have "doy \<in> set [0..365]" by simp
  with month_checks show ?thesis unfolding list_all_iff by blast
qed

lemma civil_eq:
  "civil days =
     (let era = (days + 719468) div 146097; doe = (days + 719468) mod 146097; yoe = year_index doe div 365 in
      (case month_of (doe - year_start yoe) of (m, d) \<Rightarrow> (yoe + era * 400 + (if m \<le> 2 then 1 else 0), m, d)))"
  by (simp only: civil_def Let_def year_index_def year_start_def month_of_def prod.case diff_diff_eq2)

lemma is_leap_cycle: "is_leap (k + e * 400) = is_leap k"
proof -
  have "(k + (e * 100) * 4) mod 4 = k mod 4" "(k + (e * 4) * 100) mod 100 = k mod 100" "(k + e * 400) mod 400 = k mod 400"
    by (rule mod_mult_self1)+
  then have "(k + e * 400) mod 4 = k mod 4" "(k + e * 400) mod 100 = k mod 100" "(k + e * 400) mod 400 = k mod 400"
    by (simp_all add: ac_simps)
  then show ?thesis by (simp only: is_leap_def)
qed

lemma daysIn_other: "m \<noteq> 2 \<Longrightarrow> daysIn m y = daysIn m y'"
  by (simp add: daysIn_def)

lemma civil_sound:
  assumes "civil days = (y, m, d)"
  shows "1 \<le> m" "m \<le> 12" "1 \<le> d" "d \<le> daysIn m y" "days_from_civil y m d = days"
proof -
  define era where "era = (days + 719468) div 146097"
  define doe where "doe = (days + 719468) mod 146097"
  define yoe where "yoe = year_index doe div 365"
  define doy where "doy = doe - year_start yoe"
  obtain m' d' where md: "month_of doy = (m', d')" by (rule prod.exhaust)
  have "civil days = (yoe + era * 400 + (if m' \<le> 2 then 1 else 0), m', d')"
    unfolding civil_eq Let_def era_def [symmetric] doe_def [symmetric] yoe_def [symmetric] doy_def [symmetric] md prod.case ..
  then have "(yoe + era * 400 + (if m' \<le> 2 then 1 else 0), m', d') = (y, m, d)" using assms by (rule trans [OF sym])
  then have e: "yoe + era * 400 + (if m' \<le> 2 then 1 else 0) = y \<and> m' = m \<and> d' = d" unfolding prod.inject .
  from e have mm: "m' = m" "d' = d" by blast+
  from e [THEN conjunct1] have y: "y = yoe + era * 400 + (if m \<le> 2 then 1 else 0)" unfolding mm by (rule sym)
  have doe: "0 \<le> doe" "doe \<le> 146096" by (simp_all add: doe_def zle_diff1_eq [symmetric])
  note yr = year_of_day [OF doe, folded yoe_def]
  have doy: "0 \<le> doy" "doy < year_days yoe" using yr by (simp_all add: doy_def)
  have "doy \<le> 365" using doy(2) by (simp add: year_days_def split: if_splits)
  with doy(1) have "month_check doy" by (rule month_checkD)
  then have mc0: "1 \<le> m \<and> m \<le> 12 \<and> 1 \<le> d \<and> (if m = 2 then d \<le> 28 \<or> d = 29 \<and> doy = 365 else d \<le> daysIn m 1) \<and>
      (m \<le> 2 \<longleftrightarrow> 306 \<le> doy) \<and> (153 * (if m \<le> 2 then m + 9 else m - 3) + 2) div 5 + d - 1 = doy"
    unfolding month_check_def md mm prod.case .
  then have mc: "1 \<le> m" "m \<le> 12" "1 \<le> d" "if m = 2 then d \<le> 28 \<or> d = 29 \<and> doy = 365 else d \<le> daysIn m 1"
    "(153 * (if m \<le> 2 then m + 9 else m - 3) + 2) div 5 + d - 1 = doy" by blast+
  show "1 \<le> m" "m \<le> 12" "1 \<le> d" by (fact mc)+
  show "d \<le> daysIn m y"
  proof (cases "m = 2")
    case True
    have leap: "is_leap y" if "doy = 365"
    proof -
      from that doy(2) have "is_leap (yoe + 1)" by (simp add: year_days_def split: if_splits)
      moreover have "y = (yoe + 1) + era * 400" using y True by simp
      ultimately show ?thesis by (simp only: is_leap_cycle)
    qed
    from mc(4) True consider "d \<le> 28" | "d = 29" "doy = 365" by auto
    then show ?thesis
    proof cases
      case 1 then show ?thesis using True by (simp add: daysIn_def)
    next
      case 2 then show ?thesis using True leap by (simp add: daysIn_def)
    qed
  next
    case False
    with mc(4) daysIn_other [OF False, of 1 y] show ?thesis by simp
  qed
  have yy: "(if m \<le> 2 then y - 1 else y) = yoe + era * 400" using y by simp
  have cyc: "(yoe + era * 400) div 400 = era" "(yoe + era * 400) mod 400 = yoe" using yr(1,2) by (simp_all add: div_add1_eq)
  have "days_from_civil y m d = era * 146097 + (yoe * 365 + yoe div 4 - yoe div 100 + doy) - 719468"
    unfolding days_from_civil_def Let_def yy cyc using mc(5) by simp
  also have "\<dots> = era * 146097 + doe - 719468" unfolding doy_def year_start_def by simp
  also have "\<dots> = days" unfolding era_def doe_def using div_mult_mod_eq [of "days + 719468" 146097] by simp
  finally show "days_from_civil y m d = days" .
qed

section \<open>What is formatted is parsed\<close>

lemma dec_int_append: "dec_int (s @ [c]) = 10 * dec_int s + int (digit_val c)"
  by (simp add: dec_int_def)

lemma dec_int_zeros: "dec_int (replicate k CHR ''0'' @ s) = dec_int s"
proof -
  have "foldl (\<lambda>n c. 10 * n + int (digit_val c)) 0 (replicate k CHR ''0'') = 0"
    by (induction k) (simp_all add: digit_val_def)
  then show ?thesis by (simp add: dec_int_def)
qed

lemma dec_int_show_nat: "dec_int (show_nat n) = int n"
proof (induction n rule: show_nat.induct)
  case (1 n)
  show ?case
  proof (cases "n < 10")
    case True
    then show ?thesis by (simp add: show_nat.simps [of n] dec_int_def)
  next
    case False
    with 1 have "dec_int (show_nat n) = 10 * int (n div 10) + int (n mod 10)"
      by (simp add: show_nat.simps [of n] dec_int_append)
    also have "\<dots> = int n" by (simp add: zdiv_int zmod_int)
    finally show ?thesis .
  qed
qed

lemma show_nat_length: "0 < k \<Longrightarrow> n < 10 ^ k \<Longrightarrow> length (show_nat n) \<le> k"
proof (induction n arbitrary: k rule: show_nat.induct)
  case (1 n)
  show ?case
  proof (cases "n < 10")
    case True
    with 1 show ?thesis by (simp add: show_nat.simps [of n])
  next
    case False
    with 1 obtain j where k: "k = Suc j" "0 < j" by (cases k; cases "k - 1") auto
    with 1 False have "n div 10 < 10 ^ j" by (simp add: less_mult_imp_div_less mult.commute)
    with 1(1) [OF False k(2)] False k show ?thesis by (simp add: show_nat.simps [of n])
  qed
qed

lemma pad_int_digits:
  assumes "0 < k" "0 \<le> i" "i < 10 ^ k"
  shows "length (pad_int k i) = k" "list_all is_digit (pad_int k i)" "dec_int (pad_int k i) = i"
proof -
  have "nat i < 10 ^ k" using assms by (simp add: nat_less_iff)
  then have "length (show_nat (nat i)) \<le> k" by (rule show_nat_length [OF assms(1)])
  with assms show "length (pad_int k i) = k" by (simp add: pad_int_def Let_def)
  show "list_all is_digit (pad_int k i)" using assms show_nat_digits [of "nat i"]
    by (auto simp: pad_int_def Let_def list_all_iff is_digit_iff set_replicate_conv_if)
  show "dec_int (pad_int k i) = i" using assms by (simp add: pad_int_def Let_def dec_int_zeros dec_int_show_nat)
qed

lemma get_year_pad: "0 \<le> y \<Longrightarrow> y \<le> 9999 \<Longrightarrow> get_year (pad_int 4 y @ r) = Some (y, r)"
  using pad_int_digits [of 4 y] by (simp add: get_year_def)

lemma getnum_pad: "0 \<le> i \<Longrightarrow> i < 100 \<Longrightarrow> getnum fx (pad_int 2 i @ r) = Some (i, r)"
proof -
  assume i: "0 \<le> i" "i < 100"
  with pad_int_digits [of 2 i] have p: "length (pad_int 2 i) = 2" "list_all is_digit (pad_int 2 i)" "dec_int (pad_int 2 i) = i"
    by simp_all
  then obtain a b where ab: "pad_int 2 i = [a, b]" by (auto simp: numeral_2_eq_2 length_Suc_conv)
  with p show ?thesis by (simp add: getnum_def dec_int_def)
qed

lemma in_range_Some: "lo \<le> n \<Longrightarrow> n \<le> hi \<Longrightarrow> in_range lo hi (Some (n, s)) = Some (n, s)"
  by (simp add: in_range_def)

lemma expect_Cons: "expect c (c # s) = Some s"
  by (simp add: expect_def)

text \<open>The fraction of a second.\<close>

definition nine_digits :: "int \<Rightarrow> string" where
  "nine_digits n = map (\<lambda>i. digit_char (nat (n div 10 ^ i mod 10))) [8, 7, 6, 5, 4, 3, 2, 1, 0]"

lemma digit_val_nat: "digit_val (digit_char (nat (x mod 10))) = nat (x mod 10)"
  by (rule digit_val_digit_char) (simp add: nat_less_iff)

lemma nine_digits:
  assumes "0 \<le> n" "n < second"
  shows "length (nine_digits n) = 9" "list_all is_digit (nine_digits n)" "dec_int (nine_digits n) = n"
proof -
  show "length (nine_digits n) = 9" by (simp add: nine_digits_def)
  have dig: "is_digit (digit_char (nat (x mod 10)))" for x :: int
    by (rule is_digit_digit_char) (simp add: nat_less_iff)
  show "list_all is_digit (nine_digits n)" by (simp add: nine_digits_def dig)
  have split: "n div 10 ^ i = 10 * (n div 10 ^ Suc i) + n div 10 ^ i mod 10" for i
  proof -
    have "n div 10 ^ Suc i = n div 10 ^ i div 10" by (simp only: power_Suc2 zdiv_zmult2_eq zero_le_numeral)
    then show ?thesis by simp
  qed
  have top: "n div 10 ^ 9 = 0" using assms by (simp add: second_def)
  have pre: "dec_int (map (\<lambda>i. digit_char (nat (n div 10 ^ i mod 10))) (rev [k..<9])) = n div 10 ^ k" if "k \<le> 9" for k
    using that
  proof (induction "9 - k" arbitrary: k)
    case 0
    then show ?case using top by (simp add: dec_int_def)
  next
    case (Suc j)
    then have k: "k < 9" "j = 9 - Suc k" "Suc k \<le> 9" by simp_all
    from k(1) have "rev [k..<9] = rev [Suc k..<9] @ [k]" by (simp add: upt_conv_Cons)
    then show ?case using Suc.hyps(1) [OF k(2,3)] split [of k]
      by (simp add: dec_int_append digit_val_nat del: power_Suc)
  qed
  have "rev [0..<9] = [8, 7, 6, 5, 4, 3, 2, 1, 0 :: nat]" by code_simp
  with pre [of 0] show "dec_int (nine_digits n) = n" by (simp only: nine_digits_def) simp
qed

lemma get_fraction_format:
  assumes "0 \<le> n" "n < second"
  shows "get_fraction (format_fraction n @ CHR ''Z'' # t) = (n, CHR ''Z'' # t)"
proof -
  define ds where "ds = rev (dropWhile (\<lambda>c. c = CHR ''0'') (rev (nine_digits n)))"
  note nd = nine_digits [OF assms]
  have fmt: "format_fraction n = (if ds = [] then [] else CHR ''.'' # ds)"
    by (simp only: format_fraction_def nine_digits_def Let_def ds_def)
  define z where "z = length (takeWhile (\<lambda>c. c = CHR ''0'') (rev (nine_digits n)))"
  have zeros: "rev (takeWhile (\<lambda>c. c = CHR ''0'') (rev (nine_digits n))) = replicate z CHR ''0''"
    unfolding z_def by (rule replicate_eqI) (auto dest: set_takeWhileD)
  have "rev (rev (nine_digits n)) = rev (takeWhile (\<lambda>c. c = CHR ''0'') (rev (nine_digits n)) @
      dropWhile (\<lambda>c. c = CHR ''0'') (rev (nine_digits n)))" by (simp only: takeWhile_dropWhile_id)
  then have split: "nine_digits n = ds @ replicate z CHR ''0''" unfolding rev_append zeros ds_def [symmetric] rev_rev_ident .
  then have len: "length ds + z = 9" using nd(1) by (metis length_append length_replicate)
  have dig: "list_all is_digit ds" using nd(2) unfolding split by (simp only: list_all_append)
  show ?thesis
  proof (cases "ds = []")
    case True
    with len have "z = 9" by simp
    with split True have "nine_digits n = replicate 9 CHR ''0'' @ []" by simp
    with nd(3) dec_int_zeros [of 9 "[]"] have "n = 0" by (simp add: dec_int_def)
    with True fmt show ?thesis by (cases t) (simp_all add: get_fraction_def)
  next
    case False
    then obtain d r where dr: "ds = d # r" by (cases ds) auto
    have nz: "\<not> is_digit CHR ''Z''" by (simp add: is_digit_iff)
    have tw: "takeWhile is_digit (ds @ CHR ''Z'' # t) = ds" "dropWhile is_digit (ds @ CHR ''Z'' # t) = CHR ''Z'' # t"
      using dig nz by (simp_all add: takeWhile_append dropWhile_append list_all_iff)
    have "take 9 (ds @ replicate 9 CHR ''0'') = ds @ replicate z CHR ''0''"
      using len by (simp add: take_replicate)
    then have val: "dec_int (take 9 (ds @ replicate 9 CHR ''0'')) = n" using nd(3) split by simp
    from False dr dig have eq: "get_fraction (CHR ''.'' # ds @ CHR ''Z'' # t) =
        (dec_int (take 9 (takeWhile is_digit (ds @ CHR ''Z'' # t) @ replicate 9 CHR ''0'')), dropWhile is_digit (ds @ CHR ''Z'' # t))"
      unfolding dr by (simp add: get_fraction_def Let_def)
    show ?thesis unfolding fmt using False eq unfolding tw val by simp
  qed
qed

lemma get_zone_Z: "get_zone ''Z'' = Some (0, [])"
  by (simp add: get_zone_def)

lemma parse_fields:
  assumes y: "0 \<le> y" "y \<le> 9999" and mo: "1 \<le> mo" "mo \<le> 12" and d: "1 \<le> d" "d \<le> daysIn mo y"
    and h: "0 \<le> h" "h \<le> 23" and mi: "0 \<le> mi" "mi \<le> 59" and sec: "0 \<le> sec" "sec \<le> 59" and n: "0 \<le> n" "n < second"
  shows "parse_RFC3339 (pad_int 4 y @ CHR ''-'' # pad_int 2 mo @ CHR ''-'' # pad_int 2 d @ CHR ''T'' # pad_int 2 h
      @ CHR '':'' # pad_int 2 mi @ CHR '':'' # pad_int 2 sec @ format_fraction n @ CHR ''Z'' # []) =
    Some ((days_from_civil y mo d * 86400 + h * 3600 + mi * 60 + sec - 0) * second + n)"
proof -
  have "d < 100" using d(2) by (auto simp: daysIn_def split: if_splits)
  then have num: "getnum fx (pad_int 2 mo @ r) = Some (mo, r)" "getnum fx (pad_int 2 d @ r) = Some (d, r)"
    "getnum fx (pad_int 2 h @ r) = Some (h, r)" "getnum fx (pad_int 2 mi @ r) = Some (mi, r)"
    "getnum fx (pad_int 2 sec @ r) = Some (sec, r)" for fx r
    using mo d(1) h mi sec by (intro getnum_pad; simp)+
  have rng: "in_range 1 12 (Some (mo, r)) = Some (mo, r)" "in_range 0 23 (Some (h, r)) = Some (h, r)"
    "in_range 0 59 (Some (mi, r)) = Some (mi, r)" "in_range 0 59 (Some (sec, r)) = Some (sec, r)" for r
    using mo h mi sec by (intro in_range_Some; simp)+
  have date: "([] \<noteq> ([] :: string) \<or> d < 1 \<or> daysIn mo y < d) = False" using d by simp
  show ?thesis
    unfolding parse_RFC3339_def
    by (simp only: get_year_pad [OF y] num rng expect_Cons get_fraction_format [OF n] get_zone_Z date
        option.case prod.case if_False)
qed

text \<open>An instant of the years 0 to 9999 is read back to the nanosecond.\<close>

definition four_digit_year :: "go_time \<Rightarrow> bool" where
  "four_digit_year t \<longleftrightarrow> (case civil (second_of t div 86400) of (y, m, d) \<Rightarrow> 0 \<le> y \<and> y \<le> 9999)"

lemma parse_format_RFC3339:
  assumes "four_digit_year t"
  shows "parse_RFC3339 (format_RFC3339Nano t) = Some t"
proof -
  obtain y m d where ymd: "civil (second_of t div 86400) = (y, m, d)" by (cases "civil (second_of t div 86400)")
  with assms have y: "0 \<le> y" "y \<le> 9999" by (simp_all add: four_digit_year_def)
  note civ = civil_sound [OF ymd]
  define s where "s = second_of t mod 86400"
  define n where "n = t mod second"
  have s: "0 \<le> s" "s < 86400" by (simp_all add: s_def)
  have n: "0 \<le> n" "n < second" by (simp_all add: n_def second_def)
  have h: "0 \<le> s div 3600" "s div 3600 \<le> 23" using s by auto
  have mi: "0 \<le> s div 60 mod 60" "s div 60 mod 60 \<le> 59" "0 \<le> s mod 60" "s mod 60 \<le> 59" by simp_all
  have clock: "s div 3600 * 3600 + s div 60 mod 60 * 60 + s mod 60 = s"
  proof -
    have "s div 3600 = s div 60 div 60" using zdiv_zmult2_eq [of 60 s 60] by simp
    moreover have "c * 3600 + r * 60 + e = s" if "c = q" "q * 60 + r = a" "a * 60 + e = s" for a c e q r :: int
      using that by linarith
    ultimately show ?thesis using div_mult_mod_eq [of "s div 60" 60] div_mult_mod_eq [of s 60] by blast
  qed
  have fmt: "format_RFC3339Nano t = pad_int 4 y @ CHR ''-'' # pad_int 2 m @ CHR ''-'' # pad_int 2 d @ CHR ''T''
      # pad_int 2 (s div 3600) @ CHR '':'' # pad_int 2 (s div 60 mod 60) @ CHR '':'' # pad_int 2 (s mod 60)
      @ format_fraction n @ CHR ''Z'' # []"
    unfolding format_RFC3339Nano_def ymd prod.case Let_def s_def n_def by simp
  have "parse_RFC3339 (format_RFC3339Nano t) =
      Some ((days_from_civil y m d * 86400 + s div 3600 * 3600 + s div 60 mod 60 * 60 + s mod 60 - 0) * second + n)"
    unfolding fmt using y civ(1-4) h mi n by (intro parse_fields)
  also have "days_from_civil y m d * 86400 + s div 3600 * 3600 + s div 60 mod 60 * 60 + s mod 60 - 0 =
      second_of t div 86400 * 86400 + s"
    unfolding civ(5) using clock by linarith
  also have "\<dots> = second_of t" unfolding s_def by (rule div_mult_mod_eq)
  also have "second_of t * second + n = t" unfolding second_of_def n_def by (rule div_mult_mod_eq)
  finally show ?thesis .
qed

lemma list_all_strip: "list_all P xs \<Longrightarrow> list_all P (rev (dropWhile Q (rev xs)))"
  using set_dropWhileD [of _ Q "rev xs"] by (auto simp: list_all_iff)

lemma format_RFC3339Nano_ascii: "sanitise (format_RFC3339Nano t) = format_RFC3339Nano t"
proof (rule sanitise_ascii)
  let ?P = "\<lambda>c. of_byte c < (0x80 :: nat)"
  have dig: "list_all ?P s" if "list_all is_digit s" for s
    using that by (auto simp: list_all_iff is_digit_iff)
  have pad: "list_all ?P (pad_int k i)" for k i
    using dig [OF show_nat_digits] by (auto simp: pad_int_def Let_def list_all_iff)
  have "list_all ?P (map (\<lambda>i. digit_char (nat (n div 10 ^ i mod 10))) is)" for n :: int and "is"
    by (rule dig) (auto simp: list_all_iff nat_less_iff intro!: is_digit_digit_char)
  note strip = list_all_strip [OF this, of "\<lambda>c. c = CHR ''0''"]
  have frac: "list_all ?P (format_fraction n)" for n
    unfolding format_fraction_def Let_def using strip [of n "[8, 7, 6, 5, 4, 3, 2, 1, 0]"]
    by (simp only: list.pred_inject list_all_append split: if_split) simp
  obtain y m d where ymd: "civil (second_of t div 86400) = (y, m, d)" by (cases "civil (second_of t div 86400)")
  show "list_all ?P (format_RFC3339Nano t)"
    unfolding format_RFC3339Nano_def ymd prod.case Let_def by (simp add: pad frac)
qed

end
