(* ===== verification/Packaging_Manifest.thy ===== *)
theory Packaging_Manifest
  imports Go_Struct Go_Time
begin

text \<open>
  Package \<open>packaging\<close>: the manifest and its JSON. It is written by \<open>json.Marshal\<close>, which cannot fail on it, and read back
  by a decoder that refuses unknown fields and whatever follows the first value.
\<close>

section \<open>Data\<close>

record pack_file =
  Path :: string
  Bytes :: int
  FileSHA256 :: string

record main_proof =
  Main :: string
  Target :: string
  Status :: string

record manifest =
  Schema :: string
  ManifestVersion :: string
  Revision :: string
  ManifestCreatedAt :: string
  Files :: "pack_file list"
  MainProof :: "main_proof option"
  CIRunID :: int
  ToolingSHA256 :: string

section \<open>Writing\<close>

definition pack_file_members :: "pack_file \<Rightarrow> (string \<times> json) list" where
  "pack_file_members f = [(''path'', JStr (Path f)), (''bytes'', JNum (show_int (Bytes f))), (''sha256'', JStr (FileSHA256 f))]"

definition main_proof_members :: "main_proof \<Rightarrow> (string \<times> json) list" where
  "main_proof_members p = [(''main'', JStr (Main p)), (''target'', JStr (Target p)), (''status'', JStr (Status p))]"

text \<open>The list of files is nil where the walk has met none.\<close>

definition manifest_members :: "manifest \<Rightarrow> (string \<times> json) list" where
  "manifest_members m =
     [(''schema'', JStr (Schema m)), (''version'', JStr (ManifestVersion m)), (''revision'', JStr (Revision m)),
      (''createdAt'', JStr (ManifestCreatedAt m)),
      (''files'', if Files m = [] then JNull else JArr (map (\<lambda>f. JObj (pack_file_members f)) (Files m)))]
     @ (case MainProof m of None \<Rightarrow> [] | Some p \<Rightarrow> [(''mainProof'', JObj (main_proof_members p))])
     @ omit_empty (CIRunID m = 0) ''ciRunId'' (JNum (show_int (CIRunID m)))
     @ omit_empty (ToolingSHA256 m = []) ''toolingSHA256'' (JStr (ToolingSHA256 m))"

definition marshal_manifest :: "manifest \<Rightarrow> string" where
  "marshal_manifest m = print_json (JObj (manifest_members m))"

section \<open>Reading\<close>

definition zero_pack_file :: pack_file where "zero_pack_file = \<lparr>Path = [], Bytes = 0, FileSHA256 = []\<rparr>"

definition pack_file_fields :: "(string \<times> pack_file setter) list" where
  "pack_file_fields =
    [(''path'', set_string (\<lambda>v. Path_update (\<lambda>_. v))), (''bytes'', set_int64 (\<lambda>v. Bytes_update (\<lambda>_. v))),
     (''sha256'', set_string (\<lambda>v. FileSHA256_update (\<lambda>_. v)))]"

definition zero_main_proof :: main_proof where "zero_main_proof = \<lparr>Main = [], Target = [], Status = []\<rparr>"

definition main_proof_fields :: "(string \<times> main_proof setter) list" where
  "main_proof_fields =
    [(''main'', set_string (\<lambda>v. Main_update (\<lambda>_. v))), (''target'', set_string (\<lambda>v. Target_update (\<lambda>_. v))),
     (''status'', set_string (\<lambda>v. Status_update (\<lambda>_. v)))]"

definition zero_manifest :: manifest where
  "zero_manifest = \<lparr>Schema = [], ManifestVersion = [], Revision = [], ManifestCreatedAt = [], Files = [], MainProof = None,
     CIRunID = 0, ToolingSHA256 = []\<rparr>"

definition manifest_fields :: "(string \<times> manifest setter) list" where
  "manifest_fields =
    [(''schema'', set_string (\<lambda>v. Schema_update (\<lambda>_. v))), (''version'', set_string (\<lambda>v. ManifestVersion_update (\<lambda>_. v))),
     (''revision'', set_string (\<lambda>v. Revision_update (\<lambda>_. v))), (''createdAt'', set_string (\<lambda>v. ManifestCreatedAt_update (\<lambda>_. v))),
     (''files'', set_slice (set_struct True pack_file_fields) zero_pack_file (\<lambda>v. Files_update (\<lambda>_. v))),
     (''mainProof'', set_pointer (set_struct True main_proof_fields) zero_main_proof MainProof (\<lambda>v. MainProof_update (\<lambda>_. v))),
     (''ciRunId'', set_int64 (\<lambda>v. CIRunID_update (\<lambda>_. v))),
     (''toolingSHA256'', set_string (\<lambda>v. ToolingSHA256_update (\<lambda>_. v)))]"

definition decode_manifest :: "string \<Rightarrow> manifest option" where
  "decode_manifest bytes =
     (case Decode_into (set_struct True manifest_fields) bytes zero_manifest of (m, ok) \<Rightarrow> if ok then Some m else None)"

definition ensureJSONEOF :: "string \<Rightarrow> bool" where
  "ensureJSONEOF bytes \<longleftrightarrow> (case parse_json bytes of None \<Rightarrow> False | Some (_, rest) \<Rightarrow> skip_ws rest = [])"

section \<open>What is written is read back\<close>

text \<open>The strings as UTF-8: each invalid byte is read as U+FFFD.\<close>

definition utf8_file :: "pack_file \<Rightarrow> pack_file" where
  "utf8_file f = f\<lparr>Path := sanitise (Path f), FileSHA256 := sanitise (FileSHA256 f)\<rparr>"

definition utf8_proof :: "main_proof \<Rightarrow> main_proof" where
  "utf8_proof p = \<lparr>Main = sanitise (Main p), Target = sanitise (Target p), Status = sanitise (Status p)\<rparr>"

definition utf8_manifest :: "manifest \<Rightarrow> manifest" where
  "utf8_manifest m = m\<lparr>Schema := sanitise (Schema m), ManifestVersion := sanitise (ManifestVersion m),
     Revision := sanitise (Revision m), ManifestCreatedAt := sanitise (ManifestCreatedAt m), Files := map utf8_file (Files m),
     MainProof := map_option utf8_proof (MainProof m), ToolingSHA256 := sanitise (ToolingSHA256 m)\<rparr>"

lemma file_read_back:
  "int64 (Bytes f) \<Longrightarrow> set_struct True pack_file_fields (JObj (sanitise_members (pack_file_members f))) zero_pack_file = (utf8_file f, True)"
  by (simp add: set_struct_def pack_file_members_def pack_file_fields_def zero_pack_file_def lookup_field_def decoded utf8_file_def)

lemma proof_read_back:
  "set_struct True main_proof_fields (JObj (sanitise_members (main_proof_members p))) zero_main_proof = (utf8_proof p, True)"
  by (simp add: set_struct_def main_proof_members_def main_proof_fields_def zero_main_proof_def lookup_field_def decoded utf8_proof_def)

lemma files_read_back:
  assumes "list_all (\<lambda>f. int64 (Bytes f)) fs"
  shows "map (\<lambda>v. fst (set_struct True pack_file_fields v zero_pack_file)) (sanitise_elems (map (\<lambda>f. JObj (pack_file_members f)) fs)) =
      map utf8_file fs"
    and "list_all (\<lambda>v. snd (set_struct True pack_file_fields v zero_pack_file)) (sanitise_elems (map (\<lambda>f. JObj (pack_file_members f)) fs))"
  using assms by (induction fs) (simp_all add: file_read_back)

lemma manifest_lookup:
  "lookup_field manifest_fields ''schema'' = Some (set_string (\<lambda>v. Schema_update (\<lambda>_. v)))"
  "lookup_field manifest_fields ''version'' = Some (set_string (\<lambda>v. ManifestVersion_update (\<lambda>_. v)))"
  "lookup_field manifest_fields ''revision'' = Some (set_string (\<lambda>v. Revision_update (\<lambda>_. v)))"
  "lookup_field manifest_fields ''createdAt'' = Some (set_string (\<lambda>v. ManifestCreatedAt_update (\<lambda>_. v)))"
  "lookup_field manifest_fields ''files'' = Some (set_slice (set_struct True pack_file_fields) zero_pack_file (\<lambda>v. Files_update (\<lambda>_. v)))"
  "lookup_field manifest_fields ''mainProof'' =
     Some (set_pointer (set_struct True main_proof_fields) zero_main_proof MainProof (\<lambda>v. MainProof_update (\<lambda>_. v)))"
  "lookup_field manifest_fields ''ciRunId'' = Some (set_int64 (\<lambda>v. CIRunID_update (\<lambda>_. v)))"
  "lookup_field manifest_fields ''toolingSHA256'' = Some (set_string (\<lambda>v. ToolingSHA256_update (\<lambda>_. v)))"
  by (simp_all add: lookup_field_def manifest_fields_def)

lemma sanitise_members_append: "sanitise_members (ms @ ms') = sanitise_members ms @ sanitise_members ms'"
  by (simp add: sanitise_members_map)

definition manifest_typed :: "manifest \<Rightarrow> bool" where
  "manifest_typed m \<longleftrightarrow> int64 (CIRunID m) \<and> list_all (\<lambda>f. int64 (Bytes f)) (Files m)"

lemma manifest_read_back:
  assumes "manifest_typed m"
  shows "set_members True manifest_fields (sanitise_members (manifest_members m)) zero_manifest = (utf8_manifest m, True)"
proof -
  have "int64 (CIRunID m)" "list_all (\<lambda>f. int64 (Bytes f)) (Files m)" using assms by (simp_all add: manifest_typed_def)
  then show ?thesis
    using files_read_back [of "Files m"]
    by (cases m; cases "MainProof m")
      (simp_all add: manifest_members_def sanitise_members_append set_members_append omit_empty_def manifest_lookup zero_manifest_def
        decoded set_slice_def set_pointer_def proof_read_back utf8_manifest_def)
qed

lemma manifest_members_wf: "wf_members (manifest_members m)"
  by (auto simp: manifest_members_def omit_empty_def wf_members_iff wf_elems_iff list_all_iff pack_file_members_def main_proof_members_def
      split: option.split)

lemma decode_marshal:
  assumes "manifest_typed m"
  shows "decode_manifest (marshal_manifest m) = Some (utf8_manifest m)" "ensureJSONEOF (marshal_manifest m)"
proof -
  have "manifest_members m \<noteq> []" by (simp add: manifest_members_def)
  note parse = parse_object_print [OF manifest_members_wf this, of "[]", unfolded append_Nil2]
  show "decode_manifest (marshal_manifest m) = Some (utf8_manifest m)"
    unfolding decode_manifest_def marshal_manifest_def Decode_into_def parse
    by (simp add: set_struct_def manifest_read_back [OF assms])
  show "ensureJSONEOF (marshal_manifest m)"
    unfolding ensureJSONEOF_def marshal_manifest_def parse by (simp add: skip_ws_def)
qed

end
