(* ===== verification/Packaging.thy ===== *)
theory Packaging
  imports Packaging_Manifest Go_Sha256 Go_Path
begin

text \<open>
  Packages \<open>packaging\<close> and \<open>packaging/provenance\<close>: sealing an artifact directory and verifying it
  after transport (\<open>manifest.go\<close>).

  The file system below the artifact directory is a tree. What a read, a directory listing or an
  \<open>Info\<close> may fail with is part of the tree, so every error path of the walk is a value of it.
  Ed25519 is a parameter; SHA-256, base64, hex and the JSON of the manifest are
  the functions of \<open>Go_Sha256\<close>, \<open>Go_Encoding\<close> and \<open>Packaging_Manifest\<close>. Hard links, and symbolic links whose target is
  itself part of the artifact, are not modelled: a link holds its own copy of its target.
\<close>

section \<open>Data\<close>

record metadata =
  MetaVersion :: string
  MetaRevision :: string
  MetaCreatedAt :: go_time
  MetaMainProof :: "main_proof option"
  MetaCIRunID :: int
  MetaToolingSHA256 :: string

record artifact =
  ManifestSHA256 :: string
  Signature :: string

definition ManifestName :: string where "ManifestName = ''manifest.json''"
definition SignatureName :: string where "SignatureName = ''manifest.ed25519''"
definition ManifestSchema :: string where "ManifestSchema = ''packages-go.artifact.v1''"

lemma sanitise_ManifestSchema: "sanitise ManifestSchema = ManifestSchema"
  by code_simp

text \<open>
  A regular file has a mode and, unless reading it fails, a content; a symbolic link resolves to
  something unless it dangles; a directory has its entries in the order of \<open>ReadDir\<close>, by name,
  unless listing it fails; \<open>Special\<close> is a device, socket or pipe, which may still be read, and
  \<open>Vanished\<close> an entry whose \<open>Info\<close> fails.
\<close>

datatype node =
    Dir "(string \<times> node) list"
  | UnlistableDir
  | Regular nat "string option"
  | Symlink "node option"
  | Special "string option"
  | Vanished

datatype pack_error =
    WalkFailed | Cancelled | SymlinkRefused string | NonRegular string | InfoFailed string
  | HashFailed string | CreateFailed string | ModeFailed string | WriteFailed string
  | CloseFailed string | NoTrustedKey | ReadManifestFailed | ReadSignatureFailed
  | DecodeSignatureFailed | NotAuthenticated | DecodeManifestFailed | TrailingJSON
  | UnsupportedSchema string | PayloadMismatch

text \<open>The signatures.\<close>

record ('pub, 'priv) pack_env =
  EdSign :: "'priv \<Rightarrow> string \<Rightarrow> string"
  EdVerify :: "'pub \<Rightarrow> string \<Rightarrow> string \<Rightarrow> bool"

text \<open>What the system answers when \<open>writePrivateFile\<close> writes a file: \<open>ShortWrite n\<close> stops after \<open>n\<close>
  bytes.\<close>

datatype write_io = CreateError | ChmodError | ShortWrite nat | CloseError | WriteOK

section \<open>The file system\<close>

fun resolve :: "node \<Rightarrow> node option" where
  "resolve (Symlink None) = None"
| "resolve (Symlink (Some n)) = resolve n"
| "resolve n = Some n"

definition entry :: "node \<Rightarrow> string \<Rightarrow> node option" where
  "entry n name = (case resolve n of Some (Dir es) \<Rightarrow> map_of es name | _ \<Rightarrow> None)"

text \<open>\<open>os.ReadFile(filepath.Join(directory, name))\<close>, following symbolic links.\<close>

definition read_file :: "node \<Rightarrow> string \<Rightarrow> string option" where
  "read_file root name =
     (case entry root name of
        None \<Rightarrow> None
      | Some n \<Rightarrow> (case resolve n of
          Some (Regular _ c) \<Rightarrow> c
        | Some (Special c) \<Rightarrow> c
        | _ \<Rightarrow> None))"

text \<open>Replace the entry \<open>name\<close>, or add it where the listing's order has it.\<close>

fun put_entry :: "string \<Rightarrow> node \<Rightarrow> (string \<times> node) list \<Rightarrow> (string \<times> node) list" where
  "put_entry name n [] = [(name, n)]"
| "put_entry name n ((m, x) # es) =
     (if m = name then (m, n) # es
      else if name < m then (name, n) # (m, x) # es
      else (m, x) # put_entry name n es)"

text \<open>The node a write leaves at an entry that held \<open>old\<close>: the file behind the links has the new
  content, and the given mode or, with none given, the one it had (0600 if it is new). A
  directory cannot be opened for writing; a device keeps nothing.\<close>

fun overwrite :: "nat option \<Rightarrow> string \<Rightarrow> node option \<Rightarrow> node option" where
  "overwrite mode c (Some (Regular m _)) =
     Some (Regular (case mode of None \<Rightarrow> m | Some m' \<Rightarrow> m') (Some c))"
| "overwrite mode c (Some (Symlink old)) =
     map_option (\<lambda>n. Symlink (Some n)) (overwrite mode c old)"
| "overwrite mode c (Some (Special r)) = Some (Special r)"
| "overwrite mode c (Some (Dir es)) = None"
| "overwrite mode c (Some UnlistableDir) = None"
| "overwrite mode c _ = Some (Regular (case mode of None \<Rightarrow> 384 | Some m' \<Rightarrow> m') (Some c))"

text \<open>\<open>update_dir\<close> applies a change to the directory a path resolves to.\<close>

fun update_dir :: "((string \<times> node) list \<Rightarrow> (string \<times> node) list option) \<Rightarrow> node \<Rightarrow> node option" where
  "update_dir f (Dir es) = map_option Dir (f es)"
| "update_dir f (Symlink (Some n)) = map_option (\<lambda>n'. Symlink (Some n')) (update_dir f n)"
| "update_dir f _ = None"

definition put_file :: "nat option \<Rightarrow> string \<Rightarrow> string \<Rightarrow> node \<Rightarrow> node option" where
  "put_file mode name c root =
     update_dir (\<lambda>es. map_option (\<lambda>n. put_entry name n es) (overwrite mode c (map_of es name))) root"

text \<open>\<open>writePrivateFile(filepath.Join(directory, name), content)\<close>: an error leaves what was written
  so far. The file is truncated when it is opened and made private (0600) before anything is
  written.\<close>

definition writePrivateFile :: "write_io \<Rightarrow> string \<Rightarrow> string \<Rightarrow> node \<Rightarrow> pack_error option \<times> node" where
  "writePrivateFile io name content root =
     (if io = CreateError \<or> put_file None name [] root = None then (Some (CreateFailed name), root)
      else (case io of
          ChmodError \<Rightarrow> (Some (ModeFailed name), the (put_file None name [] root))
        | ShortWrite n \<Rightarrow> (Some (WriteFailed name), the (put_file (Some 384) name (take n content) root))
        | CloseError \<Rightarrow> (Some (CloseFailed name), the (put_file (Some 384) name content root))
        | _ \<Rightarrow> (None, the (put_file (Some 384) name content root))))"

section \<open>Walking the payload\<close>

definition hashFile :: "string \<Rightarrow> pack_file" where
  "hashFile c = \<lparr>Path = [], Bytes = int (length c), FileSHA256 = hex_encode (sha256 c)\<rparr>"

text \<open>
  The callback of \<open>WalkDir\<close> on an entry that is not a directory, at the relative path \<open>rel\<close>:
  \<open>None\<close> when it adds no file.
\<close>

definition visit_leaf :: "string list \<Rightarrow> node \<Rightarrow> pack_error + pack_file option" where
  "visit_leaf rel n =
     (if rel = [] \<or> Join rel ''/'' = ManifestName \<or> Join rel ''/'' = SignatureName then Inr None
      else (case n of
          Symlink _ \<Rightarrow> Inl (SymlinkRefused (Join rel ''/''))
        | Vanished \<Rightarrow> Inl (InfoFailed (Join rel ''/''))
        | Regular _ None \<Rightarrow> Inl (HashFailed (Join rel ''/''))
        | Regular _ (Some c) \<Rightarrow> Inr (Some ((hashFile c)\<lparr>Path := Join rel ''/''\<rparr>))
        | _ \<Rightarrow> Inl (NonRegular (Join rel ''/''))))"

text \<open>
  \<open>filepath.WalkDir\<close>: an entry is visited before what it holds, entries in the order of their
  names, and the first error ends the walk. \<open>cancelled i\<close> is the answer of the \<open>i\<close>-th look at the
  context, one for each entry visited; the files are collected in the order met.
\<close>

fun visit :: "(nat \<Rightarrow> bool) \<Rightarrow> string list \<Rightarrow> node \<Rightarrow> nat \<times> pack_file list \<Rightarrow> pack_error + nat \<times> pack_file list"
  and visit_all :: "(nat \<Rightarrow> bool) \<Rightarrow> string list \<Rightarrow> (string \<times> node) list \<Rightarrow> nat \<times> pack_file list
     \<Rightarrow> pack_error + nat \<times> pack_file list" where
  "visit cancelled rel (Dir es) (i, fs) =
     (if cancelled i then Inl Cancelled else visit_all cancelled rel es (Suc i, fs))"
| "visit cancelled rel UnlistableDir (i, fs) =
     (if cancelled i then Inl Cancelled else Inl WalkFailed)"
| "visit cancelled rel n (i, fs) =
     (if cancelled i then Inl Cancelled
      else rbind (visit_leaf rel n) (\<lambda>f. Inr (Suc i, fs @ (case f of None \<Rightarrow> [] | Some x \<Rightarrow> [x]))))"
| "visit_all cancelled rel [] st = Inr st"
| "visit_all cancelled rel ((name, n) # es) st =
     rbind (visit cancelled (rel @ [name]) n st) (visit_all cancelled rel es)"

text \<open>\<open>root\<close> is \<open>None\<close> when the directory does not exist; a root that is a symbolic link is visited
  as such and not followed, as \<open>WalkDir\<close> does.\<close>

definition collectFiles :: "(nat \<Rightarrow> bool) \<Rightarrow> node option \<Rightarrow> pack_error + pack_file list" where
  "collectFiles cancelled root =
     (case root of
        None \<Rightarrow> Inl WalkFailed
      | Some r \<Rightarrow> rbind (visit cancelled [] r (0, [])) (\<lambda>(i, fs). Inr (sort_key Path fs)))"

section \<open>Sealing and verifying\<close>

definition safeRelativePath :: "string \<Rightarrow> bool" where
  "safeRelativePath p \<longleftrightarrow>
     p \<noteq> [] \<and> \<not> is_abs p \<and> Clean p = p \<and> Clean p \<noteq> ''..'' \<and> \<not> HasPrefix (Clean p) ''../''"

definition equalFiles :: "pack_file list \<Rightarrow> pack_file list \<Rightarrow> bool" where
  "equalFiles left right \<longleftrightarrow>
     length left = length right \<and> list_all2 (\<lambda>l r. l = r \<and> safeRelativePath (Path l)) left right"

definition manifest_of :: "metadata \<Rightarrow> pack_file list \<Rightarrow> manifest" where
  "manifest_of md files =
     \<lparr>Schema = ManifestSchema, ManifestVersion = MetaVersion md, Revision = MetaRevision md,
      ManifestCreatedAt = format_RFC3339Nano (MetaCreatedAt md), Files = files,
      MainProof = MetaMainProof md, CIRunID = MetaCIRunID md, ToolingSHA256 = MetaToolingSHA256 md\<rparr>"

text \<open>\<open>io1\<close> and \<open>io2\<close> answer the two writes; the tree is returned as the call leaves it.\<close>

definition Seal ::
  "('pub, 'priv) pack_env \<Rightarrow> (nat \<Rightarrow> bool) \<Rightarrow> write_io \<Rightarrow> write_io \<Rightarrow> metadata \<Rightarrow> 'priv \<Rightarrow> node option
   \<Rightarrow> (pack_error + artifact) \<times> node option" where
  "Seal env cancelled io1 io2 md key root =
     (case collectFiles cancelled root of
        Inl e \<Rightarrow> (Inl e, root)
      | Inr files \<Rightarrow>
          (let bytes = marshal_manifest (manifest_of md files);
               text = StdEncoding_encode (EdSign env key bytes)
           in case writePrivateFile io1 ManifestName bytes (the root) of
              (Some e, root1) \<Rightarrow> (Inl e, Some root1)
            | (None, root1) \<Rightarrow>
                (case writePrivateFile io2 SignatureName text root1 of
                   (Some e, root2) \<Rightarrow> (Inl e, Some root2)
                 | (None, root2) \<Rightarrow>
                     (Inr \<lparr>ManifestSHA256 = hex_encode (sha256 bytes), Signature = text\<rparr>, Some root2))))"

definition VerifyAny ::
  "('pub, 'priv) pack_env \<Rightarrow> (nat \<Rightarrow> bool) \<Rightarrow> 'pub list \<Rightarrow> node option \<Rightarrow> pack_error + manifest" where
  "VerifyAny env cancelled publicKeys root =
     rbind (guard (publicKeys \<noteq> []) NoTrustedKey) (\<lambda>_.
       case (root, Option.bind root (\<lambda>r. read_file r ManifestName)) of
         (Some r, Some bytes) \<Rightarrow>
           (case read_file r SignatureName of
              None \<Rightarrow> Inl ReadSignatureFailed
            | Some text \<Rightarrow>
                (case StdEncoding_decode text of
                   None \<Rightarrow> Inl DecodeSignatureFailed
                 | Some signature \<Rightarrow>
                     rbind (guard (list_ex (\<lambda>k. EdVerify env k bytes signature) publicKeys) NotAuthenticated) (\<lambda>_.
                       case decode_manifest bytes of
                         None \<Rightarrow> Inl DecodeManifestFailed
                       | Some m \<Rightarrow>
                           rbind (guard (ensureJSONEOF bytes) TrailingJSON) (\<lambda>_.
                           rbind (guard (Schema m = ManifestSchema) (UnsupportedSchema (Schema m))) (\<lambda>_.
                           rbind (collectFiles cancelled root) (\<lambda>actual.
                           rbind (guard (equalFiles (Files m) actual) PayloadMismatch) (\<lambda>_.
                             Inr m)))))))
       | _ \<Rightarrow> Inl ReadManifestFailed)"

definition Verify ::
  "('pub, 'priv) pack_env \<Rightarrow> (nat \<Rightarrow> bool) \<Rightarrow> 'pub \<Rightarrow> node option \<Rightarrow> pack_error + manifest" where
  "Verify env cancelled publicKey root = VerifyAny env cancelled [publicKey] root"

section \<open>Provenance\<close>

text \<open>The linker replaces the two variables in a release build: they are the arguments.\<close>

record build =
  BuildVersion :: string
  BuildRevision :: string

definition unstamped :: build where
  "unstamped = \<lparr>BuildVersion = ''development'', BuildRevision = ''unknown''\<rparr>"

definition Info :: "(string \<times> string) option \<Rightarrow> build" where
  "Info stamped = (case stamped of
     None \<Rightarrow> unstamped
   | Some (v, r) \<Rightarrow> \<lparr>BuildVersion = v, BuildRevision = r\<rparr>)"

section \<open>The payload of a tree\<close>

text \<open>Everything below a node that is not a listed directory, with its path.\<close>

fun leaves :: "string list \<Rightarrow> node \<Rightarrow> (string list \<times> node) list"
  and leaves_all :: "string list \<Rightarrow> (string \<times> node) list \<Rightarrow> (string list \<times> node) list" where
  "leaves rel (Dir es) = leaves_all rel es"
| "leaves rel n = [(rel, n)]"
| "leaves_all rel [] = []"
| "leaves_all rel ((name, n) # es) = leaves (rel @ [name]) n @ leaves_all rel es"

text \<open>A tree a file system may hold: the entries of a directory have proper names, each once, in
  the order in which \<open>ReadDir\<close> lists them.\<close>

fun wf_node :: "node \<Rightarrow> bool" and wf_entries :: "(string \<times> node) list \<Rightarrow> bool" where
  "wf_node (Dir es) \<longleftrightarrow> wf_entries es"
| "wf_node _ \<longleftrightarrow> True"
| "wf_entries [] \<longleftrightarrow> True"
| "wf_entries ((name, n) # es) \<longleftrightarrow>
     path_name name \<and> (\<forall>m \<in> fst ` set es. name < m) \<and> wf_node n \<and> wf_entries es"

definition reserved :: "string list \<Rightarrow> bool" where
  "reserved rel \<longleftrightarrow> rel = [] \<or> Join rel ''/'' = ManifestName \<or> Join rel ''/'' = SignatureName"

text \<open>The payload: the path and content of every readable regular file below the root but the two
  files of the seal itself.\<close>

definition payload :: "node \<Rightarrow> (string \<times> string) set" where
  "payload root =
     {(p, c). \<exists>rel mode. (rel, Regular mode (Some c)) \<in> set (leaves [] root) \<and> \<not> reserved rel
        \<and> p = Join rel ''/''}"

definition pack_entry :: "string \<times> string \<Rightarrow> pack_file" where
  "pack_entry pc = (hashFile (snd pc))\<lparr>Path := fst pc\<rparr>"

text \<open>The leaves a walk accepts and the files it gets from them.\<close>

definition leaf_ok :: "string list \<times> node \<Rightarrow> bool" where
  "leaf_ok l \<longleftrightarrow> snd l \<noteq> UnlistableDir \<and> (reserved (fst l) \<or> (\<exists>mode c. snd l = Regular mode (Some c)))"

definition leaf_files :: "string list \<times> node \<Rightarrow> pack_file list" where
  "leaf_files l = (case snd l of
     Regular mode (Some c) \<Rightarrow> if reserved (fst l) then [] else [pack_entry (Join (fst l) ''/'', c)]
   | _ \<Rightarrow> [])"

lemma visit_leaf_Inr:
  "(\<forall>es. n \<noteq> Dir es) \<Longrightarrow> visit_leaf rel n = Inr f \<longleftrightarrow>
     (reserved rel \<or> (\<exists>mode c. n = Regular mode (Some c)))
     \<and> leaf_files (rel, n) = (case f of None \<Rightarrow> [] | Some x \<Rightarrow> [x])"
  by (cases n rule: node.exhaust)
    (auto simp: visit_leaf_def leaf_files_def reserved_def pack_entry_def
      split: option.splits)

lemma visit_Inr:
  "visit cancelled rel n st = Inr st' \<Longrightarrow>
     list_all leaf_ok (leaves rel n) \<and> snd st' = snd st @ concat (map leaf_files (leaves rel n))"
  "visit_all cancelled rel es st = Inr st' \<Longrightarrow>
     list_all leaf_ok (leaves_all rel es)
     \<and> snd st' = snd st @ concat (map leaf_files (leaves_all rel es))"
proof (induction cancelled rel n st and cancelled rel es st
    arbitrary: st' and st' rule: visit_visit_all.induct)
  case (5 cancelled rel name n es st)
  from "5.prems" obtain mid where first: "visit cancelled (rel @ [name]) n st = Inr mid"
    and rest: "visit_all cancelled rel es mid = Inr st'"
    by (auto simp: go_result)
  show ?case
    using "5.IH"(1) [OF first] "5.IH"(2) [OF rest] by simp
qed (auto simp: go_result leaf_ok_def visit_leaf_Inr split: if_splits)

lemma leaf_ok_visit:
  assumes "leaf_ok (rel, n)" and "\<forall>es. n \<noteq> Dir es"
  shows "\<exists>f. visit_leaf rel n = Inr f
    \<and> leaf_files (rel, n) = (case f of None \<Rightarrow> [] | Some x \<Rightarrow> [x])"
  using assms
  by (cases "reserved rel")
    (auto simp: leaf_ok_def visit_leaf_def reserved_def leaf_files_def pack_entry_def
      split: node.split option.split)

lemma visit_all_ok:
  "list_all leaf_ok (leaves rel n) \<Longrightarrow>
     \<exists>j. visit (\<lambda>i. False) rel n st = Inr (j, snd st @ concat (map leaf_files (leaves rel n)))"
  "list_all leaf_ok (leaves_all rel es) \<Longrightarrow>
     \<exists>j. visit_all (\<lambda>i. False) rel es st = Inr (j, snd st @ concat (map leaf_files (leaves_all rel es)))"
proof (induction "\<lambda>i :: nat. False" rel n st and "\<lambda>i :: nat. False" rel es st
    rule: visit_visit_all.induct)
  case (5 rel name n es st)
  then obtain j where j: "visit (\<lambda>i. False) (rel @ [name]) n st =
      Inr (j, snd st @ concat (map leaf_files (leaves (rel @ [name]) n)))" by auto
  from "5.prems" "5.hyps"(2) [of "(j, snd st @ concat (map leaf_files (leaves (rel @ [name]) n)))"] j
  show ?case by auto
next
  case (2 rel i fs)
  then show ?case by (simp add: leaf_ok_def)
qed (auto dest!: leaf_ok_visit)

lemma collectFiles_Inr:
  assumes "collectFiles cancelled (Some root) = Inr fs"
  shows "list_all leaf_ok (leaves [] root)"
    and "fs = sort_key Path (concat (map leaf_files (leaves [] root)))"
proof -
  from assms obtain j gs where "visit cancelled [] root (0, []) = Inr (j, gs)" "fs = sort_key Path gs"
    by (auto simp: collectFiles_def go_result)
  with visit_Inr(1) [OF this(1)] show "list_all leaf_ok (leaves [] root)"
    and "fs = sort_key Path (concat (map leaf_files (leaves [] root)))" by simp_all
qed

lemma collectFiles_ok:
  assumes "list_all leaf_ok (leaves [] root)"
  shows "collectFiles (\<lambda>i. False) (Some root) =
    Inr (sort_key Path (concat (map leaf_files (leaves [] root))))"
  using visit_all_ok(1) [OF assms, of "(0, [])"] by (auto simp: collectFiles_def)

section \<open>Paths of the leaves\<close>

lemma leaves_paths:
  "wf_node n \<Longrightarrow> (p, x) \<in> set (leaves rel n) \<Longrightarrow>
     \<exists>ns. p = rel @ ns \<and> (\<forall>q \<in> set ns. path_name q)"
  "wf_entries es \<Longrightarrow> (p, x) \<in> set (leaves_all rel es) \<Longrightarrow>
     \<exists>name ns. p = rel @ name # ns \<and> name \<in> fst ` set es \<and> path_name name \<and> (\<forall>q \<in> set ns. path_name q)"
proof (induction rel n and rel es rule: leaves_leaves_all.induct)
  case (1 rel es)
  then show ?case by fastforce
next
  case (4 rel name n es)
  from "4.prems"(2) consider (first) "(p, x) \<in> set (leaves (rel @ [name]) n)"
    | (rest) "(p, x) \<in> set (leaves_all rel es)" by auto
  then show ?case
  proof cases
    case first
    with "4.IH"(1) "4.prems"(1) obtain ns where "p = (rel @ [name]) @ ns" "\<forall>q \<in> set ns. path_name q"
      by auto
    with "4.prems"(1) show ?thesis by auto
  next
    case rest
    with "4.IH"(2) "4.prems"(1) show ?thesis by auto
  qed
qed auto

lemma leaves_distinct:
  "wf_node n \<Longrightarrow> distinct (map fst (leaves rel n))"
  "wf_entries es \<Longrightarrow> distinct (map fst (leaves_all rel es))"
proof (induction rel n and rel es rule: leaves_leaves_all.induct)
  case (4 rel name n es)
  have "set (map fst (leaves (rel @ [name]) n)) \<inter> set (map fst (leaves_all rel es)) = {}"
    using 4(3) leaves_paths(1) [of n _ _ "rel @ [name]"] leaves_paths(2) [of es _ _ rel] by fastforce
  with 4 show ?case by auto
qed auto

lemma leaves_dir_paths:
  assumes "wf_node (Dir es)" and "(rel, x) \<in> set (leaves [] (Dir es))"
  shows "rel \<noteq> []" and "\<forall>q \<in> set rel. path_name q"
  using leaves_paths(2) [of es rel x "[]"] assms by auto

section \<open>The collected files\<close>

abbreviation leaf_list :: "node \<Rightarrow> pack_file list" where
  "leaf_list root \<equiv> concat (map leaf_files (leaves [] root))"

lemma set_leaf_list: "set (leaf_list root) = pack_entry ` payload root"
proof -
  have leaf: "f \<in> set (leaf_files (rel, x)) \<longleftrightarrow> \<not> reserved rel \<and>
      (\<exists>mode c. x = Regular mode (Some c) \<and> f = pack_entry (Join rel ''/'', c))" for f rel x
    by (auto simp: leaf_files_def split: node.splits option.splits)
  show ?thesis
  proof (rule set_eqI)
    fix f
    have "f \<in> set (leaf_list root) \<longleftrightarrow> (\<exists>(rel, x) \<in> set (leaves [] root). f \<in> set (leaf_files (rel, x)))"
      by auto
    also have "\<dots> \<longleftrightarrow> (\<exists>rel mode c. (rel, Regular mode (Some c)) \<in> set (leaves [] root) \<and> \<not> reserved rel
        \<and> f = pack_entry (Join rel ''/'', c))"
      unfolding leaf by blast
    also have "\<dots> \<longleftrightarrow> f \<in> pack_entry ` payload root"
      unfolding payload_def by blast
    finally show "f \<in> set (leaf_list root) \<longleftrightarrow> f \<in> pack_entry ` payload root" .
  qed
qed

lemma Path_pack_entry [simp]: "Path (pack_entry pc) = fst pc"
  by (simp add: pack_entry_def)

lemma distinct_leaf_list:
  assumes "distinct (map fst ls)"
    and "\<forall>(rel, x) \<in> set ls. \<not> reserved rel \<longrightarrow> rel \<noteq> [] \<and> (\<forall>q \<in> set rel. path_name q)"
  shows "distinct (map Path (concat (map leaf_files ls)))"
  using assms
proof (induction ls)
  case (Cons l ls)
  obtain rel x where l: "l = (rel, x)" by (cases l)
  have "Path f \<noteq> Path g" if f: "f \<in> set (leaf_files l)" and g: "g \<in> set (concat (map leaf_files ls))" for f g
  proof -
    from g obtain rel' y where l': "(rel', y) \<in> set ls" and g': "g \<in> set (leaf_files (rel', y))" by auto
    with Cons.prems(1) l have "rel' \<noteq> rel" by force
    moreover from f l have "\<not> reserved rel" "Path f = Join rel ''/''"
      by (auto simp: leaf_files_def split: node.splits option.splits if_splits)
    moreover from g' have "\<not> reserved rel'" "Path g = Join rel' ''/''"
      by (auto simp: leaf_files_def split: node.splits option.splits if_splits)
    ultimately show ?thesis
      using Cons.prems(2) l l' by (auto simp: Join_names_inject)
  qed
  moreover have "length (leaf_files l) \<le> 1"
    by (auto simp: leaf_files_def split: node.splits option.splits)
  then have "distinct (map Path (leaf_files l))"
    by (cases "leaf_files l" rule: remdups_adj.cases) auto
  ultimately show ?case using Cons by force
qed simp

text \<open>A root that holds a payload is a listed directory; below any other the walk finds nothing.\<close>

lemma distinct_Paths: "wf_node root \<Longrightarrow> distinct (map Path (leaf_list root))"
proof (cases root)
  case (Dir es)
  assume "wf_node root"
  then show ?thesis
    unfolding Dir
  proof (intro distinct_leaf_list)
    assume wf: "wf_node (Dir es)"
    show "distinct (map fst (leaves [] (Dir es)))" by (rule leaves_distinct(1) [OF wf])
    show "\<forall>(rel, x) \<in> set (leaves [] (Dir es)). \<not> reserved rel \<longrightarrow>
        rel \<noteq> [] \<and> (\<forall>q \<in> set rel. path_name q)"
      using leaves_dir_paths [OF wf] by blast
  qed
qed (auto simp: leaf_files_def split: option.split)

lemma sort_strict: "distinct (map f xs) \<Longrightarrow> sorted_wrt (<) (map f (sort_key f xs))"
  unfolding strict_sorted_iff by (auto simp only: distinct_map distinct_sort set_sort sorted_sort_key)

lemma safeRelativePath_names:
  assumes "ps \<noteq> []" and "\<forall>q \<in> set ps. path_name q"
  shows "safeRelativePath (Join ps ''/'')"
proof -
  have "Join ps ''/'' \<noteq> ''..''"
  proof
    assume up: "Join ps ''/'' = ''..''"
    have "ps = [''..'']" using Split_names [OF assms] unfolding up by simp
    with assms(2) show False by (simp add: path_name_def)
  qed
  moreover have "\<not> HasPrefix (Join ps ''/'') ''../''"
  proof
    assume "HasPrefix (Join ps ''/'') ''../''"
    then obtain r where "Join ps ''/'' = ''..'' @ CHR ''/'' # r" by (auto simp: HasPrefix_def prefix_def)
    then have "ps = ''..'' # Split r CHR ''/''"
      using Split_names [OF assms] by (simp add: Split_append_sep)
    with assms(2) show False by (simp add: path_name_def)
  qed
  ultimately show ?thesis
    using assms by (simp add: safeRelativePath_def Clean_names Join_names_relative Join_names_not_Nil)
qed

lemma safe_payload:
  assumes "wf_node root" and "(p, c) \<in> payload root"
  shows "safeRelativePath p"
proof (cases root)
  case (Dir es)
  with assms leaves_dir_paths [of es] show ?thesis
    by (auto simp: payload_def intro!: safeRelativePath_names)
qed (use assms in \<open>auto simp: payload_def reserved_def\<close>)

section \<open>An artifact\<close>

text \<open>A tree with two files, its manifest, and an environment whose signature is the key in front of
  the message; the witnesses below evaluate the code on them.\<close>

abbreviation demo_entries :: "(string \<times> node) list" where
  "demo_entries \<equiv> [(''a'', Dir [(''x'', Regular 420 (Some ''hi''))]), (''z'', Regular 420 (Some []))]"

abbreviation demo_files :: "pack_file list" where
  "demo_files \<equiv> [pack_entry (''a/x'', ''hi''), pack_entry (''z'', [])]"

abbreviation demo_metadata :: metadata where
  "demo_metadata \<equiv> \<lparr>MetaVersion = ''1.0'', MetaRevision = ''abc'', MetaCreatedAt = 0,
     MetaMainProof = None, MetaCIRunID = 0, MetaToolingSHA256 = []\<rparr>"

abbreviation demo_manifest :: "pack_file list \<Rightarrow> manifest" where
  "demo_manifest fs \<equiv> \<lparr>Schema = ManifestSchema, ManifestVersion = ''1.0'', Revision = ''abc'',
     ManifestCreatedAt = format_RFC3339Nano 0, Files = fs, MainProof = None, CIRunID = 0, ToolingSHA256 = []\<rparr>"

definition demo_env :: "(string, string) pack_env" where
  "demo_env = \<lparr>EdSign = (\<lambda>k b. k @ b), EdVerify = (\<lambda>k b s. s = k @ b)\<rparr>"

definition demo_bytes :: string where
  "demo_bytes = marshal_manifest (demo_manifest demo_files)"

abbreviation demo_sealed :: "(string \<times> node) list" where
  "demo_sealed \<equiv> [hd demo_entries, (''manifest.ed25519'', Regular 384 (Some (StdEncoding_encode (''k'' @ demo_bytes)))),
     (''manifest.json'', Regular 384 (Some demo_bytes)), hd (tl demo_entries)]"

abbreviation demo_artifact :: artifact where
  "demo_artifact \<equiv> \<lparr>ManifestSHA256 = hex_encode (sha256 demo_bytes), Signature = StdEncoding_encode (''k'' @ demo_bytes)\<rparr>"

lemmas demo_simps = leaf_files_def reserved_def ManifestName_def SignatureName_def pack_entry_def
  hashFile_def less_char_def less_eq_char_def path_name_def leaf_ok_def

lemma demo_wf: "wf_node (Dir demo_entries)" "wf_node (Dir demo_sealed)"
  by (simp_all add: demo_simps)

lemma demo_collect:
  "collectFiles (\<lambda>i. False) (Some (Dir demo_entries)) = Inr demo_files"
  "collectFiles (\<lambda>i. False) (Some (Dir demo_sealed)) = Inr demo_files"
  by (simp_all add: collectFiles_ok demo_simps)

lemma demo_payload: "(''a/x'', ''hi'') \<in> payload (Dir demo_sealed)"
proof -
  have "([''a'', ''x''], Regular 420 (Some ''hi'')) \<in> set (leaves [] (Dir demo_sealed))"
    "\<not> reserved [''a'', ''x'']" "''a/x'' = Join [''a'', ''x''] ''/''"
    by (simp_all add: demo_simps)
  then show ?thesis unfolding payload_def by blast
qed

lemma demo_manifest_of: "manifest_of demo_metadata fs = demo_manifest fs"
  by (simp add: manifest_of_def)

lemma demo_seal:
  "Seal demo_env (\<lambda>i. False) WriteOK WriteOK demo_metadata ''k'' (Some (Dir demo_entries)) =
     (Inr demo_artifact, Some (Dir demo_sealed))"
  unfolding Seal_def demo_collect demo_manifest_of sum.case demo_bytes_def [symmetric]
  by (simp add: demo_env_def writePrivateFile_def put_file_def Let_def demo_simps)

lemma demo_decode: "decode_manifest demo_bytes = Some (demo_manifest demo_files)" "ensureJSONEOF demo_bytes"
proof -
  have typed: "manifest_typed (demo_manifest demo_files)"
    by (simp add: manifest_typed_def int64_def pack_entry_def hashFile_def)
  have ascii: "sanitise ''1.0'' = ''1.0''" "sanitise ''abc'' = ''abc''" "sanitise ''a/x'' = ''a/x''" "sanitise ''z'' = ''z''"
    by code_simp+
  have "utf8_manifest (demo_manifest demo_files) = demo_manifest demo_files"
    by (simp add: utf8_manifest_def utf8_file_def ascii sanitise_ManifestSchema hex_ascii format_RFC3339Nano_ascii pack_entry_def hashFile_def)
  with decode_marshal [OF typed] show "decode_manifest demo_bytes = Some (demo_manifest demo_files)" "ensureJSONEOF demo_bytes"
    by (simp_all only: demo_bytes_def)
qed

lemma demo_verify:
  "VerifyAny demo_env (\<lambda>i. False) [''old'', ''k''] (Some (Dir demo_sealed)) = Inr (demo_manifest demo_files)"
proof -
  have "read_file (Dir demo_sealed) ManifestName = Some demo_bytes"
    "read_file (Dir demo_sealed) SignatureName = Some (StdEncoding_encode (''k'' @ demo_bytes))"
    by (simp_all add: read_file_def entry_def ManifestName_def SignatureName_def)
  moreover have "equalFiles demo_files demo_files"
    using safeRelativePath_names [of "[''a'', ''x'']"] safeRelativePath_names [of "[''z'']"]
    by (simp add: equalFiles_def path_name_def)
  ultimately show ?thesis
    unfolding VerifyAny_def demo_collect by (simp add: demo_env_def b64std.dec_enc demo_decode)
qed

section \<open>What is collected\<close>

text \<open>The collected file list is exactly the payload: strictly sorted by path, so each path once;
  one entry for every regular file below the root but the two files of the seal, with the length
  and the SHA-256 of its content; and a walk that succeeded met no link, device or unreadable
  entry.\<close>

theorem collectFiles_exact:
  assumes "collectFiles cancelled (Some root) = Inr fs" and "wf_node root"
  shows "sorted_wrt (<) (map Path fs)
    \<and> set fs = {\<lparr>Path = p, Bytes = int (length c), FileSHA256 = hex_encode (sha256 c)\<rparr> | p c. (p, c) \<in> payload root}
    \<and> (\<forall>(rel, x) \<in> set (leaves [] root). reserved rel \<or> (\<exists>mode c. x = Regular mode (Some c)))"
proof (intro conjI)
  note c = collectFiles_Inr [OF assms(1)]
  show "sorted_wrt (<) (map Path fs)"
    unfolding c(2) by (intro sort_strict distinct_Paths assms(2))
  show "set fs = {\<lparr>Path = p, Bytes = int (length c), FileSHA256 = hex_encode (sha256 c)\<rparr> | p c. (p, c) \<in> payload root}"
    unfolding c(2) set_sort set_leaf_list by (force simp: pack_entry_def hashFile_def)
  show "\<forall>(rel, x) \<in> set (leaves [] root). reserved rel \<or> (\<exists>mode c. x = Regular mode (Some c))"
    using c(1) by (auto simp: list_all_iff leaf_ok_def)
qed

theorem collectFiles_exact_witness:
  "sorted_wrt (<) (map Path demo_files)"
  by (rule collectFiles_exact [OF demo_collect(2) demo_wf(2), THEN conjunct1])

text \<open>A path is accepted as safe exactly when it is \<open>.\<close> or names separated by single slashes,
  none of them empty, \<open>.\<close> or \<open>..\<close>: an accepted path never leaves the artifact directory.\<close>

theorem safeRelativePath_iff:
  "safeRelativePath p \<longleftrightarrow>
     p = ''.'' \<or> (\<exists>names. names \<noteq> [] \<and> list_all path_name names \<and> p = Join names ''/'')"
proof
  assume safe: "safeRelativePath p"
  show "p = ''.'' \<or> (\<exists>names. names \<noteq> [] \<and> list_all path_name names \<and> p = Join names ''/'')"
  proof (cases "p = ''.''")
    case False
    with safe Clean_fixed [of p] show ?thesis by (auto simp: safeRelativePath_def list_all_iff)
  qed simp
next
  have "safeRelativePath ''.''" by code_simp
  then show "p = ''.'' \<or> (\<exists>names. names \<noteq> [] \<and> list_all path_name names \<and> p = Join names ''/'')
      \<Longrightarrow> safeRelativePath p"
    by (auto simp: list_all_iff intro: safeRelativePath_names)
qed

section \<open>Verification\<close>

lemma VerifyAny_Inr:
  assumes "VerifyAny env cancelled keys root = Inr m"
  obtains r bytes stext sig k where "root = Some r" "read_file r ManifestName = Some bytes"
    "read_file r SignatureName = Some stext" "StdEncoding_decode stext = Some sig"
    "k \<in> set keys" "EdVerify env k bytes sig" "decode_manifest bytes = Some m" "ensureJSONEOF bytes"
    "Schema m = ManifestSchema" "collectFiles cancelled root = Inr (Files m)"
proof -
  from assms obtain r bytes where r: "root = Some r" "read_file r ManifestName = Some bytes"
    by (auto simp: VerifyAny_def go_result split: option.splits)
  with assms obtain stext sig where t: "read_file r SignatureName = Some stext"
    "StdEncoding_decode stext = Some sig"
    by (auto simp: VerifyAny_def go_result split: option.splits)
  have eq: "xs = ys" if "equalFiles xs ys" for xs ys
    using that by (auto simp: equalFiles_def list_all2_conv_all_nth intro: nth_equalityI)
  with assms r t obtain k where "k \<in> set keys" "EdVerify env k bytes sig"
    by (auto simp: VerifyAny_def go_result list_ex_iff split: option.splits)
  with assms r t show thesis
    by (intro that [of r bytes stext sig k])
      (auto simp: VerifyAny_def go_result dest: eq split: option.splits)
qed



text \<open>Tampering with the payload is detected: two directories that verify to the same manifest hold
  the same paths, and the contents at a path have the same length and the same SHA-256, so they
  are equal or a collision.\<close>

theorem VerifyAny_same_payload:
  assumes "VerifyAny env cancelled keys (Some r) = Inr m" and "wf_node r"
    and "VerifyAny env' cancelled' keys' (Some r') = Inr m" and "wf_node r'"
    and "(p, c) \<in> payload r"
  shows "\<exists>c'. (p, c') \<in> payload r' \<and> length c' = length c \<and> sha256 c' = sha256 c"
proof -
  have "collectFiles cancelled (Some r) = Inr (Files m)" "collectFiles cancelled' (Some r') = Inr (Files m)"
    using assms(1,3) by (auto elim: VerifyAny_Inr)
  then have "pack_entry ` payload r = pack_entry ` payload r'"
    using collectFiles_Inr(2) set_leaf_list set_sort by metis
  moreover have "pack_entry (p, c) \<in> pack_entry ` payload r"
    using assms(5) by (rule imageI)
  ultimately have "pack_entry (p, c) \<in> pack_entry ` payload r'" by simp
  then obtain p' c' where "(p', c') \<in> payload r'" "pack_entry (p, c) = pack_entry (p', c')"
    by (rule imageE) auto
  moreover from this(2) have "p' = p" "length c' = length c" "sha256 c' = sha256 c"
    by (simp_all add: pack_entry_def hashFile_def hexc.enc_eq_iff)
  ultimately show ?thesis by blast
qed

theorem VerifyAny_same_payload_witness:
  "\<exists>c'. (''a/x'', c') \<in> payload (Dir demo_sealed) \<and> length c' = length ''hi'' \<and> sha256 c' = sha256 ''hi''"
  by (rule VerifyAny_same_payload [OF demo_verify demo_wf(2) demo_verify demo_wf(2)])
    (rule demo_payload)

text \<open>A directory named through a symbolic link is not walked: whether the link verifies depends on
  the two files of the seal only, whatever the payload behind it, and the manifest then lists
  no file.\<close>

theorem VerifyAny_through_link:
  assumes "read_file d ManifestName = read_file d' ManifestName"
    and "read_file d SignatureName = read_file d' SignatureName"
  shows "VerifyAny env cancelled keys (Some (Symlink (Some d))) =
      VerifyAny env cancelled keys (Some (Symlink (Some d')))
    \<and> (VerifyAny env cancelled keys (Some (Symlink (Some d))) = Inr m \<longrightarrow> Files m = [])"
proof (intro conjI impI)
  have read: "read_file (Symlink (Some x)) name = read_file x name" for x name
    by (simp add: read_file_def entry_def)
  have walk: "collectFiles cancelled (Some (Symlink x)) =
      (if cancelled 0 then Inl Cancelled else Inr [])" for x
    by (simp add: collectFiles_def visit_leaf_def)
  show "VerifyAny env cancelled keys (Some (Symlink (Some d))) =
      VerifyAny env cancelled keys (Some (Symlink (Some d')))"
    by (simp add: VerifyAny_def read walk assms cong del: option.case_cong_weak)
  show "Files m = []" if "VerifyAny env cancelled keys (Some (Symlink (Some d))) = Inr m"
    using that by (rule VerifyAny_Inr) (auto simp: walk split: if_splits)
qed

theorem VerifyAny_through_link_witness:
  "VerifyAny demo_env (\<lambda>i. False) [''k''] (Some (Symlink (Some (Dir demo_sealed)))) =
   VerifyAny demo_env (\<lambda>i. False) [''k''] (Some (Symlink (Some (Dir
     [(''evil'', Regular 511 (Some ''payload'')),
      (''manifest.ed25519'', Regular 384 (Some (StdEncoding_encode (''k'' @ demo_bytes)))),
      (''manifest.json'', Regular 384 (Some demo_bytes))]))))"
  by (rule VerifyAny_through_link [THEN conjunct1])
    (simp_all add: read_file_def entry_def ManifestName_def SignatureName_def)

section \<open>Sealing\<close>

text \<open>The two files of the seal are absent or regular, so that a write replaces them.\<close>

definition plain_seal :: "(string \<times> node) list \<Rightarrow> bool" where
  "plain_seal es \<longleftrightarrow>
     (\<forall>name \<in> {ManifestName, SignatureName}. \<forall>n. map_of es name = Some n \<longrightarrow> (\<exists>mode c. n = Regular mode c))"

abbreviation seal_name :: "string \<Rightarrow> bool" where
  "seal_name name \<equiv> name = ManifestName \<or> name = SignatureName"

lemma seal_names: "ManifestName \<noteq> SignatureName" "seal_name name \<Longrightarrow> path_name name"
  "seal_name name \<Longrightarrow> reserved [name]"
  by (auto simp: ManifestName_def SignatureName_def path_name_def reserved_def)

lemma map_of_put_entry [simp]:
  "map_of (put_entry name n es) m = (if m = name then Some n else map_of es m)"
  by (induction name n es rule: put_entry.induct) auto

lemma fst_put_entry: "fst ` set (put_entry name n es) = insert name (fst ` set es)"
  by (induction name n es rule: put_entry.induct) auto

lemma wf_put_entry: "wf_entries es \<Longrightarrow> path_name name \<Longrightarrow> wf_node n \<Longrightarrow> wf_entries (put_entry name n es)"
  by (induction name n es rule: put_entry.induct) (auto simp: fst_put_entry)

lemma plain_put_entry: "plain_seal es \<Longrightarrow> plain_seal (put_entry name (Regular mode c) es)"
  by (auto simp: plain_seal_def)

text \<open>Writing one of the two files leaves the files of the payload as they were.\<close>

lemma leaves_put_entry:
  assumes "reserved (rel @ [name])" and "\<And>n. map_of es name = Some n \<Longrightarrow> \<exists>mode c. n = Regular mode c"
  shows "filter (\<lambda>l. \<not> reserved (fst l)) (leaves_all rel (put_entry name (Regular mode (Some c)) es)) =
      filter (\<lambda>l. \<not> reserved (fst l)) (leaves_all rel es)
    \<and> (list_all leaf_ok (leaves_all rel es) \<longrightarrow>
        list_all leaf_ok (leaves_all rel (put_entry name (Regular mode (Some c)) es)))"
  using assms
proof (induction es)
  case (Cons e es)
  obtain m x where e: "e = (m, x)" by (cases e)
  show ?case
  proof (cases "m = name")
    case True
    with Cons.prems(2) e obtain mode' c' where "x = Regular mode' c'" by fastforce
    with Cons.prems(1) True e show ?thesis
      by (simp add: leaf_ok_def)
  next
    case False
    with Cons e show ?thesis by (simp add: leaf_ok_def)
  qed
qed (simp add: leaf_ok_def)

lemma leaf_list_filter:
  "leaf_list r = concat (map leaf_files (filter (\<lambda>l. \<not> reserved (fst l)) (leaves [] r)))"
proof -
  have "concat (map leaf_files ls) = concat (map leaf_files (filter (\<lambda>l. \<not> reserved (fst l)) ls))" for ls
    by (induction ls) (auto simp: leaf_files_def split: node.split option.split)
  then show ?thesis .
qed

lemma payload_filter:
  "payload r = {(p, c). \<exists>rel mode.
     (rel, Regular mode (Some c)) \<in> set (filter (\<lambda>l. \<not> reserved (fst l)) (leaves [] r)) \<and> p = Join rel ''/''}"
  by (auto simp: payload_def)

lemma put_seal_entry:
  assumes "seal_name name" and "plain_seal es" and "list_all leaf_ok (leaves [] (Dir es))"
  shows "list_all leaf_ok (leaves [] (Dir (put_entry name (Regular mode (Some c)) es)))"
    and "leaf_list (Dir (put_entry name (Regular mode (Some c)) es)) = leaf_list (Dir es)"
    and "payload (Dir (put_entry name (Regular mode (Some c)) es)) = payload (Dir es)"
proof -
  have "reserved ([] @ [name])" using seal_names(3) assms(1) by simp
  moreover have "\<exists>mode c. n = Regular mode c" if "map_of es name = Some n" for n
    using that assms(1,2) by (auto simp: plain_seal_def)
  ultimately have put: "filter (\<lambda>l. \<not> reserved (fst l)) (leaves_all [] (put_entry name (Regular mode (Some c)) es)) =
      filter (\<lambda>l. \<not> reserved (fst l)) (leaves_all [] es)"
    "list_all leaf_ok (leaves_all [] es) \<longrightarrow>
        list_all leaf_ok (leaves_all [] (put_entry name (Regular mode (Some c)) es))"
    using leaves_put_entry [of "[]" name es mode c] by blast+
  from put assms(3) show "list_all leaf_ok (leaves [] (Dir (put_entry name (Regular mode (Some c)) es)))"
    by simp
  from put show "leaf_list (Dir (put_entry name (Regular mode (Some c)) es)) = leaf_list (Dir es)"
    unfolding leaf_list_filter by (simp only: leaves.simps)
  from put show "payload (Dir (put_entry name (Regular mode (Some c)) es)) = payload (Dir es)"
    by (simp only: payload_filter leaves.simps)
qed

lemma writePrivateFile_None:
  assumes "writePrivateFile io name c (Dir es) = (None, r)"
    and "\<And>n. map_of es name = Some n \<Longrightarrow> \<exists>mode c. n = Regular mode c"
  shows "r = Dir (put_entry name (Regular 384 (Some c)) es)"
proof -
  have put: "put_file (Some 384) name c (Dir es) = Some (Dir (put_entry name (Regular 384 (Some c)) es))"
    using assms(2) by (cases "map_of es name") (auto simp: put_file_def)
  from assms(1) have "r = the (put_file (Some 384) name c (Dir es))"
    by (auto simp: writePrivateFile_def split: write_io.splits if_splits)
  with put show ?thesis by simp
qed

lemma Seal_Inr:
  assumes "Seal env cancelled io1 io2 md key (Some (Dir es)) = (Inr art, root')" and "plain_seal es"
  obtains files bytes where "collectFiles cancelled (Some (Dir es)) = Inr files"
    "bytes = marshal_manifest (manifest_of md files)"
    "art = \<lparr>ManifestSHA256 = hex_encode (sha256 bytes),
       Signature = StdEncoding_encode (EdSign env key bytes)\<rparr>"
    "root' = Some (Dir (put_entry SignatureName (Regular 384 (Some (Signature art)))
       (put_entry ManifestName (Regular 384 (Some bytes)) es)))"
proof -
  from assms(1) obtain files where files: "collectFiles cancelled (Some (Dir es)) = Inr files"
    by (auto simp: Seal_def split: sum.splits)
  define bytes where bytes: "bytes = marshal_manifest (manifest_of md files)"
  let ?sig = "StdEncoding_encode (EdSign env key bytes)"
  let ?es = "put_entry ManifestName (Regular 384 (Some bytes)) es"
  from assms(1) files bytes obtain r1 where w1: "writePrivateFile io1 ManifestName bytes (Dir es) = (None, r1)"
    by (auto simp: Seal_def Let_def split: prod.splits option.splits)
  have r1: "r1 = Dir ?es"
    using writePrivateFile_None [OF w1] assms(2) by (simp add: plain_seal_def)
  with assms(1) files bytes w1 obtain r2 where w2: "writePrivateFile io2 SignatureName ?sig (Dir ?es) = (None, r2)"
    by (auto simp: Seal_def Let_def split: prod.splits option.splits)
  have r2: "r2 = Dir (put_entry SignatureName (Regular 384 (Some ?sig)) ?es)"
    using writePrivateFile_None [OF w2] plain_put_entry [OF assms(2)] by (simp add: plain_seal_def)
  show thesis
    using assms(1) files bytes w1 r1 w2 r2
    by (intro that [of files bytes]) (auto simp: Seal_def Let_def)
qed

text \<open>C14: What \<open>Seal\<close> seals, \<open>VerifyAny\<close> accepts with the matching key, if the names of the payload are UTF-8: after a
  seal without an error the directory verifies to the manifest of the given metadata and of the payload (its strings
  read as UTF-8), and where a name is not UTF-8 it never does, although the seal succeeded. The two written
  files have mode 0600 and hold the JSON of the manifest and the signature, the digest reported is that of the manifest,
  and the payload is as it was.\<close>

theorem Seal_then_VerifyAny:
  assumes seal: "Seal env cancelled io1 io2 md key (Some (Dir es)) = (Inr art, root')"
    and wf: "wf_node (Dir es)" and plain: "plain_seal es"
    and range: "int64 (MetaCIRunID md)" "\<And>p c. (p, c) \<in> payload (Dir es) \<Longrightarrow> int64 (int (length c))"
    and keys: "pub \<in> set keys" "\<And>b. EdVerify env pub b (EdSign env key b)"
  shows "\<exists>r' files bytes. root' = Some r' \<and> VerifyAny env (\<lambda>i. False) keys root' =
      (if \<forall>(p, c) \<in> payload (Dir es). sanitise p = p then Inr (utf8_manifest (manifest_of md files)) else Inl PayloadMismatch)
    \<and> set files = pack_entry ` payload (Dir es) \<and> payload r' = payload (Dir es)
    \<and> bytes = marshal_manifest (manifest_of md files)
    \<and> entry r' ManifestName = Some (Regular 384 (Some bytes))
    \<and> entry r' SignatureName = Some (Regular 384 (Some (Signature art)))
    \<and> ManifestSHA256 art = hex_encode (sha256 bytes)"
proof -
  from seal plain obtain files bytes where files: "collectFiles cancelled (Some (Dir es)) = Inr files"
    and bytes: "bytes = marshal_manifest (manifest_of md files)"
    and art: "art = \<lparr>ManifestSHA256 = hex_encode (sha256 bytes),
       Signature = StdEncoding_encode (EdSign env key bytes)\<rparr>"
    and root': "root' = Some (Dir (put_entry SignatureName (Regular 384 (Some (Signature art)))
       (put_entry ManifestName (Regular 384 (Some bytes)) es)))"
    by (rule Seal_Inr)
  let ?es1 = "put_entry ManifestName (Regular 384 (Some bytes)) es"
  let ?r = "Dir (put_entry SignatureName (Regular 384 (Some (Signature art))) ?es1)"
  note before = collectFiles_Inr [OF files]
  note put1 = put_seal_entry [OF disjI1 [OF refl] plain before(1)]
  note put2 = put_seal_entry [OF disjI2 [OF refl] plain_put_entry [OF plain] put1(1)]
  have entries: "entry ?r ManifestName = Some (Regular 384 (Some bytes))"
    "entry ?r SignatureName = Some (Regular 384 (Some (Signature art)))"
    by (simp_all add: entry_def seal_names)
  have reads: "read_file ?r ManifestName = Some bytes" "read_file ?r SignatureName = Some (Signature art)"
    by (simp_all add: read_file_def entries)
  have after: "collectFiles (\<lambda>i. False) (Some ?r) = Inr files"
    unfolding collectFiles_ok [OF put2(1)] before(2) put2(2) put1(2) ..
  have set: "set files = pack_entry ` payload (Dir es)"
    unfolding before(2) set_sort set_leaf_list ..
  have typed: "manifest_typed (manifest_of md files)"
    using range set by (auto simp: manifest_typed_def manifest_of_def list_all_iff pack_entry_def hashFile_def)
  have "list_all2 (\<lambda>l r. l = r \<and> safeRelativePath (Path l)) (map utf8_file fs) fs \<longleftrightarrow> (\<forall>f \<in> set fs. utf8_file f = f)"
    if "set fs \<subseteq> set files" for fs
    using that safe_payload [OF wf] set by (induction fs) (auto simp: pack_entry_def hashFile_def)
  from this [OF subset_refl] have "equalFiles (map utf8_file files) files \<longleftrightarrow> (\<forall>f \<in> set files. utf8_file f = f)"
    by (simp add: equalFiles_def)
  also have "\<dots> \<longleftrightarrow> (\<forall>(p, c) \<in> payload (Dir es). sanitise p = p)"
    unfolding set by (auto simp: utf8_file_def pack_entry_def hashFile_def hex_ascii)
  finally have equal: "equalFiles (map utf8_file files) files \<longleftrightarrow> (\<forall>(p, c) \<in> payload (Dir es). sanitise p = p)" .
  have schema: "Schema (utf8_manifest (manifest_of md files)) = ManifestSchema"
    "Files (utf8_manifest (manifest_of md files)) = map utf8_file files"
    using sanitise_ManifestSchema by (simp_all add: utf8_manifest_def manifest_of_def)
  have "keys \<noteq> []" "list_ex (\<lambda>k. EdVerify env k bytes (EdSign env key bytes)) keys"
    using keys by (auto simp: list_ex_iff)
  then have "VerifyAny env (\<lambda>i. False) keys (Some ?r) =
      (if \<forall>(p, c) \<in> payload (Dir es). sanitise p = p then Inr (utf8_manifest (manifest_of md files)) else Inl PayloadMismatch)"
    unfolding equal [symmetric]
    using decode_marshal [OF typed, folded bytes] after reads art schema
    by (simp add: VerifyAny_def b64std.dec_enc)
  then show ?thesis
    using root' entries art set put1(3) put2(3) bytes
    by (intro exI [of _ ?r] exI [of _ files] exI [of _ bytes]) simp
qed

theorem Seal_then_VerifyAny_witness:
  "\<exists>files. VerifyAny demo_env (\<lambda>i. False) [''k''] (Some (Dir demo_sealed)) =
      Inr (utf8_manifest (manifest_of demo_metadata files))
    \<and> set files = pack_entry ` payload (Dir demo_entries)"
proof -
  have plain: "plain_seal demo_entries" by (simp add: plain_seal_def ManifestName_def SignatureName_def)
  have range: "int64 (MetaCIRunID demo_metadata)" by (simp add: int64_def)
  have payload: "p \<in> {''a/x'', ''z''} \<and> c \<in> {''hi'', []}" if "(p, c) \<in> payload (Dir demo_entries)" for p c
    using that by (auto simp: payload_def)
  have "int64 (int (length c))" if "(p, c) \<in> payload (Dir demo_entries)" for p c
    using payload [OF that] by (auto simp: int64_def)
  moreover have "EdVerify demo_env ''k'' b (EdSign demo_env ''k'' b)" for b
    by (simp add: demo_env_def)
  moreover have "\<forall>(p, c) \<in> payload (Dir demo_entries). sanitise p = p"
  proof -
    have "sanitise ''a/x'' = ''a/x''" "sanitise ''z'' = ''z''" by code_simp+
    with payload show ?thesis by blast
  qed
  ultimately show ?thesis
    using Seal_then_VerifyAny [OF demo_seal demo_wf(1) plain range, of "''k''" "[''k'']"] by auto
qed

end
