(* ===== verification/Packaging_Sample.thy ===== *)
theory Packaging_Sample
  imports Packaging Go_Struct
begin

text \<open>
  The sample program of package \<open>packaging\<close> (\<open>testdata/cmd/sample\<close>): it writes its build provenance as one line
  of JSON, and panics where the write fails.
\<close>

definition build_members :: "build \<Rightarrow> (string \<times> json) list" where
  "build_members b = [(''version'', JStr (BuildVersion b)), (''revision'', JStr (BuildRevision b))]"

definition sample_main :: "(string \<Rightarrow> 'w \<Rightarrow> 'e option \<times> 'w) \<Rightarrow> (string \<times> string) option \<Rightarrow> 'w \<Rightarrow> ('e + unit) \<times> 'w" where
  "sample_main stdout stamped w =
     (case stdout (print_json (JObj (build_members (Info stamped))) @ [CHR 0x0A]) w of
        (Some err, w1) \<Rightarrow> (Inl err, w1)
      | (None, w1) \<Rightarrow> (Inr (), w1))"

text \<open>What it writes is read back by the tags as the version and the revision the linker stamped.\<close>

definition build_fields :: "(string \<times> build setter) list" where
  "build_fields =
    [(''version'', set_string (\<lambda>v. BuildVersion_update (\<lambda>_. v))), (''revision'', set_string (\<lambda>v. BuildRevision_update (\<lambda>_. v)))]"

definition zero_build :: build where "zero_build = \<lparr>BuildVersion = [], BuildRevision = []\<rparr>"

lemma build_read: "set_members strict build_fields (build_members b) zero_build = (b, True)"
  by (cases b) (simp add: build_members_def build_fields_def zero_build_def lookup_field_def set_string_def)

interpretation build_codec: struct_codec False build_fields zero_build build_members
    "\<lambda>b. valid_utf8 (BuildVersion b) \<and> valid_utf8 (BuildRevision b)"
  using build_read by unfold_locales (simp_all add: build_members_def sanitise_valid)

lemma sample_main_written:
  assumes "valid_utf8 version" "valid_utf8 revision"
  shows "\<exists>line. sample_main stdout (Some (version, revision)) w =
      (case stdout line w of (r, w1) \<Rightarrow> (case r of Some err \<Rightarrow> Inl err | None \<Rightarrow> Inr (), w1))
    \<and> Decode_into (set_struct False build_fields) line zero_build = (\<lparr>BuildVersion = version, BuildRevision = revision\<rparr>, True)"
proof -
  let ?b = "\<lparr>BuildVersion = version, BuildRevision = revision\<rparr>"
  let ?line = "print_json (JObj (build_members ?b)) @ [CHR 0x0A]"
  have "Decode_into (set_struct False build_fields) ?line zero_build = (?b, True)"
    by (rule build_codec.decode) (simp add: assms)
  then show ?thesis
    by (intro exI [of _ ?line]) (simp add: sample_main_def Info_def del: print_json.simps split: prod.split option.split)
qed

end
