(* ===== verification/Foundry_Operator.thy ===== *)
theory Foundry_Operator
  imports Go_Json Go_Time Go_Sha256
begin

text \<open>
  Package \<open>foundryoperator\<close>: the operator proof of a request, its canonical JSON and \<open>Sign\<close>. The errors
  are plain texts. \<open>crypto/rand\<close> and \<open>ed25519.Sign\<close> are parameters; a nonce function may act on a world.
\<close>

section \<open>Nonces and names\<close>

definition Protocol :: string where "Protocol = ''FOUNDRY-OPERATOR-V1''"

definition nonceCharset :: string where
  "nonceCharset = ''ABCDEFGHIJKLMNOPQRSTUVWXYZabcdefghijklmnopqrstuvwxyz0123456789_-''"

definition strings_Trim :: "string \<Rightarrow> string \<Rightarrow> string" where
  "strings_Trim s cutset = TrimRight (TrimLeft s cutset) cutset"

definition ValidNonce :: "string \<Rightarrow> bool" where
  "ValidNonce nonce \<longleftrightarrow> 22 \<le> length nonce \<and> length nonce \<le> 128 \<and> strings_Trim nonce nonceCharset = []"

definition RandomNonce :: "('w \<Rightarrow> ('e + string) \<times> 'w) \<Rightarrow> 'w \<Rightarrow> ('e + string) \<times> 'w" where
  "RandomNonce rand w =
     (case rand w of
        (Inl e, w1) \<Rightarrow> (Inl e, w1)
      | (Inr raw, w1) \<Rightarrow> (Inr (RawURLEncoding_encode raw), w1))"

definition kid_start :: "char \<Rightarrow> bool" where
  "kid_start c \<longleftrightarrow> (let n = of_byte c in 48 \<le> n \<and> n \<le> 57 \<or> 65 \<le> n \<and> n \<le> 90 \<or> 97 \<le> n \<and> n \<le> 122)"

definition PrincipalKIDPattern :: "string \<Rightarrow> bool" where
  "PrincipalKIDPattern s \<longleftrightarrow>
     (case s of
        [] \<Rightarrow> False
      | c # r \<Rightarrow> kid_start c \<and> length r \<le> 127 \<and> list_all (\<lambda>x. kid_start x \<or> x \<in> set ''._:-'') r)"

section \<open>Canonical JSON\<close>

definition maxSafeInteger :: int where "maxSafeInteger = 2 ^ 53 - 1"

text \<open>\<open>appendJSONString\<close>: bytes that are not UTF-8 are read as U+FFFD.\<close>

definition canon_ascii :: "char \<Rightarrow> string" where
  "canon_ascii c =
     (if c = CHR 0x22 \<or> c = CHR 0x5C then [CHR 0x5C, c]
      else if c = CHR 0x08 then [CHR 0x5C, CHR ''b'']
      else if c = CHR 0x0C then [CHR 0x5C, CHR ''f'']
      else if c = CHR 0x0A then [CHR 0x5C, CHR ''n'']
      else if c = CHR 0x0D then [CHR 0x5C, CHR ''r'']
      else if c = CHR 0x09 then [CHR 0x5C, CHR ''t'']
      else if of_byte c < 0x20 then u_escape (of_byte c)
      else [c])"

function canon_esc :: "string \<Rightarrow> string" where
  "canon_esc [] = []"
| "canon_esc (c # s) =
     (if of_byte c < (0x80 :: nat) then canon_ascii c @ canon_esc s
      else if rune_width (c # s) = 0 then replacement @ canon_esc s
      else c # take (rune_width (c # s) - 1) s @ canon_esc (drop (rune_width (c # s) - 1) s))"
  by pat_completeness auto
termination by (relation "measure length") simp_all

definition appendJSONString :: "string \<Rightarrow> string" where
  "appendJSONString s = CHR 0x22 # canon_esc s @ [CHR 0x22]"

text \<open>The keys of a decoded object are sorted; of two members with one key the later is kept.\<close>

definition object_fields :: "(string \<times> 'a) list \<Rightarrow> (string \<times> 'a) list" where
  "object_fields ms = map (\<lambda>k. (k, the (map_of (rev ms) k))) (sort (remdups (map fst ms)))"

definition canon_number :: "string \<Rightarrow> string + string" where
  "canon_number l =
     (case ParseInt64 l of
        None \<Rightarrow> Inl ''canonical JSON number is not a safe integer''
      | Some i \<Rightarrow>
          if i < - maxSafeInteger \<or> maxSafeInteger < i \<or> show_int i \<noteq> l
          then Inl ''canonical JSON number is not a safe integer'' else Inr l)"

definition canon_object :: "(string \<times> (string + string)) list \<Rightarrow> string + string" where
  "canon_object fs =
     rbind (rmap (\<lambda>(k, t). rbind t (\<lambda>x. Inr (appendJSONString k @ '':'' @ x))) (object_fields fs))
       (\<lambda>ts. Inr (''{'' @ Join ts '','' @ ''}''))"

fun appendCanonical :: "json \<Rightarrow> string + string"
  and canon_items :: "json list \<Rightarrow> string + string list"
  and canon_fields :: "(string \<times> json) list \<Rightarrow> (string \<times> (string + string)) list" where
  "appendCanonical JNull = Inr ''null''"
| "appendCanonical (JBool b) = Inr (if b then ''true'' else ''false'')"
| "appendCanonical (JStr s) = Inr (appendJSONString s)"
| "appendCanonical (JNum l) = canon_number l"
| "appendCanonical (JArr js) = rbind (canon_items js) (\<lambda>ts. Inr (''['' @ Join ts '','' @ '']''))"
| "appendCanonical (JObj ms) = canon_object (canon_fields ms)"
| "canon_items [] = Inr []"
| "canon_items (j # js) = rbind (appendCanonical j) (\<lambda>t. rbind (canon_items js) (\<lambda>ts. Inr (t # ts)))"
| "canon_fields [] = []"
| "canon_fields (m # ms) = (fst m, appendCanonical (snd m)) # canon_fields ms"

text \<open>The value is encoded and decoded again before it is written canonically.\<close>

definition canonicalMarshal :: "json \<Rightarrow> string + string" where
  "canonicalMarshal v =
     (case parse_doc (print_json v) of None \<Rightarrow> Inl ''decode'' | Some decoded \<Rightarrow> appendCanonical decoded)"

section \<open>Proofs\<close>

record proof_value =
  ProofProtocol :: string
  PrincipalKID :: string
  Nonce :: string
  IssuedAt :: string
  ExpiresAt :: string
  ProofMethod :: string
  NormalizedPath :: string
  NormalizedQuery :: string
  BodySHA256 :: string

text \<open>The struct tags: an empty query is left out.\<close>

definition proof_json :: "proof_value \<Rightarrow> json" where
  "proof_json p = JObj
     ([(''protocol'', JStr (ProofProtocol p)), (''principalKid'', JStr (PrincipalKID p)), (''nonce'', JStr (Nonce p)),
       (''issuedAt'', JStr (IssuedAt p)), (''expiresAt'', JStr (ExpiresAt p)), (''method'', JStr (ProofMethod p)),
       (''normalizedPath'', JStr (NormalizedPath p))]
      @ (if NormalizedQuery p = [] then [] else [(''normalizedQuery'', JStr (NormalizedQuery p))])
      @ [(''bodySha256'', JStr (BodySHA256 p))])"

definition clockSkewBackdate :: go_duration where "clockSkewBackdate = second"
definition validityWindow :: go_duration where "validityWindow = minute"

record request_line =
  LineMethod :: string
  LinePath :: string
  LineQuery :: string
  LineBody :: string

definition proof_of :: "string \<Rightarrow> request_line \<Rightarrow> go_time \<Rightarrow> string \<Rightarrow> proof_value" where
  "proof_of kid r now nonce =
     \<lparr>ProofProtocol = Protocol, PrincipalKID = kid, Nonce = nonce,
       IssuedAt = format_RFC3339Nano (time_Add now (- clockSkewBackdate)),
       ExpiresAt = format_RFC3339Nano (time_Add now validityWindow),
       ProofMethod = LineMethod r, NormalizedPath = LinePath r, NormalizedQuery = LineQuery r,
       BodySHA256 = hex_encode (sha256 (LineBody r))\<rparr>"

text \<open>\<open>sign\<close> is \<open>ed25519.Sign\<close>; \<open>nonce\<close> is the caller's, or nil. A nil body is an empty one.\<close>

definition Sign ::
  "(string \<Rightarrow> string \<Rightarrow> string) \<Rightarrow> ('w \<Rightarrow> ('e + string) \<times> 'w) \<Rightarrow> string \<Rightarrow> string \<Rightarrow> request_line \<Rightarrow> go_time
   \<Rightarrow> ('w \<Rightarrow> ('e + string) \<times> 'w) option \<Rightarrow> 'w \<Rightarrow> (string + string \<times> string) \<times> 'w" where
  "Sign sign rand key principalKID r now nonce w =
     (if \<not> PrincipalKIDPattern principalKID then (Inl ''foundryoperator: principal kid is invalid'', w)
      else if length key \<noteq> 64 then (Inl ''foundryoperator: signing key is invalid'', w)
      else (case (case nonce of None \<Rightarrow> RandomNonce rand | Some f \<Rightarrow> f) w of
          (Inl e, w1) \<Rightarrow> (Inl ''foundryoperator: nonce is unavailable'', w1)
        | (Inr n, w1) \<Rightarrow>
            if \<not> ValidNonce n then (Inl ''foundryoperator: nonce is unavailable'', w1)
            else (case canonicalMarshal (proof_json (proof_of principalKID r now n)) of
               Inl e \<Rightarrow> (Inl (''foundryoperator: encode proof: '' @ e), w1)
             | Inr proof_bytes \<Rightarrow>
                 (Inr (RawURLEncoding_encode proof_bytes, StdEncoding_encode (sign key proof_bytes)), w1))))"

section \<open>Canonical text is read back\<close>

lemma rune_width_replacement [simp]: "rune_width (CHR 0xEF # CHR 0xBF # CHR 0xBD # s) = 3"
  by (simp add: rune_width_def second_ok_def cont_byte_def)

lemma sanitise_sanitise [simp]: "sanitise (sanitise s) = sanitise s"
proof (induction s rule: sanitise.induct)
  case (2 c s)
  let ?w = "rune_width (c # s)"
  show ?case
  proof (cases "?w = 0")
    case True
    with 2 show ?thesis by (simp add: replacement_def)
  next
    case False
    note take = rune_width_take [OF refl False, of "sanitise (drop (?w - 1) s)"]
    then have "length (take (?w - 1) s) = ?w - 1" by simp
    with take False 2 show ?thesis by simp
  qed
qed simp

lemma unesc_canon_ascii:
  assumes "of_byte c < (0x80 :: nat)"
  shows "unesc (canon_ascii c @ s) = map_option (\<lambda>(x, q). (c # x, q)) (unesc s)"
proof (cases "c \<in> {CHR 0x22, CHR 0x5C, CHR 0x08, CHR 0x0C, CHR 0x0A, CHR 0x0D, CHR 0x09}")
  case True
  then show ?thesis by (auto simp: canon_ascii_def simple_escape_def)
next
  case no: False
  show ?thesis
  proof (cases "of_byte c < (0x20 :: nat)")
    case True
    with no have "canon_ascii c = u_escape (of_byte c)" by (auto simp: canon_ascii_def)
    moreover from assms have "encode_rune (of_byte c) = [c]" by (simp add: encode_rune_def)
    ultimately show ?thesis using assms by (simp add: unesc_u_escape)
  next
    case False
    with no have "canon_ascii c = [c]" by (auto simp: canon_ascii_def)
    with no False assms show ?thesis by simp
  qed
qed

lemma unesc_canon: "unesc (canon_esc s @ CHR 0x22 # t) = Some (sanitise s, t)"
proof (induction s rule: canon_esc.induct)
  case (2 c s)
  show ?case
  proof (cases "of_byte c < (0x80 :: nat)")
    case True
    with 2 show ?thesis by (simp add: unesc_canon_ascii)
  next
    case high: False
    then have c: "c \<noteq> CHR 0x22" "c \<noteq> CHR 0x5C" "\<not> of_byte c < (0x20 :: nat)" by auto
    let ?w = "rune_width (c # s)"
    show ?thesis
    proof (cases "?w = 0")
      case True
      with 2 high show ?thesis by (simp add: replacement_def)
    next
      case w: False
      note take = rune_width_take [OF refl w, of "canon_esc (drop (?w - 1) s) @ CHR 0x22 # t"]
      then have "length (take (?w - 1) s) = ?w - 1" by simp
      with take c high w 2 show ?thesis by simp
    qed
  qed
qed simp

text \<open>A canonical object whose values are strings.\<close>

definition canon_field :: "string \<times> string \<Rightarrow> string" where
  "canon_field kv = appendJSONString (fst kv) @ '':'' @ appendJSONString (snd kv)"

lemma parse_canon_string: "parse_value (Suc n) (appendJSONString s @ t) = Some (JStr (sanitise s), t)"
  by (simp add: appendJSONString_def unesc_canon)

lemma canon_field_length: "5 \<le> length (canon_field kv)"
  by (simp add: canon_field_def appendJSONString_def)

lemma parse_canon_members:
  "kvs \<noteq> [] \<Longrightarrow> length (Join (map canon_field kvs) '','') < n \<Longrightarrow>
     parse_members n (Join (map canon_field kvs) '','' @ CHR ''}'' # t) =
       Some (map (\<lambda>(k, v). (sanitise k, JStr (sanitise v))) kvs, t)"
proof (induction kvs arbitrary: n)
  case (Cons kv kvs)
  obtain k v where kv: "kv = (k, v)" by (cases kv)
  note len = canon_field_length [of kv]
  have "length (canon_field kv) \<le> length (Join (map canon_field (kv # kvs)) '','')"
    by (cases kvs) simp_all
  with Cons.prems len obtain m where n: "n = Suc (Suc m)" by (cases n; cases "n - 1") auto
  have key: "parse_members n (canon_field kv @ r) =
      (case skip_ws r of [] \<Rightarrow> None
       | c' # q \<Rightarrow> if c' = CHR '','' then map_option (\<lambda>(ms, t). ((sanitise k, JStr (sanitise v)) # ms, t)) (parse_members (Suc m) q)
           else if c' = CHR ''}'' then Some ([(sanitise k, JStr (sanitise v))], q) else None)" for r
    using parse_canon_string [of m v] by (simp add: n kv canon_field_def appendJSONString_def unesc_canon del: parse_value.simps)
  show ?case
  proof (cases kvs)
    case Nil
    with key [of "CHR ''}'' # t"] kv show ?thesis by simp
  next
    case (Cons kv' kvs')
    with Cons.prems n len have "length (Join (map canon_field kvs) '','') < Suc m" by simp
    with Cons.IH [of "Suc m"] Cons have "parse_members (Suc m) (Join (map canon_field kvs) '','' @ CHR ''}'' # t) =
        Some (map (\<lambda>(k, v). (sanitise k, JStr (sanitise v))) kvs, t)" by simp
    with key [of "CHR '','' # Join (map canon_field kvs) '','' @ CHR ''}'' # t"] kv Cons show ?thesis by simp
  qed
qed simp

lemma parse_canon_object:
  assumes "kvs \<noteq> []"
  shows "parse_doc (''{'' @ Join (map canon_field kvs) '','' @ ''}'') =
    Some (JObj (map (\<lambda>(k, v). (sanitise k, JStr (sanitise v))) kvs))"
proof -
  let ?t = "Join (map canon_field kvs) '',''"
  obtain kv kvs' where kvs: "kvs = kv # kvs'" using assms by (cases kvs) auto
  then obtain r where r: "?t = CHR 0x22 # r" 
    by (cases kvs') (auto simp: canon_field_def appendJSONString_def)
  have "parse_members (2 * length (''{'' @ ?t @ ''}'') + 1) (?t @ CHR ''}'' # []) =
      Some (map (\<lambda>(k, v). (sanitise k, JStr (sanitise v))) kvs, [])"
    by (rule parse_canon_members [OF assms]) simp
  then have "parse_value (2 * length (''{'' @ ?t @ ''}'') + 2) (''{'' @ ?t @ ''}'') =
      Some (JObj (map (\<lambda>(k, v). (sanitise k, JStr (sanitise v))) kvs), [])"
    using r by (simp add: numeral_2_eq_2)
  then show ?thesis by (simp add: parse_doc_def parse_json_def skip_ws_def)
qed

section \<open>The proof bytes\<close>

text \<open>The members of a proof, in the order of their keys.\<close>

definition proof_members :: "proof_value \<Rightarrow> (string \<times> string) list" where
  "proof_members p =
     [(''bodySha256'', BodySHA256 p), (''expiresAt'', ExpiresAt p), (''issuedAt'', IssuedAt p), (''method'', ProofMethod p),
      (''nonce'', Nonce p), (''normalizedPath'', NormalizedPath p)]
     @ (if NormalizedQuery p = [] then [] else [(''normalizedQuery'', NormalizedQuery p)])
     @ [(''principalKid'', PrincipalKID p), (''protocol'', ProofProtocol p)]"

lemma canon_esc_sanitise [simp]: "canon_esc (sanitise s) = canon_esc s"
proof (induction s rule: canon_esc.induct)
  case (2 c s)
  let ?w = "rune_width (c # s)"
  show ?case
  proof (cases "of_byte c < (0x80 :: nat)")
    case True
    with 2 show ?thesis by simp
  next
    case high: False
    show ?thesis
    proof (cases "?w = 0")
      case True
      with 2 high show ?thesis by (simp add: replacement_def)
    next
      case False
      note take = rune_width_take [OF refl False, of "sanitise (drop (?w - 1) s)"]
      then have "length (take (?w - 1) s) = ?w - 1" by simp
      with take False 2 high show ?thesis by simp
    qed
  qed
qed simp

lemma canonicalMarshal_proof:
  "canonicalMarshal (proof_json p) = Inr (''{'' @ Join (map canon_field (proof_members p)) '','' @ ''}'')"
proof -
  have "wf_json (proof_json p)" by (simp add: proof_json_def wf_members_iff)
  then have "canonicalMarshal (proof_json p) = appendCanonical (sanitise_json (proof_json p))"
    by (simp add: canonicalMarshal_def parse_doc_print)
  also have "\<dots> = Inr (''{'' @ Join (map canon_field (proof_members p)) '','' @ ''}'')"
  proof (cases "NormalizedQuery p = []")
    case True
    then show ?thesis
      by (simp add: proof_json_def sanitise_members_map canon_object_def object_fields_def proof_members_def canon_field_def
          appendJSONString_def)
  next
    case False
    then show ?thesis
      by (simp add: proof_json_def sanitise_members_map canon_object_def object_fields_def proof_members_def canon_field_def
          appendJSONString_def)
  qed
  finally show ?thesis .
qed

section \<open>Sign\<close>

lemma parse_proof_members:
  "parse_doc (''{'' @ Join (map canon_field (proof_members p)) '','' @ ''}'') =
     Some (JObj (map (\<lambda>(k, v). (k, JStr (sanitise v))) (proof_members p)))"
  by (subst parse_canon_object) (simp_all add: proof_members_def)

lemma canonicalMarshal_read:
  assumes "canonicalMarshal (proof_json p) = Inr b"
  shows "parse_doc b = Some (JObj (map (\<lambda>(k, v). (k, JStr (sanitise v))) (proof_members p)))"
proof -
  from assms have "b = ''{'' @ Join (map canon_field (proof_members p)) '','' @ ''}''"
    by (simp only: canonicalMarshal_proof sum.inject)
  then show ?thesis by (simp only: parse_proof_members)
qed

lemma Sign_cases:
  assumes "Sign sign rand key kid r now nonce w = (Inr (hdr, sig), w1)"
  obtains n b where "PrincipalKIDPattern kid" "length key = 64" "ValidNonce n"
    "(case nonce of None \<Rightarrow> RandomNonce rand | Some f \<Rightarrow> f) w = (Inr n, w1)"
    "parse_doc b = Some (JObj (map (\<lambda>(k, v). (k, JStr (sanitise v))) (proof_members (proof_of kid r now n))))"
    "hdr = RawURLEncoding_encode b" "sig = StdEncoding_encode (sign key b)"
proof -
  obtain res w2 where f: "(case nonce of None \<Rightarrow> RandomNonce rand | Some f \<Rightarrow> f) w = (res, w2)" by (rule prod.exhaust)
  from assms f obtain n where n: "res = Inr n" "ValidNonce n" and k: "PrincipalKIDPattern kid" "length key = 64"
    by (cases res) (simp_all add: Sign_def split: if_splits)
  obtain b where b: "canonicalMarshal (proof_json (proof_of kid r now n)) = Inr b" by (simp only: canonicalMarshal_proof)
  have "Sign sign rand key kid r now nonce w = (Inr (RawURLEncoding_encode b, StdEncoding_encode (sign key b)), w2)"
    unfolding Sign_def f n(1) prod.case sum.case b using k n(2) by (simp only: not_True_eq_False if_False simp_thms)
  with assms have "w2 = w1" "hdr = RawURLEncoding_encode b" "sig = StdEncoding_encode (sign key b)" by simp_all
  with k n f canonicalMarshal_read [OF b] show thesis by (intro that) simp_all
qed

lemma kid_ascii: "PrincipalKIDPattern kid \<Longrightarrow> sanitise kid = kid"
proof -
  assume k: "PrincipalKIDPattern kid"
  have a: "of_byte x < (0x80 :: nat)" if "kid_start x \<or> x \<in> set ''._:-''" for x
    using that by (auto simp: kid_start_def Let_def)
  from k obtain c r where kid: "kid = c # r" and c: "kid_start c" and r: "list_all (\<lambda>x. kid_start x \<or> x \<in> set ''._:-'') r"
    by (auto simp: PrincipalKIDPattern_def split: list.splits)
  from r a have "list_all (\<lambda>x. of_byte x < (0x80 :: nat)) r" by (rule list.pred_mono_strong)
  with a [of c] c show ?thesis by (simp add: kid sanitise_ascii)
qed

lemma strings_Trim_empty: "strings_Trim s cutset = [] \<Longrightarrow> set s \<subseteq> set cutset"
proof -
  assume "strings_Trim s cutset = []"
  then have all: "\<forall>c \<in> set (dropWhile (\<lambda>c. c \<in> set cutset) s). c \<in> set cutset"
    by (simp only: strings_Trim_def TrimRight_def TrimLeft_def rev_is_Nil_conv dropWhile_eq_Nil_conv set_rev)
  have "dropWhile (\<lambda>c. c \<in> set cutset) s = []"
  proof (rule ccontr)
    assume "dropWhile (\<lambda>c. c \<in> set cutset) s \<noteq> []"
    with hd_dropWhile [OF this] all show False by (metis hd_in_set)
  qed
  then show ?thesis unfolding dropWhile_eq_Nil_conv by blast
qed

lemma nonce_ascii:
  assumes "ValidNonce n" shows "set n \<subseteq> set nonceCharset" "sanitise n = n"
proof -
  from assms show n: "set n \<subseteq> set nonceCharset" by (simp only: ValidNonce_def strings_Trim_empty)
  have "list_all (\<lambda>c. of_byte c < (0x80 :: nat)) nonceCharset" by code_simp
  with n have "list_all (\<lambda>c. of_byte c < (0x80 :: nat)) n" by (auto simp: list_all_iff)
  then show "sanitise n = n" by (rule sanitise_ascii)
qed

text \<open>C20: what Sign returns is what foundryd reads: the decoded proof header is one JSON object with exactly the protocol, the
  kid, a valid nonce, the two times, method, path, query and body digest of this request (invalid UTF-8 read as U+FFFD, an
  empty query absent), and the signature header decodes to the signature of exactly those bytes; the nonce comes from the
  caller's function, or from the random source. The two times are one second before and one minute after the time of signing:
  read by time.Parse in the years 0 to 9999 they give exactly these instants.
\<close>
theorem Sign_proof_roundtrip:
  assumes "Sign sign rand key kid r now nonce w = (Inr (hdr, sig), w1)"
  shows "\<exists>n b. (case nonce of None \<Rightarrow> RandomNonce rand | Some f \<Rightarrow> f) w = (Inr n, w1) \<and> ValidNonce n \<and>
     PrincipalKIDPattern kid \<and> length key = 64 \<and>
     RawURLEncoding_decode hdr = Some b \<and> StdEncoding_decode sig = Some (sign key b) \<and>
     parse_doc b = Some (JObj (map (\<lambda>(k, v). (k, JStr (sanitise v)))
       ([(''bodySha256'', hex_encode (sha256 (LineBody r))),
         (''expiresAt'', format_RFC3339Nano (time_Add now validityWindow)),
         (''issuedAt'', format_RFC3339Nano (time_Add now (- clockSkewBackdate))),
         (''method'', LineMethod r), (''nonce'', n), (''normalizedPath'', LinePath r)]
        @ (if LineQuery r = [] then [] else [(''normalizedQuery'', LineQuery r)])
        @ [(''principalKid'', kid), (''protocol'', ''FOUNDRY-OPERATOR-V1'')]))) \<and>
     (\<forall>d \<in> {- clockSkewBackdate, validityWindow}. four_digit_year (time_Add now d) \<longrightarrow>
       parse_RFC3339 (sanitise (format_RFC3339Nano (time_Add now d))) = Some (time_Add now d))"
proof -
  from assms obtain n b where s: "PrincipalKIDPattern kid" "length key = 64" "ValidNonce n"
    "(case nonce of None \<Rightarrow> RandomNonce rand | Some f \<Rightarrow> f) w = (Inr n, w1)"
    "parse_doc b = Some (JObj (map (\<lambda>(k, v). (k, JStr (sanitise v))) (proof_members (proof_of kid r now n))))"
    "hdr = RawURLEncoding_encode b" "sig = StdEncoding_encode (sign key b)" by (rule Sign_cases)
  with s show ?thesis
    by - (rule exI [of _ n], rule exI [of _ b], simp add: proof_members_def proof_of_def Protocol_def b64url.dec_enc b64std.dec_enc
        format_RFC3339Nano_ascii parse_format_RFC3339)
qed

lemma Sign_proof_roundtrip_witness:
  "case Sign (\<lambda>k m. k) (\<lambda>w. (Inl (), w)) (replicate 64 CHR ''k'') ''op''
       \<lparr>LineMethod = ''GET'', LinePath = ''/kb'', LineQuery = [], LineBody = []\<rparr> 0
       (Some (\<lambda>w. (Inr (replicate 22 CHR ''n''), Suc w))) 0 of
     (Inr (hdr, sig), w1) \<Rightarrow> (\<exists>b. RawURLEncoding_decode hdr = Some b \<and>
        StdEncoding_decode sig = Some (replicate 64 CHR ''k'') \<and> parse_doc b \<noteq> None)
   | _ \<Rightarrow> False"
proof -
  let ?r = "\<lparr>LineMethod = ''GET'', LinePath = ''/kb'', LineQuery = [], LineBody = []\<rparr>"
  let ?n = "replicate 22 CHR ''n''"
  let ?k = "replicate 64 CHR ''k''"
  have ok: "ValidNonce ?n" "PrincipalKIDPattern ''op''" by code_simp+
  then obtain hdr sig where "Sign (\<lambda>k m. k) (\<lambda>w. (Inl (), w)) ?k ''op'' ?r 0 (Some (\<lambda>w. (Inr ?n, Suc w))) (0 :: nat) =
      (Inr (hdr, sig), Suc 0)"
    by (simp add: Sign_def canonicalMarshal_proof)
  from Sign_proof_roundtrip [OF this] this show ?thesis by auto
qed



text \<open>The default nonce is valid: 24 random bytes are 32 characters of the alphabet.\<close>

lemma url_char_nonce: "c \<in> set url_alphabet \<Longrightarrow> c \<in> set nonceCharset"
proof -
  have "list_all (\<lambda>c. c \<in> set nonceCharset) url_alphabet" by code_simp
  then show "c \<in> set url_alphabet \<Longrightarrow> c \<in> set nonceCharset" by (simp add: list_all_iff)
qed

lemma strings_Trim_all: "set s \<subseteq> set cutset \<Longrightarrow> strings_Trim s cutset = []"
proof -
  assume "set s \<subseteq> set cutset"
  then have "dropWhile (\<lambda>c. c \<in> set cutset) s = []" unfolding dropWhile_eq_Nil_conv by blast
  then show ?thesis by (simp only: strings_Trim_def TrimRight_def TrimLeft_def) simp
qed

lemma length_b64_encode: "length (b64_encode al False s) = (4 * length s + 2) div 3"
  by (induction al False s rule: b64_encode.induct) (simp_all add: Let_def)

lemma RandomNonce_valid:
  assumes "rand w = (Inr raw, w1)" "length raw = 24"
  shows "RandomNonce rand w = (Inr (RawURLEncoding_encode raw), w1)" "ValidNonce (RawURLEncoding_encode raw)"
proof -
  show "RandomNonce rand w = (Inr (RawURLEncoding_encode raw), w1)" by (simp add: RandomNonce_def assms)
  have "set (RawURLEncoding_encode raw) \<subseteq> set url_alphabet"
    using b64_encode_set [OF b64_alphabet_url, of False raw] by (simp add: RawURLEncoding_encode_def)
  with url_char_nonce have "strings_Trim (RawURLEncoding_encode raw) nonceCharset = []"
    by (intro strings_Trim_all) blast
  moreover have "length (RawURLEncoding_encode raw) = 32"
    by (simp add: RawURLEncoding_encode_def length_b64_encode assms)
  ultimately show "ValidNonce (RawURLEncoding_encode raw)" by (simp only: ValidNonce_def) simp
qed

text \<open>C37: Sign answers on every input, and never with an unsigned or half-made proof: an invalid kid, a key that is not an
  Ed25519 private key and a failing or invalid nonce are refused, in this order, and everything else is signed. The nonce
  function is called only when kid and key are valid. With no nonce function and a working random source it always signs.
\<close>
theorem Sign_errors:
  "(\<not> PrincipalKIDPattern kid \<longrightarrow>
      Sign sign rand key kid r now nonce w = (Inl ''foundryoperator: principal kid is invalid'', w)) \<and>
   (PrincipalKIDPattern kid \<and> length key \<noteq> 64 \<longrightarrow>
      Sign sign rand key kid r now nonce w = (Inl ''foundryoperator: signing key is invalid'', w)) \<and>
   (PrincipalKIDPattern kid \<and> length key = 64 \<longrightarrow>
      (case (case nonce of None \<Rightarrow> RandomNonce rand | Some f \<Rightarrow> f) w of
         (Inl e, w1) \<Rightarrow> Sign sign rand key kid r now nonce w = (Inl ''foundryoperator: nonce is unavailable'', w1)
       | (Inr n, w1) \<Rightarrow>
           if ValidNonce n then \<exists>hdr sig. Sign sign rand key kid r now nonce w = (Inr (hdr, sig), w1)
           else Sign sign rand key kid r now nonce w = (Inl ''foundryoperator: nonce is unavailable'', w1))) \<and>
   (\<forall>raw w1. PrincipalKIDPattern kid \<and> length key = 64 \<and> nonce = None \<and> rand w = (Inr raw, w1) \<and> length raw = 24 \<longrightarrow>
      (\<exists>hdr sig. Sign sign rand key kid r now nonce w = (Inr (hdr, sig), w1)))"
proof (intro conjI allI impI, goal_cases)
  case 1 then show ?case by (simp add: Sign_def)
next
  case 2 then show ?case by (simp add: Sign_def)
next
  case 3 then show ?case
    by (auto simp: Sign_def canonicalMarshal_proof split: prod.split sum.split)
next
  case (4 raw w1)
  with RandomNonce_valid [of rand w raw w1] show ?case by (simp add: Sign_def canonicalMarshal_proof)
qed

lemma Sign_errors_witness:
  "Sign (\<lambda>k m. k) (\<lambda>w. (Inl (), w)) (replicate 64 CHR ''k'') ''-op'' \<lparr>LineMethod = ''GET'', LinePath = ''/kb'', LineQuery = [], LineBody = []\<rparr> 0 (Some (\<lambda>w. (Inr ''n'', Suc w))) 0 =
     (Inl ''foundryoperator: principal kid is invalid'', 0 :: nat) \<and>
   Sign (\<lambda>k m. k) (\<lambda>w. (Inl (), w)) ''k'' ''op'' \<lparr>LineMethod = ''GET'', LinePath = ''/kb'', LineQuery = [], LineBody = []\<rparr> 0 None (0 :: nat) =
     (Inl ''foundryoperator: signing key is invalid'', 0) \<and>
   (\<exists>hdr sig. Sign (\<lambda>k m. k) (\<lambda>w. (Inr (replicate 24 CHR ''r'') :: unit + string, Suc w)) (replicate 64 CHR ''k'') ''op'' \<lparr>LineMethod = ''GET'', LinePath = ''/kb'', LineQuery = [], LineBody = []\<rparr> 0
      None 0 = (Inr (hdr, sig), Suc 0))"
proof -
  have p: "\<not> PrincipalKIDPattern ''-op''" "PrincipalKIDPattern ''op''" by code_simp+
  show ?thesis
    using Sign_errors [of "''-op''" "\<lambda>k m. k" "\<lambda>w. (Inl (), w)" "replicate 64 CHR ''k''" "\<lparr>LineMethod = ''GET'', LinePath = ''/kb'', LineQuery = [], LineBody = []\<rparr>" 0
        "Some (\<lambda>w. (Inr ''n'', Suc w))" "0 :: nat"]
      Sign_errors [of "''op''" "\<lambda>k m. k" "\<lambda>w. (Inl (), w)" "''k''" "\<lparr>LineMethod = ''GET'', LinePath = ''/kb'', LineQuery = [], LineBody = []\<rparr>" 0 None "0 :: nat"]
      Sign_errors [of "''op''" "\<lambda>k m. k" "\<lambda>w. (Inr (replicate 24 CHR ''r'') :: unit + string, Suc w)"
        "replicate 64 CHR ''k''" "\<lparr>LineMethod = ''GET'', LinePath = ''/kb'', LineQuery = [], LineBody = []\<rparr>" 0 None "0 :: nat"] p by simp
qed

end
