(* ===== verification/Sidecar.thy ===== *)
theory Sidecar
  imports Go_Struct Go_Net
begin

text \<open>
  Package \<open>sidecar\<close>: the cut record of a sidecar store, its validation and \<open>Parse\<close>; and the encoding
  \<open>json.Marshal\<close> gives it by the tags of the struct.
\<close>

section \<open>Records\<close>

record cut_file =
  FilePath :: string
  FileBytes :: int
  FileSHA :: string

definition KindSQLite :: string where "KindSQLite = ''sqlite''"
definition KindCustody :: string where "KindCustody = ''custody''"
definition KindHandoff :: string where "KindHandoff = ''handoff''"

record cut_record =
  Store :: string
  CutKind :: string
  Cut :: string
  CapturedAt :: string
  SchemaVersion :: int
  WriterGeneration :: nat
  ControlLogSHA256 :: string
  ControlLogSeq :: nat
  Cursors :: "(string \<times> nat) list"
  Encrypted :: bool
  CiphertextSHA256 :: string
  CiphertextBytes :: int
  Recipients :: "string list"
  PlaintextFiles :: "cut_file list"

definition zero_file :: cut_file where
  "zero_file = \<lparr>FilePath = [], FileBytes = 0, FileSHA = []\<rparr>"

definition zero_cut :: cut_record where
  "zero_cut = \<lparr>Store = [], CutKind = [], Cut = [], CapturedAt = [], SchemaVersion = 0, WriterGeneration = 0,
     ControlLogSHA256 = [], ControlLogSeq = 0, Cursors = [], Encrypted = False, CiphertextSHA256 = [], CiphertextBytes = 0,
     Recipients = [], PlaintextFiles = []\<rparr>"

section \<open>Encoding\<close>

definition file_members :: "cut_file \<Rightarrow> (string \<times> json) list" where
  "file_members f = [(''path'', JStr (FilePath f)), (''bytes'', JNum (show_int (FileBytes f))), (''sha256'', JStr (FileSHA f))]"

definition file_json :: "cut_file \<Rightarrow> json" where "file_json f = JObj (file_members f)"

definition cut_members :: "cut_record \<Rightarrow> (string \<times> json) list" where
  "cut_members r =
     [(''store'', JStr (Store r)), (''kind'', JStr (CutKind r)), (''cut'', JStr (Cut r)), (''capturedAt'', JStr (CapturedAt r)),
      (''schemaVersion'', JNum (show_int (SchemaVersion r))), (''writerGeneration'', JNum (show_nat (WriterGeneration r)))]
     @ omit_empty (ControlLogSHA256 r = []) ''controlLogSha256'' (JStr (ControlLogSHA256 r))
     @ [(''controlLogSeq'', JNum (show_nat (ControlLogSeq r)))]
     @ omit_empty (Cursors r = []) ''cursors'' (JObj (map (\<lambda>(k, n). (k, JNum (show_nat n))) (Cursors r)))
     @ omit_empty (\<not> Encrypted r) ''encrypted'' (JBool (Encrypted r))
     @ omit_empty (CiphertextSHA256 r = []) ''ciphertextSha256'' (JStr (CiphertextSHA256 r))
     @ omit_empty (CiphertextBytes r = 0) ''ciphertextBytes'' (JNum (show_int (CiphertextBytes r)))
     @ omit_empty (Recipients r = []) ''recipients'' (JArr (map JStr (Recipients r)))
     @ omit_empty (PlaintextFiles r = []) ''plaintextFiles'' (JArr (map file_json (PlaintextFiles r)))"

definition cut_json :: "cut_record \<Rightarrow> json" where "cut_json r = JObj (cut_members r)"

section \<open>Decoding\<close>

definition file_fields :: "(string \<times> cut_file setter) list" where
  "file_fields =
     [(''path'', set_string (\<lambda>v x. x\<lparr>FilePath := v\<rparr>)),
      (''bytes'', set_int64 (\<lambda>v x. x\<lparr>FileBytes := v\<rparr>)),
      (''sha256'', set_string (\<lambda>v x. x\<lparr>FileSHA := v\<rparr>))]"

definition cut_fields :: "(string \<times> cut_record setter) list" where
  "cut_fields =
     [(''store'', set_string (\<lambda>v x. x\<lparr>Store := v\<rparr>)),
      (''kind'', set_string (\<lambda>v x. x\<lparr>CutKind := v\<rparr>)),
      (''cut'', set_string (\<lambda>v x. x\<lparr>Cut := v\<rparr>)),
      (''capturedAt'', set_string (\<lambda>v x. x\<lparr>CapturedAt := v\<rparr>)),
      (''schemaVersion'', set_int64 (\<lambda>v x. x\<lparr>SchemaVersion := v\<rparr>)),
      (''writerGeneration'', set_uint64 (\<lambda>v x. x\<lparr>WriterGeneration := v\<rparr>)),
      (''controlLogSha256'', set_string (\<lambda>v x. x\<lparr>ControlLogSHA256 := v\<rparr>)),
      (''controlLogSeq'', set_uint64 (\<lambda>v x. x\<lparr>ControlLogSeq := v\<rparr>)),
      (''cursors'', set_map (set_uint64 (\<lambda>v _. v)) 0 Cursors (\<lambda>v x. x\<lparr>Cursors := v\<rparr>)),
      (''encrypted'', set_bool (\<lambda>v x. x\<lparr>Encrypted := v\<rparr>)),
      (''ciphertextSha256'', set_string (\<lambda>v x. x\<lparr>CiphertextSHA256 := v\<rparr>)),
      (''ciphertextBytes'', set_int64 (\<lambda>v x. x\<lparr>CiphertextBytes := v\<rparr>)),
      (''recipients'', set_strings (\<lambda>v x. x\<lparr>Recipients := v\<rparr>)),
      (''plaintextFiles'', set_slice (set_struct True file_fields) zero_file (\<lambda>v x. x\<lparr>PlaintextFiles := v\<rparr>))]"

section \<open>Validation\<close>

text \<open>One constructor per error, with what its text names: the store, and the value it quotes.\<close>

datatype cut_error =
    StoreRequired
  | UnknownKind string string
  | NoCutIdentity string
  | NoCapturedAt string
  | UnparseableCapturedAt string string
  | MissingCiphertext string
  | UnexpectedCiphertext string
  | ParseCutRecord

definition CapturedAtTime :: "cut_record \<Rightarrow> cut_error + go_time" where
  "CapturedAtTime r =
     (if CapturedAt r = [] then Inl (NoCapturedAt (Store r))
      else (case parse_RFC3339 (CapturedAt r) of
          None \<Rightarrow> Inl (UnparseableCapturedAt (Store r) (CapturedAt r))
        | Some parsed \<Rightarrow> Inr parsed))"

definition Validate :: "cut_record \<Rightarrow> cut_error option" where
  "Validate r =
     (if Store r = [] then Some StoreRequired
      else if CutKind r \<noteq> KindSQLite \<and> CutKind r \<noteq> KindCustody \<and> CutKind r \<noteq> KindHandoff
      then Some (UnknownKind (Store r) (CutKind r))
      else if Cut r = [] then Some (NoCutIdentity (Store r))
      else (case CapturedAtTime r of
          Inl e \<Rightarrow> Some e
        | Inr _ \<Rightarrow>
            if Encrypted r then
              (if CiphertextSHA256 r = [] \<or> CiphertextBytes r \<le> 0 \<or> Recipients r = []
               then Some (MissingCiphertext (Store r)) else None)
            else if CiphertextSHA256 r \<noteq> [] \<or> CiphertextBytes r \<noteq> 0 \<or> Recipients r \<noteq> []
            then Some (UnexpectedCiphertext (Store r))
            else None))"

definition ParseCut :: "string \<Rightarrow> cut_error + cut_record" where
  "ParseCut payload =
     (case Decode_into (set_struct True cut_fields) payload zero_cut of
        (_, False) \<Rightarrow> Inl ParseCutRecord
      | (r, True) \<Rightarrow> (case Validate r of Some e \<Rightarrow> Inl e | None \<Rightarrow> Inr r))"

section \<open>A record that Parse returns\<close>

definition cut_typed :: "cut_record \<Rightarrow> bool" where
  "cut_typed r \<longleftrightarrow> - (2 ^ 63) \<le> SchemaVersion r \<and> SchemaVersion r < 2 ^ 63 \<and> WriterGeneration r < 2 ^ 64 \<and>
     ControlLogSeq r < 2 ^ 64 \<and> - (2 ^ 63) \<le> CiphertextBytes r \<and> CiphertextBytes r < 2 ^ 63 \<and>
     sorted_wrt (<) (map fst (Cursors r)) \<and> list_all (\<lambda>(k, n). n < 2 ^ 64) (Cursors r) \<and>
     list_all (\<lambda>f. - (2 ^ 63) \<le> FileBytes f \<and> FileBytes f < 2 ^ 63) (PlaintextFiles r)"

lemma cut_typed_zero: "cut_typed zero_cut"
  by (simp add: cut_typed_def zero_cut_def)

definition file_typed :: "cut_file \<Rightarrow> bool" where
  "file_typed f \<longleftrightarrow> - (2 ^ 63) \<le> FileBytes f \<and> FileBytes f < 2 ^ 63"

lemma file_typed_set: "file_typed (fst (set_struct True file_fields j zero_file))"
proof -
  have keep: "file_typed (fst (f j x))" if "(n, f) \<in> set file_fields" "file_typed x" for n f j x
    using that by (auto simp: file_fields_def file_typed_def set_string_def set_int64_def dest: ParseInt64_bounds
        split: json.split option.split)
  have "file_typed (fst (set_members True file_fields ms zero_file))" for ms
    by (rule set_members_keep) (erule (1) keep, simp add: file_typed_def zero_file_def)
  moreover have "file_typed zero_file" by (simp add: file_typed_def zero_file_def)
  ultimately show ?thesis by (simp add: set_struct_def split: json.split)
qed

lemma cursors_set:
  assumes "sorted_wrt (<) (map fst m)" "list_all (\<lambda>(k, n). n < 2 ^ 64) m"
  shows "sorted_wrt (<) (map fst (foldl (\<lambda>m (k, v). map_put k (fst (set_uint64 (\<lambda>v _. v) v 0)) m) m ms)) \<and>
     list_all (\<lambda>(k, n). n < 2 ^ 64) (foldl (\<lambda>m (k, v). map_put k (fst (set_uint64 (\<lambda>v _. v) v 0)) m) m ms)"
proof (rule foldl_keep)
  fix x :: "(string \<times> nat) list" and y :: "string \<times> json"
  assume x: "sorted_wrt (<) (map fst x) \<and> list_all (\<lambda>(k, n). n < 2 ^ 64) x"
  obtain k v where y: "y = (k, v)" by (cases y)
  have "fst (set_uint64 (\<lambda>v _. v) v 0) < 2 ^ 64" by (rule set_uint64_less) simp
  then have "list_all (\<lambda>(k, n). n < 2 ^ 64) (map_put k (fst (set_uint64 (\<lambda>v _. v) v 0)) x)"
    using x by (intro map_put_all) auto
  with x y map_put_sorted [of x k "fst (set_uint64 (\<lambda>v _. v) v 0)"] show "sorted_wrt (<) (map fst (case y of (k, v) \<Rightarrow> map_put k (fst (set_uint64 (\<lambda>v _. v) v 0)) x)) \<and>
      list_all (\<lambda>(k, n). n < 2 ^ 64) (case y of (k, v) \<Rightarrow> map_put k (fst (set_uint64 (\<lambda>v _. v) v 0)) x)" by simp
qed (use assms in simp)

lemma cut_typed_set:
  assumes "(n, f) \<in> set cut_fields" "cut_typed x"
  shows "cut_typed (fst (f j x))"
proof -
  have str: "cut_typed (fst (set_string upd j x))" if "\<And>v. cut_typed (upd v x)" for upd
    using that assms(2) by (rule keep_string)
  have bool: "cut_typed (fst (set_bool upd j x))" if "\<And>v. cut_typed (upd v x)" for upd
    using that assms(2) by (rule keep_bool)
  have int64: "cut_typed (fst (set_int64 upd j x))" if "\<And>v. - (2 ^ 63) \<le> v \<Longrightarrow> v < 2 ^ 63 \<Longrightarrow> cut_typed (upd v x)" for upd
    using that assms(2) by (rule keep_int64)
  have uint64: "cut_typed (fst (set_uint64 upd j x))" if "\<And>v. v < 2 ^ 64 \<Longrightarrow> cut_typed (upd v x)" for upd
    using that assms(2) by (rule keep_uint64)
  have cursors: "cut_typed (fst (set_map (set_uint64 (\<lambda>v _. v)) 0 Cursors (\<lambda>v x. x\<lparr>Cursors := v\<rparr>) j x))"
    using assms(2) cursors_set [of "Cursors x"] by (simp add: set_map_def cut_typed_def split: json.split)
  have files: "cut_typed (fst (set_slice (set_struct True file_fields) zero_file (\<lambda>v x. x\<lparr>PlaintextFiles := v\<rparr>) j x))"
    using assms(2) file_typed_set by (simp add: set_slice_def cut_typed_def file_typed_def list_all_iff split: json.split)
  have recipients: "cut_typed (fst (set_strings (\<lambda>v x. x\<lparr>Recipients := v\<rparr>) j x))"
    using assms(2) by (simp add: set_strings_def set_slice_def cut_typed_def split: json.split)
  from assms(1) show ?thesis
    unfolding cut_fields_def list.set insert_iff empty_iff prod.inject
    using assms(2) cursors files recipients
    by (elim disjE conjE FalseE; hypsubst) (assumption | rule str bool int64 uint64, simp add: cut_typed_def)+
qed

lemma cut_typed_members: "cut_typed (fst (set_members True cut_fields ms zero_cut))"
  by (rule set_members_keep) (erule (1) cut_typed_set, rule cut_typed_zero)

lemma Validate_iff:
  "Validate r = None \<longleftrightarrow>
     Store r \<noteq> [] \<and> CutKind r \<in> {''sqlite'', ''custody'', ''handoff''} \<and> Cut r \<noteq> [] \<and> CapturedAt r \<noteq> [] \<and>
     (\<exists>t. CapturedAtTime r = Inr t \<and> parse_RFC3339 (CapturedAt r) = Some t) \<and>
     (if Encrypted r then CiphertextSHA256 r \<noteq> [] \<and> 0 < CiphertextBytes r \<and> Recipients r \<noteq> []
      else CiphertextSHA256 r = [] \<and> CiphertextBytes r = 0 \<and> Recipients r = [])"
  by (auto simp: Validate_def CapturedAtTime_def KindSQLite_def KindCustody_def KindHandoff_def
      split: if_splits option.splits sum.splits)

lemma ParseCut_cases:
  assumes "ParseCut payload = Inr r"
  obtains ms rest where "parse_json payload = Some (JObj ms, rest)" "set_members True cut_fields ms zero_cut = (r, True)"
    "Validate r = None"
proof -
  obtain r' ok where d: "Decode_into (set_struct True cut_fields) payload zero_cut = (r', ok)" by (rule prod.exhaust)
  with assms have ok: "ok" "r' = r" "Validate r = None" by (auto simp: ParseCut_def split: bool.splits option.splits)
  from d ok obtain j rest where j: "parse_json payload = Some (j, rest)" "set_struct True cut_fields j zero_cut = (r, True)"
    by (auto simp: Decode_into_def split: option.splits)
  have "Validate zero_cut = Some StoreRequired" by (simp add: Validate_def zero_cut_def)
  with j(2) ok obtain ms where "j = JObj ms" "set_members True cut_fields ms zero_cut = (r, True)"
    by (cases j) (auto simp: set_struct_def)
  with j ok that show ?thesis by blast
qed

text \<open>C26: every record Parse returns can be relied on: its payload begins with one JSON object all of whose members are fields of the
  record, its numbers are in the ranges of their Go types and its map has each key once, and it is a valid cut: a store, a cut,
  one of the three kinds, a capture time that parses, and a ciphertext identity with at least one recipient exactly when it is
  marked encrypted.
\<close>
theorem ParseCut_valid:
  assumes "ParseCut payload = Inr r"
  shows "(\<exists>ms rest. parse_json payload = Some (JObj ms, rest) \<and> (\<forall>(k, v) \<in> set ms. lookup_field cut_fields k \<noteq> None)) \<and>
     cut_typed r \<and> Validate r = None \<and>
     Store r \<noteq> [] \<and> CutKind r \<in> {''sqlite'', ''custody'', ''handoff''} \<and> Cut r \<noteq> [] \<and>
     (\<exists>t. CapturedAtTime r = Inr t \<and> parse_RFC3339 (CapturedAt r) = Some t) \<and>
     (if Encrypted r then CiphertextSHA256 r \<noteq> [] \<and> 0 < CiphertextBytes r \<and> Recipients r \<noteq> []
      else CiphertextSHA256 r = [] \<and> CiphertextBytes r = 0 \<and> Recipients r = [])"
proof -
  from assms obtain ms rest where ms: "parse_json payload = Some (JObj ms, rest)"
    "set_members True cut_fields ms zero_cut = (r, True)" "Validate r = None" by (rule ParseCut_cases)
  have "\<forall>(k, v) \<in> set ms. lookup_field cut_fields k \<noteq> None"
    using set_members_strict [of cut_fields ms zero_cut] ms(2) by auto
  moreover have "cut_typed r" using cut_typed_members [of ms] ms(2) by simp
  ultimately show ?thesis using ms(1) ms(3) ms(3) [unfolded Validate_iff] by blast
qed

lemma ParseCut_valid_witness:
  "case ParseCut (print_json (JObj [(''store'', JStr ''quarry''), (''kind'', JStr ''sqlite''), (''cut'', JStr ''c''),
       (''capturedAt'', JStr ''2026-09-12T07:00:00Z'')])) of
     Inr r \<Rightarrow> cut_typed r \<and> Validate r = None \<and> Recipients r = [] | Inl e \<Rightarrow> False"
proof -
  let ?p = "print_json (JObj [(''store'', JStr ''quarry''), (''kind'', JStr ''sqlite''), (''cut'', JStr ''c''),
       (''capturedAt'', JStr ''2026-09-12T07:00:00Z'')])"
  have "case ParseCut ?p of Inr r \<Rightarrow> \<not> Encrypted r | Inl e \<Rightarrow> False" by code_simp
  then obtain r where "ParseCut ?p = Inr r" "\<not> Encrypted r" by (auto split: sum.splits)
  with ParseCut_valid [OF this(1)] show ?thesis by simp
qed

section \<open>Encoding and parsing again\<close>

lemma cursors_read:
  "sorted_wrt (<) (map fst cs) \<Longrightarrow> list_all (\<lambda>(k, n). n < 2 ^ 64) cs \<Longrightarrow>
     foldl (\<lambda>m (k, v). map_put k (fst (set_uint64 (\<lambda>v _. v) v 0)) m) []
       (map (\<lambda>(k, n). (k, JNum (show_nat n))) cs) = cs"
proof (induction cs rule: rev_induct)
  case (snoc c cs)
  obtain k n where c: "c = (k, n)" by (cases c)
  with snoc.prems have "n < 2 ^ 64" "sorted_wrt (<) (map fst cs @ [k])" by simp_all
  with snoc c show ?case
    by (simp add: map_put_last set_uint64_def ParseUint64_show_nat sorted_wrt_append)
qed simp

lemma file_read: "file_typed f \<Longrightarrow> set_struct True file_fields (file_json f) zero_file = (f, True)"
  by (simp add: set_struct_def file_json_def file_members_def file_fields_def lookup_field_def set_string_def set_int64_def
      ParseInt64_show_int file_typed_def zero_file_def)

lemma cut_lookup:
  "lookup_field cut_fields ''store'' = Some (set_string (\<lambda>v x. x\<lparr>Store := v\<rparr>))"
  "lookup_field cut_fields ''kind'' = Some (set_string (\<lambda>v x. x\<lparr>CutKind := v\<rparr>))"
  "lookup_field cut_fields ''cut'' = Some (set_string (\<lambda>v x. x\<lparr>Cut := v\<rparr>))"
  "lookup_field cut_fields ''capturedAt'' = Some (set_string (\<lambda>v x. x\<lparr>CapturedAt := v\<rparr>))"
  "lookup_field cut_fields ''schemaVersion'' = Some (set_int64 (\<lambda>v x. x\<lparr>SchemaVersion := v\<rparr>))"
  "lookup_field cut_fields ''writerGeneration'' = Some (set_uint64 (\<lambda>v x. x\<lparr>WriterGeneration := v\<rparr>))"
  "lookup_field cut_fields ''controlLogSha256'' = Some (set_string (\<lambda>v x. x\<lparr>ControlLogSHA256 := v\<rparr>))"
  "lookup_field cut_fields ''controlLogSeq'' = Some (set_uint64 (\<lambda>v x. x\<lparr>ControlLogSeq := v\<rparr>))"
  "lookup_field cut_fields ''cursors'' = Some (set_map (set_uint64 (\<lambda>v _. v)) 0 Cursors (\<lambda>v x. x\<lparr>Cursors := v\<rparr>))"
  "lookup_field cut_fields ''encrypted'' = Some (set_bool (\<lambda>v x. x\<lparr>Encrypted := v\<rparr>))"
  "lookup_field cut_fields ''ciphertextSha256'' = Some (set_string (\<lambda>v x. x\<lparr>CiphertextSHA256 := v\<rparr>))"
  "lookup_field cut_fields ''ciphertextBytes'' = Some (set_int64 (\<lambda>v x. x\<lparr>CiphertextBytes := v\<rparr>))"
  "lookup_field cut_fields ''recipients'' = Some (set_strings (\<lambda>v x. x\<lparr>Recipients := v\<rparr>))"
  "lookup_field cut_fields ''plaintextFiles'' =
     Some (set_slice (set_struct True file_fields) zero_file (\<lambda>v x. x\<lparr>PlaintextFiles := v\<rparr>))"
  by (simp_all add: lookup_field_def cut_fields_def)

lemma list_all_read: "list_all file_typed fs \<Longrightarrow>
    map (\<lambda>f. fst (set_struct True file_fields (file_json f) zero_file)) fs = fs \<and>
    list_all (\<lambda>f. snd (set_struct True file_fields (file_json f) zero_file)) fs"
  by (induction fs) (simp_all add: file_read)

lemma cut_read:
  assumes "cut_typed r"
  shows "set_members True cut_fields (cut_members r) zero_cut = (r, True)"
proof -
  have cs: "foldl (\<lambda>m (k, v). map_put k (fst (set_uint64 (\<lambda>v _. v) v 0)) m) []
       (map (\<lambda>(k, n). (k, JNum (show_nat n))) (Cursors r)) = Cursors r"
    using assms by (intro cursors_read) (simp_all add: cut_typed_def)
  have ok: "list_all (\<lambda>(k, v). snd (set_uint64 (\<lambda>v _. v) v 0)) (map (\<lambda>(k, n). (k, JNum (show_nat n))) (Cursors r))"
    using assms by (auto simp: cut_typed_def list_all_iff set_uint64_def ParseUint64_show_nat)
  have fs: "map (\<lambda>f. fst (set_struct True file_fields (file_json f) zero_file)) (PlaintextFiles r) = PlaintextFiles r \<and>
      list_all (\<lambda>f. snd (set_struct True file_fields (file_json f) zero_file)) (PlaintextFiles r)"
    using assms by (intro list_all_read) (simp add: cut_typed_def file_typed_def [abs_def])
  have rs: "map (\<lambda>v. fst (set_string (\<lambda>v _. v) (JStr v) [])) (Recipients r) = Recipients r"
    "list_all (\<lambda>v. snd (set_string (\<lambda>v _. v) (JStr v) [])) (Recipients r)"
    by (simp_all add: set_string_def list_all_iff)
  show ?thesis
    using assms cs ok fs rs
    by (simp add: cut_members_def set_members_append set_omitted cut_lookup zero_cut_def cut_typed_def
        set_string_def [of _ "JStr _"] set_int64_def [of _ "JNum _"] set_uint64_def [of _ "JNum _"] set_bool_def set_map_def
        set_strings_def set_slice_def ParseInt64_show_int ParseUint64_show_nat o_def list.pred_map)
qed

definition cut_utf8 :: "cut_record \<Rightarrow> bool" where
  "cut_utf8 r \<longleftrightarrow> list_all valid_utf8 ([Store r, CutKind r, Cut r, CapturedAt r, ControlLogSHA256 r, CiphertextSHA256 r] @ Recipients r)
     \<and> list_all (\<lambda>(k, n). valid_utf8 k) (Cursors r)
     \<and> list_all (\<lambda>f. valid_utf8 (FilePath f) \<and> valid_utf8 (FileSHA f)) (PlaintextFiles r)"

lemma cut_members_clean:
  assumes "cut_utf8 r"
  shows "sanitise_members (cut_members r) = cut_members r" "wf_members (cut_members r)"
proof -
  have rs: "map (\<lambda>x. JStr (sanitise x)) (Recipients r) = map JStr (Recipients r)"
    using assms by (simp add: cut_utf8_def list_all_iff sanitise_valid)
  have cs: "map (\<lambda>x. (case (case x of (k, n) \<Rightarrow> (k, JNum (show_nat n))) of (k, j) \<Rightarrow> (sanitise k, sanitise_json j))) (Cursors r) =
      map (\<lambda>(k, n). (k, JNum (show_nat n))) (Cursors r)"
    using assms by (auto simp: cut_utf8_def list_all_iff sanitise_valid)
  have fs: "map (\<lambda>x. sanitise_json (file_json x)) (PlaintextFiles r) = map file_json (PlaintextFiles r)"
    using assms by (simp add: cut_utf8_def list_all_iff sanitise_valid file_json_def file_members_def)
  show "sanitise_members (cut_members r) = cut_members r"
    using assms rs cs fs
    by (simp add: cut_members_def omit_empty_def cut_utf8_def sanitise_valid sanitise_members_map sanitise_elems_map o_def)
  show "wf_members (cut_members r)"
    by (auto simp: cut_members_def omit_empty_def wf_members_iff wf_elems_iff list_all_iff file_json_def file_members_def num_literal_show_nat)
qed

definition cut_ok :: "cut_record \<Rightarrow> bool" where "cut_ok r \<longleftrightarrow> cut_typed r \<and> cut_utf8 r"

interpretation cut_codec: struct_codec True cut_fields zero_cut cut_members cut_ok
  by unfold_locales (simp_all add: cut_ok_def cut_members_clean cut_read, simp add: cut_members_def)

interpretation file_codec: struct_codec True file_fields zero_file file_members
    "\<lambda>f. file_typed f \<and> valid_utf8 (FilePath f) \<and> valid_utf8 (FileSHA f)"
  using file_read
  by unfold_locales (simp_all add: file_members_def sanitise_valid set_struct_def file_json_def)


definition demo_cut :: cut_record where
  "demo_cut = zero_cut\<lparr>Store := ''quarry'', CutKind := KindHandoff, Cut := ''cut-3f'', CapturedAt := ''2026-09-12T07:05:00Z'',
     SchemaVersion := 11, WriterGeneration := 4, Cursors := [(''observed'', 512), (''written'', 4)], Encrypted := True,
     CiphertextSHA256 := ''1220'', CiphertextBytes := 47, Recipients := [''recipient-key-01''],
     PlaintextFiles := [\<lparr>FilePath = ''store.sqlite'', FileBytes = 41, FileSHA = ''2b''\<rparr>]\<rparr>"


end
