(* ===== verification/Lifecycle.thy ===== *)
theory Lifecycle
  imports Go_Prelude Go_Machine
begin

text \<open>
  Package \<open>lifecycle\<close>: \<open>Drain\<close> as a machine whose steps are those of the calling goroutine and of the one goroutine per
  target, and the two signal functions as a step relation over the channel they read. The scheduler, the deliveries to the
  channel and what a \<open>Shutdown\<close> or \<open>forceExit\<close> function does are arbitrary; a \<open>report\<close> function returns.
\<close>

section \<open>Drain\<close>

text \<open>
  A \<open>Shutdown\<close> is nil or has a list of ways in which its call may end; a call that never ends has none.
\<close>

datatype 'e outcome = Returns "'e option" | Panics

record 'e target =
  TargetName :: string
  Shutdown :: "'e outcome list option"

datatype 'e phase = NotStarted | Started | Running | Returned "'e option" | Reporting | Reported | Finished | Panicking | Dying

text \<open>
  \<open>Calls\<close> and \<open>Reports\<close> record the calls made: the goroutine, and for \<open>report\<close> its arguments. A panic runs the
  deferred \<open>Done\<close> and then ends the process, so the caller can be released in between.
\<close>

record 'e drain_state =
  Phases :: "'e phase list"
  Spawned :: nat
  Counter :: int
  Calls :: "nat list"
  Reports :: "(nat \<times> 'e target \<times> 'e option) list"
  MainReturned :: bool
  Exited :: bool

datatype 'e action =
    Spawn | Call nat | Return nat "'e outcome" | Report nat | ReportReturns nat | Done nat | Exit nat | Wait

definition may_end :: "'e target \<Rightarrow> 'e outcome \<Rightarrow> bool" where
  "may_end t r \<longleftrightarrow> (case Shutdown t of None \<Rightarrow> False | Some rs \<Rightarrow> r \<in> set rs)"

definition drain_init :: "'e target list \<Rightarrow> 'e drain_state" where
  "drain_init targets =
     \<lparr>Phases = replicate (length targets) NotStarted, Spawned = 0, Counter = int (length targets), Calls = [], Reports = [],
       MainReturned = False, Exited = False\<rparr>"

definition phase_at :: "'e drain_state \<Rightarrow> nat \<Rightarrow> 'e phase option" where
  "phase_at s i = (if i < length (Phases s) then Some (Phases s ! i) else None)"

definition goto :: "nat \<Rightarrow> 'e phase \<Rightarrow> 'e drain_state \<Rightarrow> 'e drain_state" where
  "goto i p s = s\<lparr>Phases := (Phases s)[i := p]\<rparr>"

fun drain_do :: "'e target list \<Rightarrow> bool \<Rightarrow> 'e action \<Rightarrow> 'e drain_state \<Rightarrow> 'e drain_state option" where
  "drain_do targets report Spawn s =
     (if Spawned s < length targets then Some (goto (Spawned s) Started (s\<lparr>Spawned := Suc (Spawned s)\<rparr>)) else None)"
| "drain_do targets report (Call i) s =
     (if phase_at s i = Some Started then
        (case Shutdown (targets ! i) of
           None \<Rightarrow> Some (goto i Panicking s)
         | Some _ \<Rightarrow> Some (goto i Running (s\<lparr>Calls := Calls s @ [i]\<rparr>)))
      else None)"
| "drain_do targets report (Return i r) s =
     (if phase_at s i = Some Running \<and> may_end (targets ! i) r then
        (case r of Returns err \<Rightarrow> Some (goto i (Returned err) s) | Panics \<Rightarrow> Some (goto i Panicking s))
      else None)"
| "drain_do targets report (Report i) s =
     (case phase_at s i of
        Some (Returned err) \<Rightarrow>
          if report then Some (goto i Reporting (s\<lparr>Reports := Reports s @ [(i, targets ! i, err)]\<rparr>))
          else Some (goto i Reported s)
      | _ \<Rightarrow> None)"
| "drain_do targets report (ReportReturns i) s =
     (if phase_at s i = Some Reporting then Some (goto i Reported s) else None)"
| "drain_do targets report (Done i) s =
     (if phase_at s i = Some Reported then Some (goto i Finished (s\<lparr>Counter := Counter s - 1\<rparr>))
      else if phase_at s i = Some Panicking then Some (goto i Dying (s\<lparr>Counter := Counter s - 1\<rparr>))
      else None)"
| "drain_do targets report (Exit i) s =
     (if phase_at s i = Some Dying then Some (s\<lparr>Exited := True\<rparr>) else None)"
| "drain_do targets report Wait s =
     (if Spawned s = length targets \<and> Counter s = 0 \<and> \<not> MainReturned s then Some (s\<lparr>MainReturned := True\<rparr>) else None)"

text \<open>Nothing happens after the process has ended.\<close>

definition drain_step :: "'e target list \<Rightarrow> bool \<Rightarrow> 'e action \<Rightarrow> 'e drain_state \<Rightarrow> 'e drain_state option" where
  "drain_step targets report a s = (if Exited s then None else drain_do targets report a s)"

fun drain_run :: "'e target list \<Rightarrow> bool \<Rightarrow> 'e action list \<Rightarrow> 'e drain_state \<Rightarrow> 'e drain_state option" where
  "drain_run targets report [] s = Some s"
| "drain_run targets report (a # as) s =
     (case drain_step targets report a s of None \<Rightarrow> None | Some s' \<Rightarrow> drain_run targets report as s')"

section \<open>Signals\<close>

text \<open>
  The channel with what was delivered and not yet received; \<open>Delivered\<close> records all of it. \<open>None\<close> is the nil signal a
  closed channel yields.
\<close>

datatype 'g waiter = Waiting | Received "'g option" | Answered "'g option"
datatype 'g watcher = Unarmed | Watching | Gone | Called 'g

record 'g signals =
  Queue :: "'g list"
  Closed :: bool
  Delivered :: "'g list"
  Main :: "'g waiter"
  Watcher :: "'g watcher"
  Forced :: "'g list"

definition signals_init :: "'g signals" where
  "signals_init = \<lparr>Queue = [], Closed = False, Delivered = [], Main = Waiting, Watcher = Unarmed, Forced = []\<rparr>"

inductive signal_step :: "bool \<Rightarrow> 'g signals \<Rightarrow> 'g signals \<Rightarrow> bool" for forceExit :: bool where
  deliver: "\<not> Closed s \<Longrightarrow> signal_step forceExit s (s\<lparr>Queue := Queue s @ [g], Delivered := Delivered s @ [g]\<rparr>)"
| close: "\<not> Closed s \<Longrightarrow> signal_step forceExit s (s\<lparr>Closed := True\<rparr>)"
| receive: "Main s = Waiting \<Longrightarrow> Queue s = g # q \<Longrightarrow> signal_step forceExit s (s\<lparr>Queue := q, Main := Received (Some g)\<rparr>)"
| receive_closed: "Main s = Waiting \<Longrightarrow> Queue s = [] \<Longrightarrow> Closed s \<Longrightarrow>
    signal_step forceExit s (s\<lparr>Main := Received None\<rparr>)"
| arm: "Main s = Received r \<Longrightarrow>
    signal_step forceExit s (s\<lparr>Main := Answered r, Watcher := (if forceExit then Watching else Watcher s)\<rparr>)"
| second: "Watcher s = Watching \<Longrightarrow> Queue s = g # q \<Longrightarrow>
    signal_step forceExit s (s\<lparr>Queue := q, Watcher := Called g, Forced := Forced s @ [g]\<rparr>)"
| second_closed: "Watcher s = Watching \<Longrightarrow> Queue s = [] \<Longrightarrow> Closed s \<Longrightarrow> signal_step forceExit s (s\<lparr>Watcher := Gone\<rparr>)"

inductive signal_reachable :: "bool \<Rightarrow> 'g signals \<Rightarrow> bool" for forceExit :: bool where
  start: "signal_reachable forceExit signals_init"
| step: "signal_reachable forceExit s \<Longrightarrow> signal_step forceExit s s' \<Longrightarrow> signal_reachable forceExit s'"

section \<open>What holds in every state of a Drain\<close>

fun over :: "'e phase \<Rightarrow> bool" where
  "over Finished = True"
| "over Dying = True"
| "over _ = False"

fun called :: "'e phase \<Rightarrow> bool" where
  "called NotStarted = False"
| "called Started = False"
| "called _ = True"

fun reporting :: "'e phase \<Rightarrow> bool" where
  "reporting Reporting = True"
| "reporting Reported = True"
| "reporting Finished = True"
| "reporting _ = False"

definition open_phase :: "'e phase \<Rightarrow> nat" where
  "open_phase p = (if over p then 0 else 1)"

text \<open>What holds of one goroutine in its phase.\<close>

definition goroutine_inv :: "'e target list \<Rightarrow> bool \<Rightarrow> 'e drain_state \<Rightarrow> nat \<Rightarrow> 'e phase \<Rightarrow> bool" where
  "goroutine_inv targets report s i p \<longleftrightarrow>
     (p = NotStarted \<longleftrightarrow> Spawned s \<le> i) \<and>
     count_list (Calls s) i = (if Shutdown (targets ! i) \<noteq> None \<and> called p then 1 else 0) \<and>
     count_list (map fst (Reports s)) i = (if report \<and> reporting p then 1 else 0) \<and>
     (called p \<and> p \<noteq> Panicking \<and> p \<noteq> Dying \<longrightarrow> Shutdown (targets ! i) \<noteq> None) \<and>
     (p = Panicking \<or> p = Dying \<longrightarrow> Shutdown (targets ! i) = None \<or> may_end (targets ! i) Panics) \<and>
     (\<forall>e. p = Returned e \<longrightarrow> may_end (targets ! i) (Returns e)) \<and>
     (reporting p \<longrightarrow> (\<exists>e. may_end (targets ! i) (Returns e)))"

definition drain_inv :: "'e target list \<Rightarrow> bool \<Rightarrow> 'e drain_state \<Rightarrow> bool" where
  "drain_inv targets report s \<longleftrightarrow>
     length (Phases s) = length targets \<and> Spawned s \<le> length targets \<and>
     Counter s = int (sum_list (map open_phase (Phases s))) \<and>
     (\<forall>i < length targets. goroutine_inv targets report s i (Phases s ! i)) \<and>
     (\<forall>(i, t, e) \<in> set (Reports s). i < length targets \<and> t = targets ! i \<and> may_end t (Returns e)) \<and>
     (\<forall>i \<in> set (Calls s). i < length targets) \<and>
     (MainReturned s \<longrightarrow> Spawned s = length targets \<and> (\<forall>i < length targets. over (Phases s ! i))) \<and>
     (Exited s \<longrightarrow> (\<exists>i < length targets. Phases s ! i = Dying))"

lemma sum_list_update_nat:
  fixes f :: "'b \<Rightarrow> nat"
  assumes "i < length xs"
  shows "sum_list (map f (xs[i := y])) + f (xs ! i) = sum_list (map f xs) + f y"
  using assms
proof (induction xs arbitrary: i)
  case (Cons x xs)
  then show ?case by (cases i) auto
qed simp

lemma sum_list_goto:
  "i < length (Phases s) \<Longrightarrow>
     int (sum_list (map open_phase ((Phases s)[i := p]))) =
       int (sum_list (map open_phase (Phases s))) + int (open_phase p) - int (open_phase (Phases s ! i))"
  using sum_list_update_nat [of i "Phases s" open_phase p] by linarith

lemma sum_list_zero: "sum_list (map open_phase ps) = 0 \<longleftrightarrow> list_all over ps"
  by (induction ps) (simp_all add: open_phase_def)

lemma drain_inv_init: "drain_inv targets report (drain_init targets)"
  by (simp add: drain_inv_def drain_init_def goroutine_inv_def open_phase_def sum_list_replicate)

lemma phase_at_Some: "phase_at s i = Some p \<longleftrightarrow> i < length (Phases s) \<and> Phases s ! i = p"
  by (simp add: phase_at_def)

text \<open>A step of one goroutine leaves the others as they were.\<close>

lemma drain_inv_goto:
  assumes inv: "drain_inv targets report s" and i: "i < length targets"
    and phases: "Phases s' = (Phases s)[i := p]"
    and here: "goroutine_inv targets report s' i p"
    and others: "\<And>j. j \<noteq> i \<Longrightarrow> (Spawned s' \<le> j \<longleftrightarrow> Spawned s \<le> j) \<and> count_list (Calls s') j = count_list (Calls s) j \<and>
        count_list (map fst (Reports s')) j = count_list (map fst (Reports s)) j"
    and spawned: "Spawned s' \<le> length targets" "Spawned s \<le> Spawned s'"
    and counter: "Counter s' = Counter s + int (open_phase p) - int (open_phase (Phases s ! i))"
    and reports: "\<forall>(i, t, e) \<in> set (Reports s'). i < length targets \<and> t = targets ! i \<and> may_end t (Returns e)"
    and calls: "\<forall>i \<in> set (Calls s'). i < length targets"
    and flags: "MainReturned s' = MainReturned s" "Exited s' = Exited s" "\<not> over (Phases s ! i)"
  shows "drain_inv targets report s'"
proof -
  have len: "length (Phases s) = length targets" using inv by (simp add: drain_inv_def)
  have "Counter s' = int (sum_list (map open_phase (Phases s')))"
    using inv i len counter by (simp add: drain_inv_def phases sum_list_goto)
  moreover have "goroutine_inv targets report s' j (Phases s' ! j)" if "j < length targets" for j
  proof (cases "j = i")
    case True
    with here i len show ?thesis by (simp add: phases)
  next
    case False
    with inv that have "goroutine_inv targets report s j (Phases s ! j)" by (simp add: drain_inv_def)
    with False others [of j] show ?thesis by (simp add: phases goroutine_inv_def)
  qed
  moreover have "\<not> MainReturned s" using inv i flags(3) by (auto simp: drain_inv_def)
  moreover have "\<exists>j < length targets. Phases s' ! j = Dying" if ex: "Exited s'"
  proof -
    from inv ex flags obtain j where "j < length targets" "Phases s ! j = Dying" by (auto simp: drain_inv_def)
    with flags(3) show ?thesis by (cases "j = i") (auto simp: phases)
  qed
  ultimately show ?thesis using spawned reports calls flags len by (simp add: drain_inv_def phases)
qed

lemma goroutine_inv_flags [simp]:
  "goroutine_inv targets report (s\<lparr>Exited := b\<rparr>) i p = goroutine_inv targets report s i p"
  "goroutine_inv targets report (s\<lparr>MainReturned := b\<rparr>) i p = goroutine_inv targets report s i p"
  by (simp_all add: goroutine_inv_def)

lemma count_list_append: "count_list (xs @ ys) x = count_list xs x + count_list ys x"
  by (induction xs) simp_all

lemma drain_inv_do:
  assumes inv: "drain_inv targets report s" and do: "drain_do targets report a s = Some s'"
  shows "drain_inv targets report s'"
proof -
  have len: "length (Phases s) = length targets" and all: "\<And>i. i < length targets \<Longrightarrow> goroutine_inv targets report s i (Phases s ! i)"
    using inv by (simp_all add: drain_inv_def)
  have logs: "\<forall>(i, t, e) \<in> set (Reports s). i < length targets \<and> t = targets ! i \<and> may_end t (Returns e)"
    "\<forall>i \<in> set (Calls s). i < length targets" "Spawned s \<le> length targets"
    using inv by (simp_all add: drain_inv_def)
  note simps = goto_def goroutine_inv_def open_phase_def phase_at_Some count_list_append
  show ?thesis
  proof (cases a)
    case Spawn
    with do have n: "Spawned s < length targets" "s' = goto (Spawned s) Started (s\<lparr>Spawned := Suc (Spawned s)\<rparr>)"
      by (auto split: if_splits)
    have p: "Phases s ! Spawned s = NotStarted" using all [OF n(1)] by (simp add: goroutine_inv_def)
    show ?thesis
      by (rule drain_inv_goto [OF inv n(1), of s' Started])
        (use logs all [OF n(1)] p n in \<open>auto simp: simps\<close>)
  next
    case (Call i)
    with do have n: "i < length targets" and p: "Phases s ! i = Started" by (auto simp: phase_at_Some len split: if_splits)
    show ?thesis
    proof (cases "Shutdown (targets ! i)")
      case None
      with do Call n p len have s': "s' = goto i Panicking s" by (simp add: phase_at_def)
      show ?thesis
        by (rule drain_inv_goto [OF inv n, of s' Panicking])
          (use logs all [OF n] p n s' None in \<open>auto simp: simps\<close>)
    next
      case (Some rs)
      with do Call n p len have s': "s' = goto i Running (s\<lparr>Calls := Calls s @ [i]\<rparr>)" by (simp add: phase_at_def)
      show ?thesis
        by (rule drain_inv_goto [OF inv n, of s' Running])
          (use logs all [OF n] p n s' Some in \<open>auto simp: simps\<close>)
    qed
  next
    case (Return i r)
    with do have n: "i < length targets" and p: "Phases s ! i = Running" and r: "may_end (targets ! i) r"
      by (auto simp: phase_at_Some len split: if_splits)
    show ?thesis
    proof (cases r)
      case (Returns e)
      with do Return n p len r have s': "s' = goto i (Returned e) s" by (simp add: phase_at_def)
      show ?thesis
        by (rule drain_inv_goto [OF inv n, of s' "Returned e"])
          (use logs all [OF n] p n s' r Returns in \<open>auto simp: simps\<close>)
    next
      case Panics
      with do Return n p len r have s': "s' = goto i Panicking s" by (simp add: phase_at_def)
      show ?thesis
        by (rule drain_inv_goto [OF inv n, of s' Panicking])
          (use logs all [OF n] p n s' r Panics in \<open>auto simp: simps\<close>)
    qed
  next
    case (Report i)
    with do obtain e where n: "i < length targets" and p: "Phases s ! i = Returned e"
      by (auto simp: phase_at_Some len split: option.splits phase.splits)
    show ?thesis
    proof (cases report)
      case True
      with do Report n p len have s': "s' = goto i Reporting (s\<lparr>Reports := Reports s @ [(i, targets ! i, e)]\<rparr>)"
        by (simp add: phase_at_def)
      show ?thesis
        by (rule drain_inv_goto [OF inv n, of s' Reporting])
          (use logs all [OF n] p n s' True in \<open>auto simp: simps\<close>)
    next
      case False
      with do Report n p len have s': "s' = goto i Reported s" by (simp add: phase_at_def)
      show ?thesis
        by (rule drain_inv_goto [OF inv n, of s' Reported])
          (use logs all [OF n] p n s' False in \<open>auto simp: simps\<close>)
    qed
  next
    case (ReportReturns i)
    with do have n: "i < length targets" and p: "Phases s ! i = Reporting" and s': "s' = goto i Reported s"
      by (auto simp: phase_at_Some len split: if_splits)
    show ?thesis
      by (rule drain_inv_goto [OF inv n, of s' Reported])
        (use logs all [OF n] p n s' in \<open>auto simp: simps\<close>)
  next
    case (Done i)
    with do consider
        "i < length targets" "Phases s ! i = Reported" "s' = goto i Finished (s\<lparr>Counter := Counter s - 1\<rparr>)"
      | "i < length targets" "Phases s ! i = Panicking" "s' = goto i Dying (s\<lparr>Counter := Counter s - 1\<rparr>)"
      by (auto simp: phase_at_Some len split: if_splits)
    then show ?thesis
    proof cases
      case 1
      show ?thesis
        by (rule drain_inv_goto [OF inv 1(1), of s' Finished])
          (use logs all [OF 1(1)] 1 in \<open>auto simp: simps\<close>)
    next
      case 2
      show ?thesis
        by (rule drain_inv_goto [OF inv 2(1), of s' Dying])
          (use logs all [OF 2(1)] 2 in \<open>auto simp: simps\<close>)
    qed
  next
    case (Exit i)
    with do have n: "i < length targets" "Phases s ! i = Dying" and s': "s' = s\<lparr>Exited := True\<rparr>"
      by (auto simp: phase_at_Some len split: if_splits)
    have "\<exists>i < length targets. Phases s ! i = Dying" using n by blast
    with inv show ?thesis unfolding s' drain_inv_def by simp
  next
    case Wait
    with do have s': "s' = s\<lparr>MainReturned := True\<rparr>" "Spawned s = length targets" "Counter s = 0" by (auto split: if_splits)
    with inv have "sum_list (map open_phase (Phases s)) = 0" by (simp add: drain_inv_def)
    then have "list_all over (Phases s)" by (simp only: sum_list_zero)
    then have "\<forall>i < length targets. over (Phases s ! i)" by (simp add: list_all_length len)
    with inv s'(2) show ?thesis unfolding s'(1) drain_inv_def by simp
  qed
qed

section \<open>A Drain ends\<close>

fun weight :: "'e phase \<Rightarrow> nat" where
  "weight NotStarted = 6"
| "weight Started = 5"
| "weight Running = 4"
| "weight (Returned e) = 3"
| "weight Reporting = 2"
| "weight Reported = 1"
| "weight Finished = 0"
| "weight Panicking = 1"
| "weight Dying = 0"

definition drain_measure :: "'e drain_state \<Rightarrow> nat" where
  "drain_measure s =
     sum_list (map weight (Phases s)) + (if MainReturned s then 0 else 1) + (if Exited s then 0 else 1)"

lemma drain_measure_goto:
  assumes "i < length (Phases s)" "weight p < weight (Phases s ! i)" "Phases s' = (Phases s)[i := p]"
    "MainReturned s' = MainReturned s" "Exited s' = Exited s"
  shows "drain_measure s' < drain_measure s"
  using sum_list_update_nat [OF assms(1), of weight p] assms by (simp add: drain_measure_def)

lemma drain_measure_step:
  assumes inv: "drain_inv targets report s" and step: "drain_step targets report a s = Some s'"
  shows "drain_measure s' < drain_measure s"
proof -
  from step have do: "drain_do targets report a s = Some s'" and live: "\<not> Exited s" by (auto simp: drain_step_def split: if_splits)
  have len: "length (Phases s) = length targets" using inv by (simp add: drain_inv_def)
  have new: "Phases s ! i = NotStarted \<longleftrightarrow> Spawned s \<le> i" if "i < length targets" for i
    using inv that by (simp add: drain_inv_def goroutine_inv_def)
  note goto = drain_measure_goto [where s = s and s' = s']
  show ?thesis
  proof (cases a)
    case Spawn
    with do new [of "Spawned s"] show ?thesis
      by (intro goto [of "Spawned s" Started]) (auto simp: goto_def len split: if_splits)
  next
    case (Call i)
    show ?thesis
    proof (cases "Shutdown (targets ! i)")
      case None
      with do Call show ?thesis by (intro goto [of i Panicking]) (auto simp: goto_def phase_at_Some len split: if_splits)
    next
      case (Some rs)
      with do Call show ?thesis by (intro goto [of i Running]) (auto simp: goto_def phase_at_Some len split: if_splits)
    qed
  next
    case (Return i r)
    show ?thesis
    proof (cases r)
      case (Returns e)
      with do Return show ?thesis by (intro goto [of i "Returned e"]) (auto simp: goto_def phase_at_Some len split: if_splits)
    next
      case Panics
      with do Return show ?thesis by (intro goto [of i Panicking]) (auto simp: goto_def phase_at_Some len split: if_splits)
    qed
  next
    case (Report i)
    with do obtain e where p: "phase_at s i = Some (Returned e)" by (auto split: option.splits phase.splits)
    with do Report show ?thesis
      by (intro goto [of i "if report then Reporting else Reported"]) (auto simp: goto_def phase_at_Some len split: if_splits)
  next
    case (ReportReturns i)
    with do show ?thesis by (intro goto [of i Reported]) (auto simp: goto_def phase_at_Some len split: if_splits)
  next
    case (Done i)
    with do show ?thesis
      by (intro goto [of i "if Phases s ! i = Reported then Finished else Dying"])
        (auto simp: goto_def phase_at_Some len split: if_splits)
  next
    case (Exit i)
    with do live show ?thesis by (auto simp: drain_measure_def split: if_splits)
  next
    case Wait
    with do show ?thesis by (auto simp: drain_measure_def split: if_splits)
  qed
qed

text \<open>A drain is a machine that ends.\<close>

definition drain_next :: "'e target list \<Rightarrow> bool \<Rightarrow> 'e drain_state \<Rightarrow> 'e drain_state \<Rightarrow> bool" where
  "drain_next targets report s s' \<longleftrightarrow> (\<exists>a. drain_step targets report a s = Some s')"

interpretation drain: ending_machine "\<lambda>s. s = drain_init targets" "drain_next targets report" "drain_inv targets report"
  drain_measure for targets report
proof
  show "drain_inv targets report s" if "s = drain_init targets" for s using that drain_inv_init by simp
  show "drain_inv targets report s'" if "drain_next targets report s s'" "drain_inv targets report s" for s s'
    using that drain_inv_do by (auto simp: drain_next_def drain_step_def split: if_splits)
  show "drain_measure s' < drain_measure s" if "drain_inv targets report s" "drain_next targets report s s'" for s s'
    using that drain_measure_step by (auto simp: drain_next_def)
qed

lemma drain_run_steps: "drain_run targets report as s = Some s' \<Longrightarrow> (drain_next targets report ^^ length as) s s'"
proof (induction as arbitrary: s)
  case (Cons a as)
  then obtain t where "drain_step targets report a s = Some t" "drain_run targets report as t = Some s'"
    by (auto split: option.splits)
  then have "drain_next targets report s t" "(drain_next targets report ^^ length as) t s'"
    using Cons.IH [of t] unfolding drain_next_def [of _ _ s] by blast+
  then show ?case unfolding list.size add_0_right add_Suc_right by (rule relpowp_Suc_I2)
qed simp

lemma drain_inv_reached: "drain_run targets report as (drain_init targets) = Some s \<Longrightarrow> drain_inv targets report s"
  using drain.reachable_inv [OF refl relpowp_imp_rtranclp] drain_run_steps by blast

lemma drain_run_length:
  "drain_run targets report as (drain_init targets) = Some s \<Longrightarrow> length as + drain_measure s \<le> drain_measure (drain_init targets)"
  by (rule drain.run_length [OF drain_run_steps drain_inv_init])

text \<open>Only a Shutdown that never ends stops its goroutine.\<close>

lemma drain_stuck:
  assumes inv: "drain_inv targets report s" and live: "\<not> Exited s"
    and stuck: "\<And>a. drain_step targets report a s = None"
  shows "\<forall>i < length targets. Phases s ! i = Finished \<or> Phases s ! i = Running \<and> (\<forall>r. \<not> may_end (targets ! i) r)"
    and "MainReturned s \<longleftrightarrow> (\<forall>i < length targets. Phases s ! i = Finished)"
proof -
  have len: "length (Phases s) = length targets" using inv by (simp add: drain_inv_def)
  have no: "drain_do targets report a s = None" for a using stuck [of a] live by (simp add: drain_step_def)
  from no [of Spawn] have spawned: "Spawned s = length targets" using inv by (simp add: drain_inv_def split: if_splits)
  show here: "\<forall>i < length targets. Phases s ! i = Finished \<or> Phases s ! i = Running \<and> (\<forall>r. \<not> may_end (targets ! i) r)"
  proof (intro allI impI)
    fix i assume i: "i < length targets"
    then have g: "goroutine_inv targets report s i (Phases s ! i)" using inv by (simp add: drain_inv_def)
    have at: "phase_at s i = Some (Phases s ! i)" using i len by (simp add: phase_at_def)
    show "Phases s ! i = Finished \<or> Phases s ! i = Running \<and> (\<forall>r. \<not> may_end (targets ! i) r)"
    proof (cases "Phases s ! i")
      case NotStarted
      with g i spawned show ?thesis by (simp add: goroutine_inv_def)
    next
      case Started
      with no [of "Call i"] at show ?thesis by (simp split: option.splits)
    next
      case Running
      have "\<not> may_end (targets ! i) r" for r using no [of "Return i r"] at Running by (cases r) auto
      with Running show ?thesis by simp
    next
      case (Returned e)
      with no [of "Report i"] at show ?thesis by (simp split: if_splits)
    next
      case Reporting
      with no [of "ReportReturns i"] at show ?thesis by simp
    next
      case Reported
      with no [of "Done i"] at show ?thesis by simp
    next
      case Panicking
      with no [of "Done i"] at show ?thesis by simp
    next
      case Dying
      with no [of "Exit i"] at show ?thesis by simp
    qed simp
  qed
  show "MainReturned s \<longleftrightarrow> (\<forall>i < length targets. Phases s ! i = Finished)"
  proof
    assume "MainReturned s"
    then have "\<forall>i < length targets. over (Phases s ! i)" using inv by (simp add: drain_inv_def)
    with here show "\<forall>i < length targets. Phases s ! i = Finished" by fastforce
  next
    assume "\<forall>i < length targets. Phases s ! i = Finished"
    then have "list_all over (Phases s)" by (simp add: list_all_length len)
    then have "sum_list (map open_phase (Phases s)) = 0" by (simp only: sum_list_zero)
    then have "Counter s = 0" using inv by (simp add: drain_inv_def)
    with no [of Wait] spawned show "MainReturned s" by (simp split: if_splits)
  qed
qed


definition demo_targets :: "string target list" where
  "demo_targets = [\<lparr>TargetName = ''a'', Shutdown = Some [Returns None]\<rparr>,
     \<lparr>TargetName = ''b'', Shutdown = Some [Returns (Some ''shutdown failed'')]\<rparr>]"

definition demo_schedule :: "string action list" where
  "demo_schedule = [Spawn, Call 0, Spawn, Call 1, Return 1 (Returns (Some ''shutdown failed'')), Report 1, Return 0 (Returns None),
     Report 0, ReportReturns 1, Done 1, ReportReturns 0, Done 0, Wait]"


text \<open>C13: a Drain always ends: a run of n targets has at most 6 n + 2 steps under any schedule, and when no step is left and the
  process lives, every target has been shut down and reported except those whose Shutdown never ends, and Drain has returned
  exactly if there is no such target: a hung or failing target neither blocks nor skips another, and only a hung one keeps Drain.
  With functions that return, Drain returns, and it cannot leave anything undone.
\<close>
theorem Drain_ends:
  assumes "drain_run targets report as (drain_init targets) = Some s"
  shows "length as \<le> 6 * length targets + 2 \<and>
     ((\<forall>a. drain_step targets report a s = None) \<and> \<not> Exited s \<longrightarrow>
        (\<forall>i < length targets. (\<exists>r. may_end (targets ! i) r) \<or> Shutdown (targets ! i) = None \<longrightarrow>
           Phases s ! i = Finished \<and> count_list (Calls s) i = 1 \<and> (report \<longrightarrow> count_list (map fst (Reports s)) i = 1)) \<and>
        (MainReturned s \<longleftrightarrow> (\<forall>i < length targets. \<exists>r. may_end (targets ! i) r))) \<and>
     (Exited s \<longrightarrow> (\<exists>i < length targets. Shutdown (targets ! i) = None \<or> may_end (targets ! i) Panics))"
proof -
  have inv: "drain_inv targets report s" by (rule drain_inv_reached [OF assms])
  then have g: "\<And>i. i < length targets \<Longrightarrow> goroutine_inv targets report s i (Phases s ! i)" by (simp add: drain_inv_def)
  have "drain_measure (drain_init targets) \<le> 6 * length targets + 2"
    by (simp add: drain_measure_def drain_init_def sum_list_replicate)
  with drain_run_length [OF assms] have len: "length as \<le> 6 * length targets + 2" by simp
  have crash: "\<exists>i < length targets. Shutdown (targets ! i) = None \<or> may_end (targets ! i) Panics" if "Exited s"
  proof -
    from inv that obtain i where "i < length targets" "Phases s ! i = Dying" by (auto simp: drain_inv_def)
    with g [of i] show ?thesis by (intro exI [of _ i]) (simp add: goroutine_inv_def)
  qed
  have stuck: "(\<forall>i < length targets. (\<exists>r. may_end (targets ! i) r) \<or> Shutdown (targets ! i) = None \<longrightarrow>
           Phases s ! i = Finished \<and> count_list (Calls s) i = 1 \<and> (report \<longrightarrow> count_list (map fst (Reports s)) i = 1)) \<and>
        (MainReturned s \<longleftrightarrow> (\<forall>i < length targets. \<exists>r. may_end (targets ! i) r))"
    if none: "\<forall>a. drain_step targets report a s = None" "\<not> Exited s"
  proof -
    note stuck = drain_stuck [OF inv none(2) none(1) [rule_format]]
    have fin: "Phases s ! i = Finished \<and> count_list (Calls s) i = 1 \<and> (report \<longrightarrow> count_list (map fst (Reports s)) i = 1)"
      if i: "i < length targets" and e: "(\<exists>r. may_end (targets ! i) r) \<or> Shutdown (targets ! i) = None" for i
    proof -
      from stuck(1) i e g [OF i] have "Phases s ! i = Finished" by (auto simp: goroutine_inv_def)
      with g [OF i] show ?thesis by (simp add: goroutine_inv_def)
    qed
    have "\<exists>r. may_end (targets ! i) r" if fin: "Phases s ! i = Finished" and i: "i < length targets" for i
      using g [OF i] fin by (auto simp: goroutine_inv_def)
    with stuck fin show ?thesis by blast
  qed
  from len stuck crash show ?thesis by blast
qed

lemma Drain_ends_witness:
  "case drain_run demo_targets True demo_schedule (drain_init demo_targets) of
     Some s \<Rightarrow> MainReturned s \<and> \<not> Exited s \<and> length demo_schedule \<le> 14 | None \<Rightarrow> False"
proof -
  have "case drain_run demo_targets True demo_schedule (drain_init demo_targets) of
      Some s \<Rightarrow> MainReturned s | None \<Rightarrow> False" by code_simp
  then obtain s where s: "drain_run demo_targets True demo_schedule (drain_init demo_targets) = Some s" "MainReturned s"
    by (auto split: option.splits)
  have "list_all (\<lambda>t. \<not> (Shutdown t = None \<or> may_end t Panics)) demo_targets" by (simp add: demo_targets_def may_end_def)
  then have "\<not> (\<exists>i < length demo_targets. Shutdown (demo_targets ! i) = None \<or> may_end (demo_targets ! i) Panics)"
    unfolding list_all_length by blast
  with Drain_ends [OF s(1)] s show ?thesis by (auto simp: demo_targets_def)
qed

section \<open>The second signal\<close>

inductive_cases signal_stepE: "signal_step forceExit s s'"

fun first_signal :: "'g waiter \<Rightarrow> 'g list" where
  "first_signal Waiting = []"
| "first_signal (Received r) = (case r of None \<Rightarrow> [] | Some g \<Rightarrow> [g])"
| "first_signal (Answered r) = (case r of None \<Rightarrow> [] | Some g \<Rightarrow> [g])"

fun second_signal :: "'g watcher \<Rightarrow> 'g list" where
  "second_signal (Called g) = [g]"
| "second_signal _ = []"

definition armed :: "'g waiter \<Rightarrow> bool" where
  "armed w \<longleftrightarrow> (\<exists>r. w = Answered r)"

lemma armed_simps [simp]: "\<not> armed Waiting" "\<not> armed (Received r)" "armed (Answered r)"
  by (simp_all add: armed_def)

definition signal_inv :: "bool \<Rightarrow> 'g signals \<Rightarrow> bool" where
  "signal_inv forceExit s \<longleftrightarrow>
     Delivered s = first_signal (Main s) @ Forced s @ Queue s \<and>
     Forced s = second_signal (Watcher s) \<and>
     (Watcher s \<noteq> Unarmed \<longleftrightarrow> forceExit \<and> armed (Main s)) \<and>
     (Main s = Received None \<or> Main s = Answered None \<longrightarrow> Closed s \<and> Delivered s = []) \<and>
     (Watcher s = Gone \<longrightarrow> Closed s \<and> Queue s = [])"

lemma signal_inv_step: "signal_step forceExit s s' \<Longrightarrow> signal_inv forceExit s \<Longrightarrow> signal_inv forceExit s'"
  by (erule signal_stepE) (auto simp: signal_inv_def split: option.splits)

interpretation signal: machine "\<lambda>s. s = signals_init" "signal_step forceExit" "signal_inv forceExit" for forceExit
  by unfold_locales (simp_all add: signal_inv_step, simp add: signal_inv_def signals_init_def)

lemma signal_reachable_steps: "signal_reachable forceExit s \<Longrightarrow> rtranclp (signal_step forceExit) signals_init s"
  by (induction rule: signal_reachable.induct) auto

lemma signal_inv_reachable: "signal_reachable forceExit s \<Longrightarrow> signal_inv forceExit s"
  using signal.reachable_inv [OF refl] signal_reachable_steps by blast

text \<open>The steps the two goroutines have left.\<close>

definition signal_left :: "'g signals \<Rightarrow> nat" where
  "signal_left s = (case Main s of Waiting \<Rightarrow> 2 | Received _ \<Rightarrow> 1 | Answered _ \<Rightarrow> 0) +
     (case Watcher s of Unarmed \<Rightarrow> 2 | Watching \<Rightarrow> 1 | _ \<Rightarrow> 0)"

lemma signal_left_step:
  "signal_step forceExit s s' \<Longrightarrow> signal_inv forceExit s \<Longrightarrow> Delivered s' = Delivered s \<Longrightarrow> Closed s' = Closed s \<Longrightarrow>
     signal_left s' < signal_left s"
  by (erule signal_stepE) (auto simp: signal_left_def signal_inv_def)

text \<open>The steps that are neither a delivery nor a closing form a machine that ends.\<close>

definition signal_own :: "bool \<Rightarrow> 'g signals \<Rightarrow> 'g signals \<Rightarrow> bool" where
  "signal_own forceExit s s' \<longleftrightarrow> signal_step forceExit s s' \<and> Delivered s' = Delivered s \<and> Closed s' = Closed s"

interpretation own: ending_machine "signal_inv forceExit" "signal_own forceExit" "signal_inv forceExit" signal_left for forceExit
  by unfold_locales (auto simp: signal_own_def intro: signal_inv_step signal_left_step)

text \<open>C30: WaitForSignal returns the first signal delivered, or nil if the channel is closed without one, and forceExit is called at
  most once, only after the watcher was armed, and only with the second signal delivered; with a nil forceExit never.
\<close>
theorem forceExit_second_only:
  assumes "signal_reachable forceExit s"
  shows "(\<forall>r. Main s = Answered r \<longrightarrow> (case r of Some g \<Rightarrow> take 1 (Delivered s) = [g] | None \<Rightarrow> Closed s \<and> Delivered s = [])) \<and>
     length (Forced s) \<le> 1 \<and> (\<not> forceExit \<longrightarrow> Forced s = []) \<and>
     (\<forall>g. Forced s = [g] \<longrightarrow> (\<exists>first rest. Main s = Answered (Some first) \<and> Delivered s = first # g # rest))"
proof -
  have inv: "signal_inv forceExit s" by (rule signal_inv_reachable [OF assms])
  have "length (Forced s) \<le> 1" using inv by (cases "Watcher s") (simp_all add: signal_inv_def)
  moreover have "Forced s = []" if "\<not> forceExit" using inv that by (simp add: signal_inv_def)
  moreover have "\<exists>first rest. Main s = Answered (Some first) \<and> Delivered s = first # g # rest" if g: "Forced s = [g]" for g
  proof -
    have "Watcher s \<noteq> Unarmed" using inv g by (auto simp: signal_inv_def)
    then obtain r where r: "Main s = Answered r" using inv by (auto simp: signal_inv_def armed_def)
    with inv g obtain first where "r = Some first" by (cases r) (auto simp: signal_inv_def)
    with r inv g show ?thesis by (simp add: signal_inv_def)
  qed
  moreover have "case r of Some g \<Rightarrow> take 1 (Delivered s) = [g] | None \<Rightarrow> Closed s \<and> Delivered s = []" if "Main s = Answered r" for r
    using inv that by (auto simp: signal_inv_def split: option.split)
  ultimately show ?thesis by blast
qed

text \<open>C31: a shutdown that hangs cannot hold off a repeated signal: once two signals are delivered, the two goroutines have at most four
  steps of their own, none of which a delivery takes away, and when they have none left, forceExit was called, once, with the
  second signal, and WaitForSignal returned the first.
\<close>
theorem second_signal_forces:
  assumes "signal_reachable True s" "2 \<le> length (Delivered s)"
  shows "signal_left s \<le> 4 \<and>
     (\<forall>n s'. (signal_own True ^^ n) s s' \<longrightarrow> n \<le> 4) \<and>
     (\<forall>s'. signal_step True s s' \<longrightarrow> signal_left s' \<le> signal_left s) \<and>
     ((\<exists>s'. signal_own True s s') \<or>
        Main s = Answered (Some (Delivered s ! 0)) \<and> Forced s = [Delivered s ! 1])"
proof -
  have inv: "signal_inv True s" by (rule signal_inv_reachable [OF assms(1)])
  have bound: "signal_left s \<le> 4" by (simp add: signal_left_def split: waiter.split watcher.split)
  have le: "signal_left s' \<le> signal_left s" if step: "signal_step True s s'" for s'
    using step signal_left_step [OF step inv] by (cases rule: signal_step.cases) (simp_all add: signal_left_def)
  have progress: "(\<exists>s'. signal_own True s s') \<or>
      Main s = Answered (Some (Delivered s ! 0)) \<and> Forced s = [Delivered s ! 1]"
  proof (cases "Main s")
    case Waiting
    with inv assms(2) obtain g q where "Queue s = g # q"
      by (cases "Queue s"; cases "Watcher s") (auto simp: signal_inv_def)
    from receive [OF Waiting this, of True] show ?thesis
      by (intro disjI1 exI [of _ "s\<lparr>Queue := q, Main := Received (Some g)\<rparr>"]) (simp add: signal_own_def)
  next
    case (Received r)
    from arm [OF Received, of True] show ?thesis
      by (intro disjI1 exI [of _ "s\<lparr>Main := Answered r, Watcher := Watching\<rparr>"]) (simp add: signal_own_def)
  next
    case (Answered r)
    with inv assms(2) obtain g where r: "r = Some g" by (cases r) (auto simp: signal_inv_def)
    from inv Answered have "Watcher s \<noteq> Unarmed" by (simp add: signal_inv_def)
    then show ?thesis
    proof (cases "Watcher s")
      case Watching
      with inv assms(2) Answered r obtain g' q where "Queue s = g' # q"
        by (cases "Queue s") (auto simp: signal_inv_def)
      from second [OF Watching this, of True] show ?thesis
        by (intro disjI1 exI [of _ "s\<lparr>Queue := q, Watcher := Called g', Forced := Forced s @ [g']\<rparr>"]) (simp add: signal_own_def)
    next
      case Gone
      with inv assms(2) Answered r show ?thesis by (simp add: signal_inv_def)
    next
      case (Called g')
      with inv Answered r show ?thesis by (simp add: signal_inv_def)
    qed simp
  qed
  have "n \<le> 4" if "(signal_own True ^^ n) s s'" for n s'
    using own.run_length [OF that inv] bound by simp
  with bound le progress show ?thesis by blast
qed

text \<open>Two signals, the second before the caller has armed the watcher.\<close>

definition demo_signals :: "string signals" where
  "demo_signals = \<lparr>Queue = [], Closed = False, Delivered = [''interrupt'', ''kill''], Main = Answered (Some ''interrupt''),
     Watcher = Called ''kill'', Forced = [''kill'']\<rparr>"

lemma demo_signals_reachable: "signal_reachable True demo_signals"
proof -
  let ?s1 = "signals_init\<lparr>Queue := [''interrupt''], Delivered := [''interrupt'']\<rparr>"
  let ?s2 = "?s1\<lparr>Queue := [], Main := Received (Some ''interrupt'')\<rparr>"
  let ?s3 = "?s2\<lparr>Queue := [''kill''], Delivered := [''interrupt'', ''kill'']\<rparr>"
  let ?s4 = "?s3\<lparr>Main := Answered (Some ''interrupt''), Watcher := Watching\<rparr>"
  have "signal_reachable True ?s1"
    using signal_reachable.step [OF signal_reachable.start deliver [of signals_init True "''interrupt''"]]
    by (simp add: signals_init_def)
  from signal_reachable.step [OF this receive [of ?s1 "''interrupt''" "[]"]]
  have "signal_reachable True ?s2" by (simp add: signals_init_def)
  from signal_reachable.step [OF this deliver [of ?s2 True "''kill''"]]
  have "signal_reachable True ?s3" by (simp add: signals_init_def)
  from signal_reachable.step [OF this arm [of ?s3 "Some ''interrupt''" True]]
  have "signal_reachable True ?s4" by (simp add: signals_init_def)
  from signal_reachable.step [OF this second [of ?s4 "''kill''" "[]"]]
  show ?thesis by (simp add: signals_init_def demo_signals_def)
qed

lemma forceExit_second_only_witness:
  "\<exists>first rest. Main demo_signals = Answered (Some first) \<and> Delivered demo_signals = first # ''kill'' # rest"
  using forceExit_second_only [OF demo_signals_reachable] by (simp add: demo_signals_def)

lemma second_signal_forces_witness:
  "signal_left demo_signals = 0 \<and> Forced demo_signals = [Delivered demo_signals ! 1]"
proof -
  have left: "signal_left demo_signals = 0" by (simp add: signal_left_def demo_signals_def)
  have "2 \<le> length (Delivered demo_signals)" by (simp add: demo_signals_def)
  from second_signal_forces [OF demo_signals_reachable this] left own.decreases [OF signal_inv_reachable [OF demo_signals_reachable]]
  show ?thesis by fastforce
qed

text \<open>A nil Shutdown can release the caller before the process ends: its deferred Done runs first.\<close>

lemma nil_Shutdown_releases_Drain:
  "case drain_run [\<lparr>TargetName = ''a'', Shutdown = None\<rparr> :: string target] True [Spawn, Call 0, Done 0, Wait]
       (drain_init [\<lparr>TargetName = ''a'', Shutdown = None\<rparr>]) of
     Some s \<Rightarrow> MainReturned s \<and> \<not> Exited s \<and> Reports s = [] \<and> Calls s = [] | None \<Rightarrow> False"
  by code_simp

end
