(* ===== verification/Testkit.thy ===== *)
theory Testkit
  imports Go_Json
begin

text \<open>
  Package \<open>testkit\<close>: \<open>LoadJSON\<close> over a file system, \<open>RunFixtures\<close>, and the guard proofs; and package
  \<open>synthetictraffic\<close>: the identity of a synthetic run.
\<close>

section \<open>Fixtures\<close>

text \<open>
  A file system answers \<open>Glob\<close> and opens files; the log records what is opened and closed. A file is its content and what
  its \<open>Close\<close> returns; the fixture type is a zero value and the setter of its fields.
\<close>

record 'e fixture_file =
  FixtureBytes :: string
  CloseResult :: "'e option"

record 'e fixture_fs =
  Glob :: "string \<Rightarrow> 'e + string list"
  OpenFile :: "string \<Rightarrow> 'e + 'e fixture_file"

datatype 'e load_error =
    GlobFixtures 'e
  | OpenFixture string 'e
  | DecodeFixture string
  | CloseFixture string 'e

datatype fs_event = Opened string | ClosedFile string

fun load_matches ::
  "'e fixture_fs \<Rightarrow> (string \<times> 'a setter) list \<Rightarrow> 'a \<Rightarrow> string list \<Rightarrow> 'a list \<Rightarrow> fs_event list
   \<Rightarrow> ('e load_error + 'a list) \<times> fs_event list" where
  "load_matches files fds zero [] fixtures log = (Inr fixtures, log)"
| "load_matches files fds zero (match # matches) fixtures log =
     (case OpenFile files match of
        Inl err \<Rightarrow> (Inl (OpenFixture match err), log)
      | Inr file \<Rightarrow>
          (case Decode_into (set_struct True fds) (FixtureBytes file) zero of
             (fixture, decoded) \<Rightarrow>
               let log' = log @ [Opened match, ClosedFile match] in
               if \<not> decoded then (Inl (DecodeFixture match), log')
               else (case CloseResult file of
                   Some err \<Rightarrow> (Inl (CloseFixture match err), log')
                 | None \<Rightarrow> load_matches files fds zero matches (fixtures @ [fixture]) log')))"

definition LoadJSON ::
  "'e fixture_fs \<Rightarrow> (string \<times> 'a setter) list \<Rightarrow> 'a \<Rightarrow> string \<Rightarrow> ('e load_error + 'a list) \<times> fs_event list" where
  "LoadJSON files fds zero pattern =
     (case Glob files pattern of
        Inl err \<Rightarrow> (Inl (GlobFixtures err), [])
      | Inr matches \<Rightarrow> load_matches files fds zero (sort matches) [] [])"

text \<open>Every fixture is a named subtest, in order; \<open>t.Run\<close> acts on a world.\<close>

definition RunFixtures :: "(string \<Rightarrow> 'a \<Rightarrow> 'w \<Rightarrow> 'w) \<Rightarrow> ('a \<Rightarrow> string) \<Rightarrow> 'a list \<Rightarrow> 'w \<Rightarrow> 'w" where
  "RunFixtures t_Run fixture_name fixtures w = foldl (\<lambda>w fixture. t_Run (fixture_name fixture) fixture w) w fixtures"

section \<open>Guard proofs\<close>

record guard_mutation =
  guardsDisabled :: bool

definition GuardsDisabled :: "guard_mutation \<Rightarrow> bool" where "GuardsDisabled m = guardsDisabled m"

datatype 'e guard_error = DeletedGuard | WrongReason 'e

definition CheckGuard :: "(guard_mutation \<Rightarrow> 'w \<Rightarrow> 'e option \<times> 'w) \<Rightarrow> 'w \<Rightarrow> 'e guard_error option \<times> 'w" where
  "CheckGuard runUnsafe w =
     (case runUnsafe \<lparr>guardsDisabled = False\<rparr> w of
        (None, w1) \<Rightarrow> (Some DeletedGuard, w1)
      | (Some _, w1) \<Rightarrow>
          (case runUnsafe \<lparr>guardsDisabled = True\<rparr> w1 of
             (Some err, w2) \<Rightarrow> (Some (WrongReason err), w2)
           | (None, w2) \<Rightarrow> (None, w2)))"

text \<open>\<open>t.Fatal\<close> is a step of the world.\<close>

definition ProveGuard :: "('e guard_error \<Rightarrow> 'w \<Rightarrow> 'w) \<Rightarrow> (guard_mutation \<Rightarrow> 'w \<Rightarrow> 'e option \<times> 'w) \<Rightarrow> 'w \<Rightarrow> 'w" where
  "ProveGuard t_Fatal runUnsafe w = (case CheckGuard runUnsafe w of (Some err, w1) \<Rightarrow> t_Fatal err w1 | (None, w1) \<Rightarrow> w1)"

section \<open>Synthetic traffic\<close>

record traffic_input =
  Tool :: string
  ToolVersion :: string
  Realm :: string
  Site :: string
  Environment :: string
  Surface :: string
  RunID :: string
  Owner :: string

record traffic_identity =
  TrafficClass :: string
  IdentityRunID :: string
  UserAgent :: string
  Headers :: "string \<Rightarrow> string option"

definition traffic_product :: string where "traffic_product = ''FulcrumInternal''"
definition contactURL :: string where "contactURL = ''https://fulcrum-labs.com/ops/monitoring''"
definition defaultOwner :: string where "defaultOwner = ''olympus''"
definition trafficClass :: string where "trafficClass = ''synthetic''"

definition traffic_New :: "traffic_input \<Rightarrow> traffic_identity" where
  "traffic_New input =
     (let owner = (if Owner input = [] then defaultOwner else Owner input);
          agent = traffic_product @ ''/'' @ Tool input @ ''/'' @ ToolVersion input @ '' (+'' @ contactURL @ ''; owner='' @ owner
            @ ''; realm='' @ Realm input @ ''; site='' @ Site input @ ''; env='' @ Environment input
            @ ''; surface='' @ Surface input @ '')''
      in \<lparr>TrafficClass = trafficClass, IdentityRunID = RunID input, UserAgent = agent,
           Headers = [''X-Fulcrum-Internal-Tool'' \<mapsto> Tool input, ''X-Fulcrum-Traffic-Class'' \<mapsto> trafficClass,
             ''X-Fulcrum-Monitor-Site'' \<mapsto> Site input, ''X-Fulcrum-Monitor-Env'' \<mapsto> Environment input,
             ''X-Fulcrum-Monitor-Surface'' \<mapsto> Surface input, ''X-Fulcrum-Monitor-Run-Id'' \<mapsto> RunID input]\<rparr>)"

section \<open>Loading is deterministic and complete\<close>

text \<open>The file of a match, decoded.\<close>

definition fixture_of :: "'e fixture_fs \<Rightarrow> (string \<times> 'a setter) list \<Rightarrow> 'a \<Rightarrow> string \<Rightarrow> 'a option" where
  "fixture_of files fds zero match =
     (case OpenFile files match of
        Inl _ \<Rightarrow> None
      | Inr file \<Rightarrow>
          (case Decode_into (set_struct True fds) (FixtureBytes file) zero of
             (fixture, decoded) \<Rightarrow> if decoded \<and> CloseResult file = None then Some fixture else None))"

definition paired :: "string list \<Rightarrow> fs_event list" where
  "paired ms = concat (map (\<lambda>m. [Opened m, ClosedFile m]) ms)"

lemma load_matches_spec:
  "(case load_matches files fds zero ms fixtures log of
      (Inr xs, log') \<Rightarrow> map (fixture_of files fds zero) ms = map Some (drop (length fixtures) xs) \<and>
        take (length fixtures) xs = fixtures \<and> log' = log @ paired ms
    | (Inl e, log') \<Rightarrow> (\<exists>k < length ms. fixture_of files fds zero (ms ! k) = None \<and>
        list_all (\<lambda>m. fixture_of files fds zero m \<noteq> None) (take k ms) \<and>
        (log' = log @ paired (take k ms) \<or> log' = log @ paired (take (Suc k) ms))))"
proof (induction ms arbitrary: fixtures log)
  case Nil
  show ?case by (simp add: paired_def)
next
  case (Cons m ms)
  show ?case
  proof (cases "fixture_of files fds zero m")
    case None
    then show ?thesis
      by (auto simp: fixture_of_def paired_def Let_def split: sum.splits prod.splits option.splits if_splits intro!: exI [of _ 0])
  next
    case (Some x)
    then obtain fx where f: "OpenFile files m = Inr fx" "CloseResult fx = None"
      "Decode_into (set_struct True fds) (FixtureBytes fx) zero = (x, True)"
      by (auto simp: fixture_of_def split: sum.splits prod.splits if_splits)
    let ?rest = "load_matches files fds zero ms (fixtures @ [x]) (log @ [Opened m, ClosedFile m])"
    have eq: "load_matches files fds zero (m # ms) fixtures log = ?rest" by (simp add: f)
    obtain r log' where r: "?rest = (r, log')" by (rule prod.exhaust)
    note IH = Cons.IH [where fixtures = "fixtures @ [x]" and log = "log @ [Opened m, ClosedFile m]", unfolded r]
    show ?thesis
    proof (cases r)
      case (Inr xs)
      with IH have rest: "map (fixture_of files fds zero) ms = map Some (drop (Suc (length fixtures)) xs)"
        "take (Suc (length fixtures)) xs = fixtures @ [x]" "log' = (log @ [Opened m, ClosedFile m]) @ paired ms" by simp_all
      then have "length (take (Suc (length fixtures)) xs) = Suc (length fixtures)" by simp
      then have "length fixtures < length xs" by simp
      then have "drop (length fixtures) xs = xs ! length fixtures # drop (Suc (length fixtures)) xs" "xs ! length fixtures = x"
        "take (length fixtures) xs = fixtures"
        using rest(2) Cons_nth_drop_Suc [of "length fixtures" xs] by (simp_all add: take_Suc_conv_app_nth)
      with rest Some show ?thesis unfolding eq r Inr by (simp add: paired_def)
    next
      case (Inl e)
      with IH obtain k where k: "k < length ms" "fixture_of files fds zero (ms ! k) = None"
        "list_all (\<lambda>m. fixture_of files fds zero m \<noteq> None) (take k ms)"
        "log' = (log @ [Opened m, ClosedFile m]) @ paired (take k ms) \<or>
         log' = (log @ [Opened m, ClosedFile m]) @ paired (take (Suc k) ms)" by auto
      with Some show ?thesis unfolding eq r Inl by (simp del: load_matches.simps) (intro exI [of _ "Suc k"], auto simp: paired_def)
    qed
  qed
qed

text \<open>The fixtures LoadJSON returns are exactly the decoded files of the matches in lexical order, one per match, each decoded
  strictly, and every file opened was closed before the next was opened; an error means the glob failed or some matching file
  could not be opened, decoded or closed, and the files behind the first such file were not opened.
\<close>
theorem LoadJSON_exact:
  assumes "Glob files pattern = Inr matches"
  shows "case LoadJSON files fds zero pattern of
     (Inr xs, log) \<Rightarrow> length xs = length matches \<and>
       (\<forall>k < length xs. fixture_of files fds zero (sort matches ! k) = Some (xs ! k)) \<and> log = paired (sort matches)
   | (Inl e, log) \<Rightarrow> (\<exists>k < length matches. fixture_of files fds zero (sort matches ! k) = None \<and>
       (\<forall>j < k. fixture_of files fds zero (sort matches ! j) \<noteq> None) \<and>
       (log = paired (take k (sort matches)) \<or> log = paired (take (Suc k) (sort matches))))"
proof -
  obtain r log where r: "load_matches files fds zero (sort matches) [] [] = (r, log)" by (rule prod.exhaust)
  note spec = load_matches_spec [where files = files and fds = fds and zero = zero and ms = "sort matches" and fixtures = "[]" and log = "[]", unfolded r]
  show ?thesis
  proof (cases r)
    case (Inr xs)
    with spec have m: "map (fixture_of files fds zero) (sort matches) = map Some xs" "log = paired (sort matches)" by simp_all
    from m(1) have len: "length xs = length matches" by (metis length_map length_sort)
    have "fixture_of files fds zero (sort matches ! k) = Some (xs ! k)" if "k < length xs" for k
      using arg_cong [OF m(1), of "\<lambda>l. l ! k"] that len by simp
    with m(2) len show ?thesis by (simp add: LoadJSON_def assms r Inr)
  next
    case (Inl e)
    with spec obtain k where k: "k < length matches" "fixture_of files fds zero (sort matches ! k) = None"
      "list_all (\<lambda>m. fixture_of files fds zero m \<noteq> None) (take k (sort matches))"
      "log = paired (take k (sort matches)) \<or> log = paired (take (Suc k) (sort matches))" by auto
    from k(3) k(1) have "\<forall>j < k. fixture_of files fds zero (sort matches ! j) \<noteq> None" by (auto simp: list_all_length)
    with k show ?thesis by (auto simp: LoadJSON_def assms r Inl)
  qed
qed

definition demo_fs :: "unit fixture_fs" where
  "demo_fs = \<lparr>Glob = (\<lambda>p. Inr [''b.json'', ''a.json'']),
     OpenFile = (\<lambda>f. Inr \<lparr>FixtureBytes = print_json (JObj [(''name'', JStr f)]), CloseResult = None\<rparr>)\<rparr>"

definition demo_fields :: "(string \<times> string setter) list" where
  "demo_fields = [(''name'', set_string (\<lambda>v _. v))]"

lemma LoadJSON_exact_witness:
  "case LoadJSON demo_fs demo_fields [] ''*.json'' of
     (Inr xs, log) \<Rightarrow> length xs = 2 \<and> xs = [''a.json'', ''b.json''] | (Inl e, log) \<Rightarrow> False"
proof -
  have "case LoadJSON demo_fs demo_fields [] ''*.json'' of
      (Inr xs, log) \<Rightarrow> xs = [''a.json'', ''b.json''] | (Inl e, log) \<Rightarrow> False" by code_simp
  then obtain xs log where l: "LoadJSON demo_fs demo_fields [] ''*.json'' = (Inr xs, log)" "xs = [''a.json'', ''b.json'']"
    by (auto split: prod.splits sum.splits)
  have "Glob demo_fs ''*.json'' = Inr [''b.json'', ''a.json'']" by (simp add: demo_fs_def)
  from LoadJSON_exact [OF this, of demo_fields "[]"] l show ?thesis by simp
qed

section \<open>A guard proof\<close>

lemma CheckGuard_iff:
  "fst (CheckGuard runUnsafe w) = None \<longleftrightarrow>
     (\<exists>err w1 w2. runUnsafe \<lparr>guardsDisabled = False\<rparr> w = (Some err, w1) \<and> runUnsafe \<lparr>guardsDisabled = True\<rparr> w1 = (None, w2))"
  by (auto simp: CheckGuard_def split: prod.splits option.splits)

lemma traffic_New_headers:
  "dom (Headers (traffic_New input)) = {''X-Fulcrum-Internal-Tool'', ''X-Fulcrum-Traffic-Class'', ''X-Fulcrum-Monitor-Site'',
     ''X-Fulcrum-Monitor-Env'', ''X-Fulcrum-Monitor-Surface'', ''X-Fulcrum-Monitor-Run-Id''} \<and>
   Headers (traffic_New input) ''X-Fulcrum-Traffic-Class'' = Some (TrafficClass (traffic_New input)) \<and>
   Headers (traffic_New input) ''X-Fulcrum-Monitor-Run-Id'' = Some (IdentityRunID (traffic_New input)) \<and>
   HasPrefix (UserAgent (traffic_New input)) ''FulcrumInternal/''"
  by (auto simp: traffic_New_def Let_def HasPrefix_def traffic_product_def)

end
