(* ===== verification/Testkit_Postgres.thy ===== *)
theory Testkit_Postgres
  imports Go_Path "HOL-Library.Word"
begin

text \<open>
  Package \<open>testkit/postgres\<close>: disposable servers for tests. \<open>embedded-postgres\<close> is a parameter: what a server with
  given settings answers when it is started and stopped, and its connection URL; so are the listener that finds
  a port and the test's temporary directories. A test keeps the cleanups it has registered, the last first, and
  runs them at its end, also after a fatal failure.
\<close>

section \<open>Servers\<close>

record pg_settings =
  PgVersion :: string
  PgPort :: "32 word"
  RuntimePath :: string
  DataPath :: string
  StartTimeout :: go_duration

record ('w, 'e) pg_library =
  V18 :: string
  NetListen :: "'w \<Rightarrow> ('e + int) \<times> 'w"
  CloseListener :: "'w \<Rightarrow> 'e option \<times> 'w"
  TempDir :: "'w \<Rightarrow> ('e + string) \<times> 'w"
  StartDatabase :: "pg_settings \<Rightarrow> 'w \<Rightarrow> 'e option \<times> 'w"
  StopDatabase :: "pg_settings \<Rightarrow> 'w \<Rightarrow> 'e option \<times> 'w"
  GetConnectionURL :: "pg_settings \<Rightarrow> string"

datatype 'e test_failure =
    ReservePort 'e
  | ReleasePort string 'e
  | ParsePort string
  | MakeTempDir 'e
  | StartServer 'e
  | StopServer 'e

record ('w, 'e) test_state =
  TestWorld :: 'w
  Cleanups :: "pg_settings list"
  Failures :: "'e test_failure list"

record pg_instance =
  InstanceURL :: string

text \<open>\<open>strconv.ParseUint(s, 10, 32)\<close>\<close>

definition ParseUint32 :: "string \<Rightarrow> nat option" where
  "ParseUint32 s = (case ParseUint64 s of Some n \<Rightarrow> if n < 2 ^ 32 then Some n else None | None \<Rightarrow> None)"

definition availablePort :: "('w, 'e) pg_library \<Rightarrow> 'w \<Rightarrow> ('e test_failure + 32 word) \<times> 'w" where
  "availablePort lib w =
     (case NetListen lib w of
        (Inl e, w1) \<Rightarrow> (Inl (ReservePort e), w1)
      | (Inr listening, w1) \<Rightarrow>
          (let portText = show_int listening in
           case CloseListener lib w1 of
             (Some e, w2) \<Rightarrow> (Inl (ReleasePort portText e), w2)
           | (None, w2) \<Rightarrow>
               (case ParseUint32 portText of
                  None \<Rightarrow> (Inl (ParsePort portText), w2)
                | Some port \<Rightarrow> (Inr (word_of_nat port), w2))))"

definition start_settings :: "('w, 'e) pg_library \<Rightarrow> 32 word \<Rightarrow> string \<Rightarrow> pg_settings" where
  "start_settings lib port root =
     \<lparr>PgVersion = V18 lib, PgPort = port, RuntimePath = path_Join [root, ''runtime''],
      DataPath = path_Join [root, ''data''], StartTimeout = 60 * second\<rparr>"

text \<open>A fatal failure ends the test's function: what comes after it in the source is not reached.\<close>

definition fatal :: "'e test_failure \<Rightarrow> ('w, 'e) test_state \<Rightarrow> 'a option \<times> ('w, 'e) test_state" where
  "fatal f t = (None, t\<lparr>Failures := Failures t @ [f]\<rparr>)"

definition pg_Start :: "('w, 'e) pg_library \<Rightarrow> ('w, 'e) test_state \<Rightarrow> pg_instance option \<times> ('w, 'e) test_state" where
  "pg_Start lib t =
     (case availablePort lib (TestWorld t) of
        (Inl f, w1) \<Rightarrow> fatal f (t\<lparr>TestWorld := w1\<rparr>)
      | (Inr port, w1) \<Rightarrow>
          (case TempDir lib w1 of
             (Inl e, w2) \<Rightarrow> fatal (MakeTempDir e) (t\<lparr>TestWorld := w2\<rparr>)
           | (Inr root, w2) \<Rightarrow>
               (let config = start_settings lib port root in
                case StartDatabase lib config w2 of
                  (Some e, w3) \<Rightarrow> fatal (StartServer e) (t\<lparr>TestWorld := w3\<rparr>)
                | (None, w3) \<Rightarrow>
                    (Some \<lparr>InstanceURL = GetConnectionURL lib config\<rparr>,
                     t\<lparr>TestWorld := w3, Cleanups := config # Cleanups t\<rparr>))))"

definition pg_URL :: "pg_instance \<Rightarrow> string" where "pg_URL i = InstanceURL i"

text \<open>The end of the test.\<close>

definition cleanup_one :: "('w, 'e) pg_library \<Rightarrow> pg_settings \<Rightarrow> ('w, 'e) test_state \<Rightarrow> ('w, 'e) test_state" where
  "cleanup_one lib config t =
     (case StopDatabase lib config (TestWorld t) of
        (Some e, w1) \<Rightarrow> t\<lparr>TestWorld := w1, Failures := Failures t @ [StopServer e]\<rparr>
      | (None, w1) \<Rightarrow> t\<lparr>TestWorld := w1\<rparr>)"

definition test_end :: "('w, 'e) pg_library \<Rightarrow> ('w, 'e) test_state \<Rightarrow> ('w, 'e) test_state" where
  "test_end lib t = fold (cleanup_one lib) (Cleanups t) (t\<lparr>Cleanups := []\<rparr>)"

text \<open>A test that starts \<open>n\<close> servers, as far as it gets.\<close>

fun start_servers :: "nat \<Rightarrow> ('w, 'e) pg_library \<Rightarrow> ('w, 'e) test_state \<Rightarrow> string list \<times> ('w, 'e) test_state" where
  "start_servers 0 lib t = ([], t)"
| "start_servers (Suc n) lib t =
     (case pg_Start lib t of
        (None, t1) \<Rightarrow> ([], t1)
      | (Some i, t1) \<Rightarrow> (case start_servers n lib t1 of (urls, t2) \<Rightarrow> (pg_URL i # urls, t2)))"

section \<open>Every server that was started is stopped\<close>

lemma availablePort_listening:
  assumes "NetListen lib w = (Inr p, w1)" "CloseListener lib w1 = (None, w2)" "0 \<le> p" "p < 2 ^ 32"
  shows "availablePort lib w = (Inr (word_of_int p), w2)"
proof -
  have "ParseUint64 (show_nat (nat p)) = Some (nat p)"
    using assms(3,4) show_nat_digits [of "nat p"] dec_val_show_nat [of "nat p"]
    by (auto simp: ParseUint64_def nat_less_iff)
  then show ?thesis using assms by (simp add: availablePort_def ParseUint32_def show_int_def nat_less_iff)
qed

lemma pg_Start_Some:
  assumes "pg_Start lib t = (Some i, t')"
  shows "\<exists>config w. StartDatabase lib config w = (None, TestWorld t') \<and> Cleanups t' = config # Cleanups t
    \<and> Failures t' = Failures t \<and> pg_URL i = GetConnectionURL lib config"
  using assms by (auto simp: pg_Start_def fatal_def pg_URL_def Let_def split: prod.splits sum.splits option.splits)

lemma pg_Start_None:
  assumes "pg_Start lib t = (None, t')"
  shows "Cleanups t' = Cleanups t \<and> (\<exists>f. Failures t' = Failures t @ [f])"
  using assms by (auto simp: pg_Start_def fatal_def Let_def split: prod.splits sum.splits option.splits)

text \<open>The servers a test gets are those whose stop is registered, the last started first, whether or not one more
  start failed; nothing else is registered, and a test that got them all has not failed.\<close>

lemma start_servers_registered:
  assumes "start_servers n lib t = (urls, t')"
  shows "\<exists>configs. Cleanups t' = rev configs @ Cleanups t \<and> urls = map (GetConnectionURL lib) configs
    \<and> length urls \<le> n \<and> (length urls = n \<longleftrightarrow> Failures t' = Failures t)
    \<and> (\<forall>config \<in> set configs. \<exists>w w'. StartDatabase lib config w = (None, w'))"
  using assms
proof (induction n arbitrary: t urls t')
  case 0
  then show ?case by (intro exI [of _ "[]"]) simp
next
  case (Suc n)
  show ?case
  proof (cases "pg_Start lib t")
    case (Pair r t1)
    show ?thesis
    proof (cases r)
      case None
      with Suc.prems Pair pg_Start_None [of lib t t1] show ?thesis by (intro exI [of _ "[]"]) auto
    next
      case (Some i)
      obtain us t2 where rest: "start_servers n lib t1 = (us, t2)" by (rule prod.exhaust)
      with Suc.prems Pair Some have eq: "urls = pg_URL i # us" "t' = t2" by simp_all
      from pg_Start_Some [of lib t i t1] Pair Some obtain config w where c:
        "StartDatabase lib config w = (None, TestWorld t1)" "Cleanups t1 = config # Cleanups t" "Failures t1 = Failures t"
        "pg_URL i = GetConnectionURL lib config" by auto
      from Suc.IH [OF rest] obtain configs where "Cleanups t2 = rev configs @ Cleanups t1" "us = map (GetConnectionURL lib) configs"
        "length us \<le> n" "length us = n \<longleftrightarrow> Failures t2 = Failures t1"
        "\<forall>config \<in> set configs. \<exists>w w'. StartDatabase lib config w = (None, w')" by blast
      with eq c show ?thesis by (intro exI [of _ "config # configs"]) auto
    qed
  qed
qed

text \<open>The end of the test stops each of them once, the last first, and reports exactly the stops that failed.\<close>

lemma test_end_failures:
  assumes "\<And>config w. StopDatabase lib config w = (stop config, step config w)"
  shows "TestWorld (test_end lib t) = fold step (Cleanups t) (TestWorld t) \<and> Cleanups (test_end lib t) = []
    \<and> Failures (test_end lib t) = Failures t @ [StopServer e. config \<leftarrow> Cleanups t, e \<leftarrow> (case stop config of None \<Rightarrow> [] | Some e \<Rightarrow> [e])]"
proof -
  have "TestWorld (fold (cleanup_one lib) cs t) = fold step cs (TestWorld t) \<and> Cleanups (fold (cleanup_one lib) cs t) = Cleanups t
    \<and> Failures (fold (cleanup_one lib) cs t) = Failures t @ [StopServer e. config \<leftarrow> cs, e \<leftarrow> (case stop config of None \<Rightarrow> [] | Some e \<Rightarrow> [e])]"
    for cs t
    by (induction cs arbitrary: t) (auto simp: cleanup_one_def assms split: option.splits)
  then show ?thesis by (simp add: test_end_def)
qed

end
