(* ===== verification/Spec2Isabelle.thy ===== *)
theory Spec2Isabelle
  imports
    Github_Concurrent
    Fulcrum_Client
    Fulcrum_Entities
    S3_Multipart
    Email
    Auth_Example
    Pg_Migrations
    Packaging_Sample
    Foundry_Operator
    Sidecar
    Lifecycle
    Testkit
    Testkit_Postgres
begin

text \<open>
  A verification development for the Go modules of this repository: the shared packages the services of one organisation are
  built from. The packages do not call each other; each is a library a service imports, and two small programs of the repository
  put one to use. This theory only gathers them. The
  properties are the theorems behind a text block that begins with their number; each stands in the theory of its package,
  followed by a witness that applies it to a concrete case.

  \<^bold>\<open>The parts, and where each is modelled.\<close>

  \<^item> \<open>github\<close> (\<open>client.go\<close>, \<open>jwt.go\<close>, \<open>types.go\<close>, \<open>errors.go\<close>): minting installation tokens. \<open>Github_Types\<close> has permissions,
    tokens, errors and the app JWT; \<open>Github_Mint\<close> the client's state (cache, pacing, call budget, dedupe window) and \<open>mint\<close> as
    its three locked regions with the request in between; \<open>Github_Concurrent\<close> any number of goroutines that interleave these
    regions, as a step relation with its reachable states.
  \<^item> \<open>fulcrumprojects\<close> (\<open>envelope.go\<close>, \<open>mutations.go\<close>, \<open>client.go\<close>, \<open>errors.go\<close>): \<open>Fulcrum_Types\<close> has mutations, batches, results,
    their JSON and the builders; \<open>Fulcrum_Entities\<close> the vocabularies and typed entities of a snapshot;
    \<open>Fulcrum_Client\<close> the requests, \<open>Mutate\<close>, the refetch and \<open>Retry\<close>.
  \<^item> \<open>s3\<close> (\<open>s3.go\<close>, \<open>multipart.go\<close>): \<open>S3_Sign\<close> has the signature version 4 and the canonical request, \<open>S3_Client\<close> the object
    operations, \<open>S3_Multipart\<close> the verified streaming upload in one request or in parts.
  \<^item> \<open>email\<close> (\<open>client.go\<close>, \<open>delivery.go\<close>, \<open>secretfile.go\<close>): \<open>Email\<close>.
  \<^item> \<open>auth\<close> (\<open>config.go\<close>, \<open>cookies.go\<close>, \<open>jwks.go\<close>, \<open>verify.go\<close>, \<open>authorize.go\<close>, \<open>tokens.go\<close>, \<open>http.go\<close>, \<open>types.go\<close>, \<open>errors.go\<close>):
    \<open>Auth_Types\<close> has configuration and cookies, \<open>Auth_Verify\<close> the cache of signing keys and the verification of tokens, \<open>Auth_Flow\<close>
    the authorization request and the token requests, \<open>Auth_Http\<close> the callback, logout and middleware handlers. \<open>Auth_Example\<close>
    has the program \<open>cmd/example\<close>: its configuration, login handler and pages, and \<open>ServeMux\<close> behind the middleware.
  \<^item> \<open>pg\<close> (\<open>migration.go\<close>, \<open>export.go\<close>, \<open>runner.go\<close>, \<open>tx.go\<close>): \<open>Pg_Migrations\<close>, over a database with a committed and a
    transaction's state.
  \<^item> \<open>packaging\<close> (\<open>manifest.go\<close>, \<open>provenance/provenance.go\<close>): \<open>Packaging_Manifest\<close> has the manifest and its JSON, \<open>Packaging\<close>
    sealing and verifying over a file system tree; the sample program: \<open>Packaging_Sample\<close>.
  \<^item> \<open>foundryoperator\<close>: \<open>Foundry_Operator\<close>; \<open>sidecar\<close>: \<open>Sidecar\<close>; \<open>lifecycle\<close> (\<open>drain.go\<close>, \<open>signal.go\<close>): \<open>Lifecycle\<close>;
    \<open>testkit\<close> (\<open>fixtures.go\<close>, \<open>mutation.go\<close>) and \<open>synthetictraffic\<close> (\<open>identity.go\<close>): \<open>Testkit\<close>;
    \<open>testkit/postgres\<close>: \<open>Testkit_Postgres\<close>, over a test's list of cleanups.

  Below them stand the parts of the standard library the sources use, written out as Go behaves: \<open>Go_Prelude\<close> (strings, numbers,
  times that saturate, results as sums), \<open>Go_Encoding\<close> (hex, base64, query escaping), \<open>Go_Url\<close> (\<open>net/url\<close>), \<open>Go_Path\<close>, \<open>Go_Json\<close>
  (\<open>encoding/json\<close> on bytes: encoder, parser, struct decoding with exact and folded names, strict or not) and \<open>Go_Struct\<close>
  (unsigned numbers, maps, \<open>omitempty\<close>), \<open>Go_Net\<close> (addresses,
  dates, RFC 3339), \<open>Go_Time\<close> (the calendar is right, and a formatted instant is parsed to itself), \<open>Go_Sha256\<close> (SHA-256 and HMAC), \<open>Go_Http\<close> (requests, responses, the outcome of a request), \<open>Go_Errors\<close>, and for
  concurrent code \<open>Go_Machine\<close> (step relations with an invariant, and with a measure).

  \<^bold>\<open>How code is translated.\<close> A struct is a record, an enumeration a datatype or, where the code has an open string type, a
  string with its constants. A function that can fail returns a sum with the error on the left, so every return of the source is a
  branch. A method that changes its receiver takes and returns the state. Code that acts on the outside takes a world and returns
  it: HTTP servers, databases, file systems, random sources, clocks, secret sources and callbacks are functions on an arbitrary
  world and may answer anything. Strings are lists of bytes. Integers are kept in their Go ranges where the code converts, adds or
  compares them near a bound, and durations and times saturate as in package \<open>time\<close>.

  \<^bold>\<open>What is assumed.\<close> \<open>crypto/ecdsa.Verify\<close>, \<open>ed25519.Sign\<close> and \<open>Verify\<close>, RSA signing and the PEM parser, \<open>crypto/rand\<close>, the
  transport, the database driver, \<open>os\<close>, \<open>encoding/xml\<close> on the answers of S3 and \<open>http.ParseTime\<close> are parameters. A theorem that needs more of one of them than its type says so in its
  hypotheses, and its witness runs it with a concrete instance: that the verifier accepts what the signer signed, that a clock
  does not go back, that a random source gives the bytes asked for.

  \<^bold>\<open>Interfaces.\<close> The locale \<open>codec\<close> of \<open>Go_Encoding\<close> (decoding inverts encoding) is interpreted by hex, the two base64 alphabets
  and query escaping; \<open>coded_errors\<close> of \<open>Go_Errors\<close> by the three packages with coded errors; \<open>struct_codec\<close> of \<open>Go_Struct\<close> (a struct
  whose encoding is decoded to itself, alone, in front of other bytes and in a slice) by the cut record and its files, by the build
  provenance and by the six entities of \<open>fulcrumprojects\<close>; \<open>machine\<close> and its extension \<open>ending_machine\<close> of \<open>Go_Machine\<close> by the goroutines that share a
  GitHub client, by a drain and by the signal watcher; each on the definitions of the code.

  \<^bold>\<open>What the lemmas show.\<close>

  \<^item> \<open>github\<close>: two goroutines that mint for one key are admitted a dedupe window apart and all requests stay within the budget,
    in every reachable state; a returned token has exactly the scope asked for,
    in the body of the request that got it.
  \<^item> \<open>fulcrumprojects\<close>: a successful \<open>Mutate\<close> sent one complete batch and its results are those of its mutations; \<open>Retry\<close> ends
    within two rounds whatever the server does; builders produce complete mutations.
  \<^item> \<open>s3\<close>: the request on the wire is the one that was signed; a verified upload was read back with the size and digest the caller
    gave; a multipart upload is assembled without gaps or aborted; the canonical query string equals the encoded one.
  \<^item> \<open>email\<close>: what a send reports as accepted, and as surely not submitted; the headers carry no line break.
  \<^item> \<open>auth\<close>: an accepted token is signed by a published key and fits issuer, resource, type and time; the key cache refines an
    abstract key store; a gated page is served only to a verified principal; a session is written only for a matching state; all
    redirects stay on the host; a gated request reaches the login page without a loop. In the example program, which composes all
    of it, a user is signed in from the first request to the page they wanted, and a page of a principal is shown to nobody else.
  \<^item> \<open>pg\<close>: scripts and ledger rows move together, in order, behind the export gate; a repeated run does nothing; a transaction
    is all or nothing.
  \<^item> \<open>packaging\<close>: what is sealed verifies, if its names are UTF-8, and what verifies is the sealed payload, byte for byte.
  \<^item> \<open>foundryoperator\<close>: the proof header is read back as exactly the fields of the request, its times to the nanosecond, and belongs
    to no other request.
  \<^item> \<open>sidecar\<close>: a record is read back as it was written; a parsed record is valid.
  \<^item> \<open>lifecycle\<close>: under any schedule each target is shut down and reported once; a drain ends, and only a hung target keeps it;
    a second signal forces the exit, and only a second one.
  \<^item> \<open>testkit/postgres\<close>: the servers a test got are those it stops at its end, also when a later start fails.

  \<^bold>\<open>Bounds and fuel.\<close> \<open>parse_json\<close> runs the parser with twice the length of its input plus two, which the round-trip lemma
  shows to be enough for everything an encoder writes: every value takes at most two calls per byte. \<open>retry_rounds\<close> has the two
  rounds of the code, a part of an upload the four tries of the code. The URL, base64, UTF-8 and signature routines recurse on the
  length of their input. A drain of \<open>n\<close> targets has at most \<open>6 n + 2\<close> steps, proved by a measure. No definition uses more fuel than
  its input determines.

  \<^bold>\<open>Not modelled.\<close> Package comments. In the example program the listener, the log and CONNECT requests, whose paths \<open>ServeMux\<close>
  does not clean. Within the modelled packages: texts of wrapped errors where no caller reads them; \<open>encoding/json\<close>'s limit on nesting, and its
  decoding of a repeated array member over the elements of the earlier one; bracketed IPv6 hosts, which the URL parser does not
  validate; headers and bodies of the answers with which the auth handlers refuse; cancellation of a context in the middle of a
  request, which is one of the answers of the transport; and the memory of \<open>[]byte\<close> values shared with the caller.
\<close>

end
